(* ===== verification/Prelude.thy ===== *)
theory Prelude
  imports Main "HOL-Library.List_Lexorder" "HOL-Library.Multiset" "HOL-Library.Word"
begin

text \<open>
  Shared vocabulary of the development: the named collections the component theories feed,
  the fold of a fallible step over a list, the test \<open>x == tuple(sorted(x))\<close> together with
  \<open>len(x) == len(set(x))\<close> that several constructors make, and the generic lemmas on
  lists, options and sums the components share.
\<close>

named_theorems wf_defs \<open>definitions of the well-formedness predicates of the domain values\<close>
named_theorems guard_simps \<open>equations that decide a constructor's guards from well-formedness\<close>

section \<open>Sums as results\<close>

text \<open>A result is \<open>Inl e\<close> for a raised exception and \<open>Inr v\<close> for a returned value.\<close>

definition sum_bind :: "'e + 'a \<Rightarrow> ('a \<Rightarrow> 'e + 'b) \<Rightarrow> 'e + 'b" where
  "sum_bind m f = (case m of Inl e \<Rightarrow> Inl e | Inr x \<Rightarrow> f x)"

lemma sum_bind_simps [simp]:
  "sum_bind (Inl e) f = Inl e"
  "sum_bind (Inr x) f = f x"
  by (simp_all add: sum_bind_def)

lemma sum_bind_eq_Inr [simp]: "sum_bind m f = Inr y \<longleftrightarrow> (\<exists>x. m = Inr x \<and> f x = Inr y)"
  by (cases m) simp_all

lemma sum_bind_eq_Inl:
  "sum_bind m f = Inl e \<longleftrightarrow> m = Inl e \<or> (\<exists>x. m = Inr x \<and> f x = Inl e)"
  by (cases m) simp_all

lemma sum_bind_cong [fundef_cong]:
  assumes "m = m'" and "\<And>x. m' = Inr x \<Longrightarrow> f x = f' x"
  shows "sum_bind m f = sum_bind m' f'"
  using assms by (cases m') simp_all

text \<open>Running a fallible step over a list, stopping at the first error.\<close>

fun fold_res :: "('s \<Rightarrow> 'x \<Rightarrow> 'e + 's) \<Rightarrow> 's \<Rightarrow> 'x list \<Rightarrow> 'e + 's" where
  "fold_res f s [] = Inr s"
| "fold_res f s (x # xs) = sum_bind (f s x) (\<lambda>s'. fold_res f s' xs)"

lemma fold_res_append:
  "fold_res f s (xs @ ys) = sum_bind (fold_res f s xs) (\<lambda>s'. fold_res f s' ys)"
proof (induction xs arbitrary: s)
  case Nil
  then show ?case by simp
next
  case (Cons x xs)
  then show ?case by (cases "f s x") simp_all
qed

section \<open>Sorted and unique tuples\<close>

definition sorted_unique :: "'a::linorder list \<Rightarrow> bool" where
  "sorted_unique xs \<longleftrightarrow> xs = sort xs \<and> length xs = card (set xs)"

lemma sorted_unique_iff [simp]: "sorted_unique xs \<longleftrightarrow> sorted xs \<and> distinct xs"
proof -
  have "xs = sort xs \<longleftrightarrow> sorted xs"
    by (metis sorted_sort sorted_sort_id)
  moreover have "length xs = card (set xs) \<longleftrightarrow> distinct xs"
    by (metis card_distinct distinct_card)
  ultimately show ?thesis by (simp add: sorted_unique_def)
qed

lemma sorted_unique_strict: "sorted_unique xs \<longleftrightarrow> sorted_wrt (<) xs"
  by (simp add: strict_sorted_iff)

section \<open>Lists\<close>

lemma length_dropWhile_less_eq: "length (dropWhile P xs) \<le> length xs"
  by (induction xs) auto

lemma dropWhile_eq_self_hd: "xs = [] \<or> \<not> P (hd xs) \<Longrightarrow> dropWhile P xs = xs"
  by (cases xs) auto

lemma list_all_replicate [simp]: "list_all P (replicate n x) \<longleftrightarrow> n = 0 \<or> P x"
  by (induction n) auto

lemma map_of_insort_key:
  assumes "distinct (map fst (kv # kvs))"
  shows "map_of (insort_key fst kv kvs) = map_of (kv # kvs)"
  using assms
proof (induction kvs)
  case Nil
  then show ?case by simp
next
  case (Cons a kvs)
  then show ?case by (cases kv, cases a) (auto simp: fun_upd_twist)
qed

lemma map_of_sort_key:
  assumes "distinct (map fst kvs)"
  shows "map_of (sort_key fst kvs) = map_of kvs"
  using assms
proof (induction kvs)
  case Nil
  then show ?case by simp
next
  case (Cons kv kvs)
  have "mset (map fst (sort_key fst kvs)) = mset (map fst kvs)"
    by simp
  then have "distinct (map fst (sort_key fst kvs)) = distinct (map fst kvs)"
    by (rule mset_eq_imp_distinct_iff)
  then have "distinct (map fst (kv # sort_key fst kvs))"
    using Cons.prems by simp
  then have "map_of (insort_key fst kv (sort_key fst kvs)) = map_of (kv # sort_key fst kvs)"
    by (rule map_of_insort_key)
  with Cons show ?case by simp
qed

end
