(* ===== verification/Errors.thy ===== *)
theory Errors
  imports Prelude
begin

text \<open>
  The exceptions of the program as values. Every component of the source declares a
  \<open>StrEnum\<close> of stable causes and an exception that carries one; the causes are the
  enumerations below and \<open>exn\<close> collects the exceptions. The human-readable \<open>detail\<close>
  argument of an exception is not modelled: no code path reads it back.
  \<open>is_ValueError\<close> and \<open>is_RuntimeError\<close> are the subclass tests an \<open>except\<close> clause
  makes, written from the class declarations.
\<close>

section \<open>Cause enumerations\<close>

datatype lifecycle_error_cause =
    LC_INVALID_TRANSITION
  | LC_TERMINAL_STATE
  | LC_TIME_REGRESSION
  | LC_FINAL_STATE_REQUIRED
  | LC_FINAL_STATE_FORBIDDEN

datatype state_invariant_cause =
    SI_RUN_MISMATCH
  | SI_TIME_REGRESSION
  | SI_REVISION_MISMATCH
  | SI_STATE_MISMATCH
  | SI_EVENT_MISMATCH

datatype contract_binding_cause =
    CB_INVALID_UTF8
  | CB_INVALID_JSON
  | CB_INVALID_DOCUMENT
  | CB_INVALID_CONTRACT
  | CB_BINDING_MISMATCH

datatype command_authorization_cause =
    CA_POLICY_HASH_MISMATCH
  | CA_ACTION_DENIED
  | CA_EXECUTABLE_DENIED
  | CA_ARGUMENTS_DENIED
  | CA_WORKING_DIRECTORY_DENIED
  | CA_ENVIRONMENT_DENIED
  | CA_LIMIT_EXCEEDED

datatype state_store_cause =
    SS_ALREADY_EXISTS
  | SS_NOT_FOUND
  | SS_CONFLICT
  | SS_CORRUPT
  | SS_STORAGE_FAILURE

datatype resume_cause =
    RS_NOT_FOUND
  | RS_RUN_MISMATCH
  | RS_CONTRACT_MISMATCH
  | RS_BASELINE_MISMATCH
  | RS_POLICY_MISMATCH
  | RS_TERMINAL_RUN

datatype command_execution_cause =
    CE_POLICY_DENIED
  | CE_WORKSPACE_NOT_FOUND
  | CE_EXECUTABLE_UNAVAILABLE
  | CE_SPAWN_FAILED
  | CE_CLEANUP_FAILED
  | CE_ISOLATION_FAILURE

datatype workspace_cause =
    WS_ALREADY_EXISTS
  | WS_NOT_FOUND
  | WS_CONFLICT
  | WS_ISOLATION_FAILURE
  | WS_STORAGE_FAILURE

datatype git_cli_cause =
    GC_INVALID_CONFIGURATION
  | GC_INVALID_PATH
  | GC_DESTINATION_EXISTS
  | GC_TIMEOUT
  | GC_OUTPUT_LIMIT
  | GC_COMMAND_FAILED
  | GC_BASELINE_MISMATCH

datatype sandbox_cause =
    SB_SPAWN_FAILED
  | SB_CLEANUP_FAILED
  | SB_ISOLATION_FAILURE

section \<open>Exceptions\<close>

text \<open>
  \<open>StopIteration\<close> and the parser fuel of the JSON decoder never leave that component;
  \<open>FuelExhausted\<close> is a value of the model only and is proved unreachable there.
\<close>

datatype exn =
    TypeError
  | ValueError
  | KeyError
  | AttributeError
  | OSError
  | OverflowError
  | RecursionError
  | TimeoutExpired
  | UnicodeDecodeError
  | UnicodeEncodeError
  | JSONDecodeError
  | FuelExhausted
  | SqliteError
  | DuplicateKeyError
  | StateSerializationError
  | EvidenceSerializationError
  | LifecycleError lifecycle_error_cause
  | StateInvariantError state_invariant_cause
  | ContractBindingError contract_binding_cause
  | CommandAuthorizationError command_authorization_cause
  | StateStoreError state_store_cause
  | ResumeError resume_cause
  | CommandExecutionError command_execution_cause
  | WorkspaceError workspace_cause
  | GitCliError git_cli_cause
  | SandboxError sandbox_cause

type_synonym 'a res = "exn + 'a"

fun is_ValueError :: "exn \<Rightarrow> bool" where
  "is_ValueError ValueError = True"
| "is_ValueError UnicodeDecodeError = True"
| "is_ValueError UnicodeEncodeError = True"
| "is_ValueError JSONDecodeError = True"
| "is_ValueError DuplicateKeyError = True"
| "is_ValueError StateSerializationError = True"
| "is_ValueError EvidenceSerializationError = True"
| "is_ValueError (LifecycleError c) = True"
| "is_ValueError (StateInvariantError c) = True"
| "is_ValueError (ContractBindingError c) = True"
| "is_ValueError e = False"

fun is_StateStoreError :: "exn \<Rightarrow> bool" where
  "is_StateStoreError (StateStoreError c) = True"
| "is_StateStoreError e = False"

text \<open>\<open>except (TypeError, ValueError) as error: raise e from error\<close>\<close>

definition is_type_or_value_error :: "exn \<Rightarrow> bool" where
  "is_type_or_value_error e \<longleftrightarrow> e = TypeError \<or> is_ValueError e"

text \<open>\<open>try: m except <caught>: raise e'\<close>\<close>

definition catching :: "(exn \<Rightarrow> bool) \<Rightarrow> exn \<Rightarrow> 'a res \<Rightarrow> 'a res" where
  "catching caught e' m = (case m of Inl e \<Rightarrow> Inl (if caught e then e' else e) | Inr x \<Rightarrow> Inr x)"

lemma catching_simps [simp]:
  "catching caught e' (Inr x) = Inr x"
  "catching caught e' (Inl e) = Inl (if caught e then e' else e)"
  by (simp_all add: catching_def)

lemma catching_eq_Inr [simp]: "catching caught e' m = Inr x \<longleftrightarrow> m = Inr x"
  by (cases m) simp_all

lemma is_StateStoreError_iff: "is_StateStoreError e \<longleftrightarrow> (\<exists>c. e = StateStoreError c)"
  by (cases e) simp_all

text \<open>A guard of a constructor: raise unless the condition holds.\<close>

definition require :: "bool \<Rightarrow> exn \<Rightarrow> unit res" where
  "require ok e = (if ok then Inr () else Inl e)"

lemma require_eq_Inr [simp]: "require ok e = Inr u \<longleftrightarrow> ok"
  by (simp add: require_def)

lemma require_simps [simp]:
  "require True e = Inr ()"
  "require False e = Inl e"
  by (simp_all add: require_def)

end
