(* ===== verification/PyText.thy ===== *)
theory PyText
  imports Errors
begin

text \<open>
  Python text and bytes. A \<open>str\<close> is a sequence of code points, so text is a list of
  natural numbers compared by \<open>List_Lexorder\<close> exactly as Python compares strings; a
  \<open>bytes\<close> value is a list of 8-bit words. The theory models the parts of \<open>str\<close>,
  \<open>re\<close> and the UTF-8 codec the source uses: \<open>strip\<close>, full matches of the identifier
  patterns, decimal rendering of integers, strict encoding and decoding.
\<close>

type_synonym str = "nat list"
type_synonym bytes = "8 word list"

text \<open>Literals of the source.\<close>

definition lit :: "string \<Rightarrow> str" where
  "lit s = map of_char s"

lemma lit_simps [simp]: "lit [] = []" "lit (c # s) = of_char c # lit s"
  by (simp_all add: lit_def)

section \<open>Character classes and strip\<close>

definition is_lower :: "nat \<Rightarrow> bool" where "is_lower c \<longleftrightarrow> 97 \<le> c \<and> c \<le> 122"
definition is_upper :: "nat \<Rightarrow> bool" where "is_upper c \<longleftrightarrow> 65 \<le> c \<and> c \<le> 90"
definition is_digit :: "nat \<Rightarrow> bool" where "is_digit c \<longleftrightarrow> 48 \<le> c \<and> c \<le> 57"
definition is_alnum :: "nat \<Rightarrow> bool" where "is_alnum c \<longleftrightarrow> is_lower c \<or> is_upper c \<or> is_digit c"
definition is_lower_hex :: "nat \<Rightarrow> bool" where "is_lower_hex c \<longleftrightarrow> is_digit c \<or> (97 \<le> c \<and> c \<le> 102)"

text \<open>The code points \<open>str.strip\<close> removes (\<open>str.isspace\<close>).\<close>

definition is_space :: "nat \<Rightarrow> bool" where
  "is_space c \<longleftrightarrow> (9 \<le> c \<and> c \<le> 13) \<or> (28 \<le> c \<and> c \<le> 32) \<or> c = 0x85 \<or> c = 0xA0 \<or> c = 0x1680
     \<or> (0x2000 \<le> c \<and> c \<le> 0x200A) \<or> c = 0x2028 \<or> c = 0x2029 \<or> c = 0x202F \<or> c = 0x205F \<or> c = 0x3000"

definition strip :: "str \<Rightarrow> str" where
  "strip s = rev (dropWhile is_space (rev (dropWhile is_space s)))"

lemma strip_id:
  assumes "s \<noteq> []" and "\<not> is_space (hd s)" and "\<not> is_space (last s)"
  shows "strip s = s"
proof -
  have "dropWhile is_space s = s"
    using assms(2) by (intro dropWhile_eq_self_hd) simp
  moreover have "dropWhile is_space (rev s) = rev s"
    using assms(1,3) by (intro dropWhile_eq_self_hd) (simp add: hd_rev)
  ultimately show ?thesis by (simp add: strip_def)
qed

lemma alnum_not_space: "is_alnum c \<Longrightarrow> \<not> is_space c"
  by (auto simp: is_alnum_def is_lower_def is_upper_def is_digit_def is_space_def)

section \<open>Identifier patterns\<close>

text \<open>
  \<open>re.compile(r"[H][T]{0,n}\Z").fullmatch(s)\<close> for a head class \<open>H\<close> and a tail class
  \<open>T\<close>: every identifier pattern of the source has this shape or is a fixed-length
  lower-case hexadecimal pattern.
\<close>

definition match_head_tail :: "(nat \<Rightarrow> bool) \<Rightarrow> (nat \<Rightarrow> bool) \<Rightarrow> nat \<Rightarrow> str \<Rightarrow> bool" where
  "match_head_tail h t n s = (case s of [] \<Rightarrow> False | c # cs \<Rightarrow> h c \<and> length cs \<le> n \<and> list_all t cs)"

definition match_hex :: "nat \<Rightarrow> str \<Rightarrow> bool" where
  "match_hex n s \<longleftrightarrow> length s = n \<and> list_all is_lower_hex s"

text \<open>\<open>.\<close> is 46, \<open>_\<close> is 95, \<open>-\<close> is 45 and \<open>:\<close> is 58.\<close>

definition is_handle_char :: "nat \<Rightarrow> bool" where
  "is_handle_char c \<longleftrightarrow> is_alnum c \<or> c = 46 \<or> c = 95 \<or> c = 45"

definition is_component_char :: "nat \<Rightarrow> bool" where
  "is_component_char c \<longleftrightarrow> is_lower c \<or> is_digit c \<or> c = 46 \<or> c = 95 \<or> c = 45"

lemma handle_char_bounds: "is_handle_char c \<Longrightarrow> 45 \<le> c \<and> c \<le> 122"
  by (auto simp: is_handle_char_def is_alnum_def is_lower_def is_upper_def is_digit_def)

lemma handle_char_not_space: "is_handle_char c \<Longrightarrow> \<not> is_space c"
  by (drule handle_char_bounds) (auto simp: is_space_def)

lemma hex_char_not_space: "is_lower_hex c \<Longrightarrow> \<not> is_space c"
  by (auto simp: is_lower_hex_def is_digit_def is_space_def)

lemma match_handle_chars:
  assumes "match_head_tail is_alnum is_handle_char n s"
  shows "list_all is_handle_char s"
  using assms by (auto simp: match_head_tail_def is_handle_char_def split: list.splits)

lemma match_handle_strip:
  assumes "match_head_tail is_alnum is_handle_char n s"
  shows "s \<noteq> []" and "strip s = s"
proof -
  show ne: "s \<noteq> []"
    using assms by (auto simp: match_head_tail_def)
  have "\<forall>c \<in> set s. \<not> is_space c"
    using match_handle_chars [OF assms] handle_char_not_space by (auto simp: list_all_iff)
  with ne show "strip s = s" by (intro strip_id) auto
qed

lemma match_hex_strip:
  assumes "match_hex n s" and "0 < n"
  shows "s \<noteq> []" and "strip s = s"
proof -
  show ne: "s \<noteq> []"
    using assms by (auto simp: match_hex_def)
  have "\<forall>c \<in> set s. \<not> is_space c"
    using assms(1) hex_char_not_space by (auto simp: list_all_iff match_hex_def)
  with ne show "strip s = s" by (intro strip_id) auto
qed

section \<open>Decimal integers\<close>

fun dec_digits :: "nat \<Rightarrow> str" where
  "dec_digits n = (if n < 10 then [48 + n] else dec_digits (n div 10) @ [48 + n mod 10])"

declare dec_digits.simps [simp del]

definition digits_value :: "str \<Rightarrow> nat" where
  "digits_value ds = foldl (\<lambda>a d. 10 * a + (d - 48)) 0 ds"

text \<open>\<open>int.__repr__\<close>\<close>

definition int_repr :: "int \<Rightarrow> str" where
  "int_repr i = (if i < 0 then 45 # dec_digits (nat (- i)) else dec_digits (nat i))"

text \<open>Zero-padded to at least \<open>w\<close> digits, as \<open>strftime\<close> and \<open>{0:04x}\<close> pad.\<close>

definition zpad :: "nat \<Rightarrow> nat \<Rightarrow> str" where
  "zpad w n = replicate (w - length (dec_digits n)) 48 @ dec_digits n"

lemma dec_digits_ne [simp]: "dec_digits n \<noteq> []"
  by (subst dec_digits.simps) simp

lemma dec_digits_all: "list_all is_digit (dec_digits n)"
proof (induction n rule: dec_digits.induct)
  case (1 n)
  show ?case
  proof (cases "n < 10")
    case True
    then show ?thesis by (subst dec_digits.simps) (simp add: is_digit_def)
  next
    case False
    moreover have "is_digit (48 + n mod 10)"
      using mod_less_divisor [of 10 n] by (simp add: is_digit_def)
    ultimately show ?thesis
      using 1 by (subst dec_digits.simps) simp
  qed
qed

lemma digits_value_snoc [simp]: "digits_value (ds @ [d]) = 10 * digits_value ds + (d - 48)"
  by (simp add: digits_value_def)

lemma digits_value_dec [simp]: "digits_value (dec_digits n) = n"
proof (induction n rule: dec_digits.induct)
  case (1 n)
  show ?case
  proof (cases "n < 10")
    case True
    then show ?thesis by (subst dec_digits.simps) (simp add: digits_value_def)
  next
    case False
    with 1 show ?thesis by (subst dec_digits.simps) simp
  qed
qed

lemma digits_value_zeros: "digits_value (replicate k 48 @ ds) = digits_value ds"
proof -
  have "foldl (\<lambda>a d. 10 * a + (d - 48)) 0 (replicate k 48) = (0 :: nat)"
    by (induction k) auto
  then show ?thesis by (simp add: digits_value_def)
qed

lemma digits_value_zpad [simp]: "digits_value (zpad w n) = n"
  by (simp add: zpad_def digits_value_zeros)

lemma zpad_all: "list_all is_digit (zpad w n)"
  by (simp add: zpad_def dec_digits_all is_digit_def)

lemma length_dec_digits_le: "0 < w \<Longrightarrow> n < 10 ^ w \<Longrightarrow> length (dec_digits n) \<le> w"
proof (induction w arbitrary: n)
  case 0
  then show ?case by simp
next
  case (Suc w)
  show ?case
  proof (cases "n < 10")
    case True
    then show ?thesis by (subst dec_digits.simps) simp
  next
    case False
    with Suc.prems have "n div 10 < 10 ^ w" "0 < w"
      by (auto simp: less_mult_imp_div_less mult.commute intro!: gr0I)
    with Suc.IH have "length (dec_digits (n div 10)) \<le> w" by blast
    with False show ?thesis by (subst dec_digits.simps) simp
  qed
qed

lemma length_zpad: "0 < w \<Longrightarrow> n < 10 ^ w \<Longrightarrow> length (zpad w n) = w"
  using length_dec_digits_le [of w n] by (simp add: zpad_def)

lemma dec_digits_hd: "0 < n \<Longrightarrow> hd (dec_digits n) \<noteq> 48"
proof (induction n rule: dec_digits.induct)
  case (1 n)
  show ?case
  proof (cases "n < 10")
    case True
    with 1 show ?thesis by (subst dec_digits.simps) simp
  next
    case False
    then have "0 < n div 10" by simp
    with 1 False show ?thesis by (subst dec_digits.simps) (simp add: hd_append)
  qed
qed

lemma dec_digits_zero: "dec_digits 0 = [48]"
  by (subst dec_digits.simps) simp

end
