(* ===== verification/Utf8.thy ===== *)
theory Utf8
  imports PyText
begin

text \<open>
  Strict UTF-8, as \<open>str.encode("utf-8")\<close> and \<open>bytes.decode("utf-8")\<close> define it:
  lone surrogates cannot be encoded (\<open>UnicodeEncodeError\<close>), and a decoder rejects
  overlong forms, surrogates, stray continuation bytes and values above \<open>U+10FFFF\<close>
  (\<open>UnicodeDecodeError\<close>).
\<close>

definition is_surrogate :: "nat \<Rightarrow> bool" where
  "is_surrogate c \<longleftrightarrow> 0xD800 \<le> c \<and> c \<le> 0xDFFF"

definition utf8_char :: "nat \<Rightarrow> bytes option" where
  "utf8_char c =
    (if c < 0x80 then Some [of_nat c]
     else if c < 0x800 then Some [of_nat (0xC0 + c div 64), of_nat (0x80 + c mod 64)]
     else if is_surrogate c then None
     else if c < 0x10000 then
       Some [of_nat (0xE0 + c div 4096), of_nat (0x80 + c div 64 mod 64), of_nat (0x80 + c mod 64)]
     else if c < 0x110000 then
       Some [of_nat (0xF0 + c div 262144), of_nat (0x80 + c div 4096 mod 64),
             of_nat (0x80 + c div 64 mod 64), of_nat (0x80 + c mod 64)]
     else None)"

fun utf8_encode :: "str \<Rightarrow> bytes res" where
  "utf8_encode [] = Inr []"
| "utf8_encode (c # cs) =
    (case utf8_char c of
       None \<Rightarrow> Inl UnicodeEncodeError
     | Some b \<Rightarrow> sum_bind (utf8_encode cs) (\<lambda>bs. Inr (b @ bs)))"

definition is_cont :: "8 word \<Rightarrow> bool" where
  "is_cont b \<longleftrightarrow> 0x80 \<le> unat b \<and> unat b < 0xC0"

definition cont_bits :: "8 word \<Rightarrow> nat" where
  "cont_bits b = unat b - 0x80"

text \<open>The first character of a byte string and the bytes after it.\<close>

definition utf8_next :: "bytes \<Rightarrow> (nat \<times> bytes) option" where
  "utf8_next bs = (case bs of [] \<Rightarrow> None | b # r \<Rightarrow>
     let n = unat b in
     if n < 0x80 then Some (n, r)
     else if n < 0xC2 then None
     else if n < 0xE0 then
       (case r of c1 # r' \<Rightarrow>
          if is_cont c1 then Some ((n - 0xC0) * 64 + cont_bits c1, r') else None
        | _ \<Rightarrow> None)
     else if n < 0xF0 then
       (case r of c1 # c2 # r' \<Rightarrow>
          let v = (n - 0xE0) * 4096 + cont_bits c1 * 64 + cont_bits c2 in
          if is_cont c1 \<and> is_cont c2 \<and> 0x800 \<le> v \<and> \<not> is_surrogate v then Some (v, r') else None
        | _ \<Rightarrow> None)
     else if n < 0xF5 then
       (case r of c1 # c2 # c3 # r' \<Rightarrow>
          let v = (n - 0xF0) * 262144 + cont_bits c1 * 4096 + cont_bits c2 * 64 + cont_bits c3 in
          if is_cont c1 \<and> is_cont c2 \<and> is_cont c3 \<and> 0x10000 \<le> v \<and> v < 0x110000
          then Some (v, r') else None
        | _ \<Rightarrow> None)
     else None)"

lemma utf8_next_shorter: "utf8_next bs = Some (c, r) \<Longrightarrow> length r < length bs"
  by (auto simp: utf8_next_def Let_def split: list.splits if_splits)

function utf8_decode :: "bytes \<Rightarrow> str res" where
  "utf8_decode bs =
    (if bs = [] then Inr []
     else case utf8_next bs of
       None \<Rightarrow> Inl UnicodeDecodeError
     | Some (c, r) \<Rightarrow> sum_bind (utf8_decode r) (\<lambda>cs. Inr (c # cs)))"
  by pat_completeness auto
termination
  by (relation "measure length") (auto dest: utf8_next_shorter)

declare utf8_decode.simps [simp del]

lemma utf8_decode_Nil [simp]: "utf8_decode [] = Inr []"
  by (subst utf8_decode.simps) simp

section \<open>Encoding then decoding\<close>

lemma unat_byte: "n < 256 \<Longrightarrow> unat (of_nat n :: 8 word) = n"
  by (simp add: unat_of_nat take_bit_nat_eq_self)

lemma is_cont_of_nat: "n < 64 \<Longrightarrow> is_cont (of_nat (0x80 + n))"
  by (simp add: is_cont_def unat_byte del: of_nat_add)

lemma cont_bits_of_nat: "n < 64 \<Longrightarrow> cont_bits (of_nat (0x80 + n)) = n"
  by (simp add: cont_bits_def unat_byte del: of_nat_add)

lemma base64_2: "(c :: nat) div 64 * 64 + c mod 64 = c"
  by simp

lemma base64_3: "(c :: nat) div 4096 * 4096 + c div 64 mod 64 * 64 + c mod 64 = c"
proof -
  have "c div 4096 = c div 64 div 64" by (simp add: div_mult2_eq [symmetric])
  moreover have "c div 64 div 64 * 64 + c div 64 mod 64 = c div 64" by simp
  ultimately have "(c div 4096 * 64 + c div 64 mod 64) * 64 + c mod 64 = c" by simp
  then show ?thesis by (simp add: algebra_simps)
qed

lemma base64_4:
  "(c :: nat) div 262144 * 262144 + c div 4096 mod 64 * 4096 + c div 64 mod 64 * 64 + c mod 64 = c"
proof -
  have "c div 262144 = c div 64 div 4096" "c div 4096 = c div 64 div 64"
    by (simp_all add: div_mult2_eq [symmetric])
  then have "(c div 262144 * 4096 + c div 4096 mod 64 * 64 + c div 64 mod 64) * 64 + c mod 64 = c"
    using base64_3 [of "c div 64"] by simp
  then show ?thesis by (simp add: algebra_simps)
qed

lemma utf8_next_char:
  assumes "utf8_char c = Some b"
  shows "utf8_next (b @ rest) = Some (c, rest)"
proof -
  note byte_simps = unat_byte is_cont_of_nat cont_bits_of_nat Let_def
  consider "c < 0x80" | "0x80 \<le> c" "c < 0x800" | "0x800 \<le> c" "c < 0x10000" "\<not> is_surrogate c"
    | "0x10000 \<le> c" "c < 0x110000"
    using assms by (fastforce simp: utf8_char_def is_surrogate_def split: if_splits)
  then show ?thesis
  proof cases
    case 1
    then show ?thesis using assms by (auto simp: utf8_char_def utf8_next_def byte_simps)
  next
    case 2
    then have "c div 64 < 32" "2 \<le> c div 64" by auto
    then show ?thesis using assms 2
      by (auto simp: utf8_char_def utf8_next_def byte_simps simp del: of_nat_add)
  next
    case 3
    then have "c div 4096 < 16" by auto
    then show ?thesis using assms 3
      by (auto simp: utf8_char_def utf8_next_def byte_simps base64_3 simp del: of_nat_add)
  next
    case 4
    then have "c div 262144 < 5" "\<not> is_surrogate c" by (auto simp: is_surrogate_def)
    then show ?thesis using assms 4
      by (auto simp: utf8_char_def utf8_next_def byte_simps base64_4 simp del: of_nat_add)
  qed
qed

lemma utf8_char_ne: "utf8_char c = Some b \<Longrightarrow> b \<noteq> []"
  by (auto simp: utf8_char_def split: if_splits)

theorem utf8_roundtrip: "utf8_encode s = Inr b \<Longrightarrow> utf8_decode b = Inr s"
proof (induction s arbitrary: b)
  case Nil
  then show ?case by simp
next
  case (Cons c s)
  then obtain bc bs where *: "utf8_char c = Some bc" "utf8_encode s = Inr bs" "b = bc @ bs"
    by (auto split: option.splits)
  then have "utf8_decode bs = Inr s" using Cons.IH by blast
  with * show ?case
    by (subst utf8_decode.simps) (auto simp: utf8_next_char dest: utf8_char_ne)
qed

text \<open>Text without surrogates encodes.\<close>

definition encodable :: "str \<Rightarrow> bool" where
  "encodable s \<longleftrightarrow> list_all (\<lambda>c. c < 0x110000 \<and> \<not> is_surrogate c) s"

lemma encodable_simps [simp]:
  "encodable []"
  "encodable (c # s) \<longleftrightarrow> c < 0x110000 \<and> \<not> is_surrogate c \<and> encodable s"
  "encodable (s @ t) \<longleftrightarrow> encodable s \<and> encodable t"
  by (auto simp: encodable_def)

lemma encodable_iff: "encodable s \<longleftrightarrow> (\<exists>b. utf8_encode s = Inr b)"
proof (induction s)
  case Nil
  then show ?case by simp
next
  case (Cons c s)
  have "c < 0x110000 \<and> \<not> is_surrogate c \<longleftrightarrow> (\<exists>b. utf8_char c = Some b)"
    by (auto simp: utf8_char_def is_surrogate_def)
  with Cons show ?case by (auto split: option.splits)
qed

lemma encodable_ascii: "list_all (\<lambda>c. c < 128) s \<Longrightarrow> encodable s"
  by (induction s) (auto simp: is_surrogate_def)

end
