(* ===== verification/PyDatetime.thy ===== *)
theory PyDatetime
  imports Utf8 "HOL-Library.Monad_Syntax"
begin

text \<open>
  \<open>datetime\<close> values: the calendar fields and the time zone, of which the source only
  asks whether it is the \<open>UTC\<close> singleton. Values are compared by their fields, which is
  Python's order between two datetimes of one zone; the source compares instants only after
  it has checked both zones. \<open>strftime\<close> and \<open>strptime\<close> are modelled for the one format
  the source uses, \<open>%Y-%m-%dT%H:%M:%S.%fZ\<close>. The regular expression behind \<open>strptime\<close> also
  accepts short fields, a blank before a one-digit day, lower-case literals and non-ASCII
  decimal digits; the model accepts all of these but the last, which the source's
  re-rendering check refuses with the same exception. \<open>%Y\<close> is rendered with four digits; an
  interpreter that leaves this to glibc, as older patch releases of 3.12 do, writes the years
  before 1000 with fewer, and its own \<open>strptime\<close> then refuses them.
\<close>

datatype tzinfo = UTC | NoTz | OtherTz

record datetime =
  dt_year :: nat
  dt_month :: nat
  dt_day :: nat
  dt_hour :: nat
  dt_minute :: nat
  dt_second :: nat
  dt_micro :: nat
  dt_tz :: tzinfo

definition is_leap :: "nat \<Rightarrow> bool" where
  "is_leap y \<longleftrightarrow> y mod 4 = 0 \<and> (y mod 100 \<noteq> 0 \<or> y mod 400 = 0)"

definition days_in_month :: "nat \<Rightarrow> nat \<Rightarrow> nat" where
  "days_in_month y m =
    (if m = 2 then (if is_leap y then 29 else 28)
     else if m = 4 \<or> m = 6 \<or> m = 9 \<or> m = 11 then 30 else 31)"

text \<open>The range checks of the \<open>datetime\<close> constructor.\<close>

definition valid_datetime :: "datetime \<Rightarrow> bool" where
  "valid_datetime d \<longleftrightarrow>
     1 \<le> dt_year d \<and> dt_year d \<le> 9999 \<and> 1 \<le> dt_month d \<and> dt_month d \<le> 12 \<and>
     1 \<le> dt_day d \<and> dt_day d \<le> days_in_month (dt_year d) (dt_month d) \<and>
     dt_hour d < 24 \<and> dt_minute d < 60 \<and> dt_second d < 60 \<and> dt_micro d < 1000000"

section \<open>Order\<close>

definition dt_fields :: "datetime \<Rightarrow> nat list" where
  "dt_fields d = [dt_year d, dt_month d, dt_day d, dt_hour d, dt_minute d, dt_second d, dt_micro d]"

definition dt_less :: "datetime \<Rightarrow> datetime \<Rightarrow> bool" where
  "dt_less a b \<longleftrightarrow> dt_fields a < dt_fields b"

definition dt_le :: "datetime \<Rightarrow> datetime \<Rightarrow> bool" where
  "dt_le a b \<longleftrightarrow> dt_fields a \<le> dt_fields b"

lemma dt_less_iff [simp]: "dt_less a b \<longleftrightarrow> \<not> dt_le b a"
  by (simp add: dt_less_def dt_le_def not_le)

lemma dt_le_refl [simp]: "dt_le a a"
  by (simp add: dt_le_def)

lemma dt_le_trans: "dt_le a b \<Longrightarrow> dt_le b c \<Longrightarrow> dt_le a c"
  by (auto simp: dt_le_def intro: order_trans)

lemma dt_le_antisym: "dt_le a b \<Longrightarrow> dt_le b a \<Longrightarrow> dt_tz a = dt_tz b \<Longrightarrow> a = b"
proof -
  assume "dt_le a b" "dt_le b a"
  then have "dt_fields a = dt_fields b" by (auto simp: dt_le_def intro: order.antisym)
  moreover assume "dt_tz a = dt_tz b"
  ultimately show "a = b" by (simp add: dt_fields_def)
qed

section \<open>Rendering\<close>

text \<open>\<open>-\<close> is 45, \<open>T\<close> is 84, \<open>:\<close> is 58, \<open>.\<close> is 46 and \<open>Z\<close> is 90.\<close>

definition strftime :: "datetime \<Rightarrow> str" where
  "strftime d = zpad 4 (dt_year d) @ 45 # zpad 2 (dt_month d) @ 45 # zpad 2 (dt_day d) @ 84 #
     zpad 2 (dt_hour d) @ 58 # zpad 2 (dt_minute d) @ 58 # zpad 2 (dt_second d) @ 46 #
     zpad 6 (dt_micro d) @ [90]"

section \<open>Parsing\<close>

text \<open>One numeric directive: a run of at most \<open>w\<close> digits whose value lies in range.\<close>

definition strptime_field :: "nat \<Rightarrow> nat \<Rightarrow> nat \<Rightarrow> str \<Rightarrow> (nat \<times> str) option" where
  "strptime_field w lo hi s =
    (let ds = takeWhile is_digit s; v = digits_value ds in
     if ds \<noteq> [] \<and> length ds \<le> w \<and> lo \<le> v \<and> v \<le> hi then Some (v, dropWhile is_digit s) else None)"

definition strptime_year :: "str \<Rightarrow> (nat \<times> str) option" where
  "strptime_year s =
    (if length (takeWhile is_digit s) = 4
     then Some (digits_value (takeWhile is_digit s), dropWhile is_digit s) else None)"

definition strptime_day :: "str \<Rightarrow> (nat \<times> str) option" where
  "strptime_day s =
    (case s of c # d # r \<Rightarrow>
       if c = 32 \<and> 49 \<le> d \<and> d \<le> 57 then Some (d - 48, r) else strptime_field 2 1 31 s
     | _ \<Rightarrow> strptime_field 2 1 31 s)"

definition strptime_micro :: "str \<Rightarrow> (nat \<times> str) option" where
  "strptime_micro s =
    (let ds = takeWhile is_digit s in
     if ds \<noteq> [] \<and> length ds \<le> 6
     then Some (digits_value ds * 10 ^ (6 - length ds), dropWhile is_digit s) else None)"

text \<open>A literal, compared without case.\<close>

definition strptime_literal :: "nat \<Rightarrow> str \<Rightarrow> str option" where
  "strptime_literal c s =
    (case s of [] \<Rightarrow> None
     | x # r \<Rightarrow> if x = c \<or> (is_upper c \<and> x = c + 32) then Some r else None)"

definition strptime :: "str \<Rightarrow> datetime option" where
  "strptime s = do {
     (y, s) \<leftarrow> strptime_year s; s \<leftarrow> strptime_literal 45 s;
     (mo, s) \<leftarrow> strptime_field 2 1 12 s; s \<leftarrow> strptime_literal 45 s;
     (d, s) \<leftarrow> strptime_day s; s \<leftarrow> strptime_literal 84 s;
     (h, s) \<leftarrow> strptime_field 2 0 23 s; s \<leftarrow> strptime_literal 58 s;
     (mi, s) \<leftarrow> strptime_field 2 0 59 s; s \<leftarrow> strptime_literal 58 s;
     (se, s) \<leftarrow> strptime_field 2 0 61 s; s \<leftarrow> strptime_literal 46 s;
     (us, s) \<leftarrow> strptime_micro s; s \<leftarrow> strptime_literal 90 s;
     let dt = \<lparr>dt_year = y, dt_month = mo, dt_day = d, dt_hour = h, dt_minute = mi,
               dt_second = se, dt_micro = us, dt_tz = NoTz\<rparr>;
     if s = [] \<and> valid_datetime dt then Some dt else None }"

section \<open>Parsing what was rendered\<close>

lemma takeWhile_zpad [simp]:
  "\<not> is_digit c \<Longrightarrow> takeWhile is_digit (zpad w n @ c # r) = zpad w n"
  using zpad_all [of w n] by (simp add: takeWhile_append2 list_all_iff)

lemma dropWhile_zpad [simp]:
  "\<not> is_digit c \<Longrightarrow> dropWhile is_digit (zpad w n @ c # r) = c # r"
  using zpad_all [of w n] by (simp add: dropWhile_append2 list_all_iff)

lemma zpad_ne [simp]: "zpad w n \<noteq> []"
  by (simp add: zpad_def)

lemma strptime_field_zpad:
  assumes "\<not> is_digit c" and "0 < w" and "n < 10 ^ w" and "lo \<le> n" and "n \<le> hi"
  shows "strptime_field w lo hi (zpad w n @ c # r) = Some (n, c # r)"
  using assms by (simp add: strptime_field_def length_zpad)

lemma strptime_year_zpad:
  assumes "\<not> is_digit c" and "n < 10000"
  shows "strptime_year (zpad 4 n @ c # r) = Some (n, c # r)"
  using assms length_zpad [of 4 n] by (simp add: strptime_year_def)

lemma strptime_micro_zpad:
  assumes "\<not> is_digit c" and "n < 1000000"
  shows "strptime_micro (zpad 6 n @ c # r) = Some (n, c # r)"
  using assms length_zpad [of 6 n] by (simp add: strptime_micro_def)

lemma strptime_day_zpad:
  assumes "\<not> is_digit c" and "1 \<le> n" and "n \<le> 31"
  shows "strptime_day (zpad 2 n @ c # r) = Some (n, c # r)"
proof -
  obtain a b where ab: "zpad 2 n = [a, b]"
    using length_zpad [of 2 n] assms by (auto simp: length_Suc_conv numeral_2_eq_2)
  then have "is_digit a"
    using zpad_all [of 2 n] by simp
  then have "a \<noteq> 32" by (auto simp: is_digit_def)
  then have "strptime_day (zpad 2 n @ c # r) = strptime_field 2 1 31 (zpad 2 n @ c # r)"
    by (simp add: ab strptime_day_def)
  with assms show ?thesis by (simp add: strptime_field_zpad)
qed

lemma strptime_literal_same [simp]: "strptime_literal c (c # r) = Some r"
  by (simp add: strptime_literal_def)

lemma days_in_month_le: "days_in_month y m \<le> 31"
  by (simp add: days_in_month_def)

lemma strptime_strftime:
  assumes "valid_datetime d"
  shows "strptime (strftime d) = Some (d\<lparr>dt_tz := NoTz\<rparr>)"
proof -
  have "dt_day d \<le> 31"
    using assms days_in_month_le [of "dt_year d" "dt_month d"] by (simp add: valid_datetime_def)
  moreover have "\<not> is_digit 45" "\<not> is_digit 84" "\<not> is_digit 58" "\<not> is_digit 46" "\<not> is_digit 90"
    by (simp_all add: is_digit_def)
  ultimately show ?thesis
    using assms
    by (simp add: valid_datetime_def strptime_def strftime_def strptime_year_zpad strptime_micro_zpad
        strptime_field_zpad strptime_day_zpad)
qed

lemma strptime_valid: "strptime s = Some d \<Longrightarrow> valid_datetime d \<and> dt_tz d = NoTz"
  by (auto simp: strptime_def Let_def bind_eq_Some_conv split: if_splits)

lemma strftime_ascii: "list_all (\<lambda>c. c < 128) (strftime d)"
proof -
  have "list_all (\<lambda>c. c < 128) (zpad w n)" for w n
    using zpad_all [of w n] by (auto simp: list_all_iff is_digit_def)
  then show ?thesis by (simp add: strftime_def)
qed

end
