(* ===== verification/PyJson.thy ===== *)
theory PyJson
  imports PyDatetime
begin

text \<open>
  The \<open>json\<close> module as the source calls it: \<open>dumps\<close> with
  \<open>ensure_ascii=False, allow_nan=False, sort_keys=True\<close> and compact separators, and
  \<open>loads\<close> with an \<open>object_pairs_hook\<close> and a \<open>parse_constant\<close> hook. A \<open>dict\<close> is
  its list of items in insertion order. A float is represented by the text
  \<open>float.__repr__\<close> gives it, \<open>None\<close> for one that is not finite; the conversion of a
  lexeme to that text is the field \<open>parse_float\<close> of the reader. Conversions between text
  and integers are limited to 4300 digits, the interpreter's default. The decoder runs on
  fuel, two units per character are enough (\<open>json_loads_no_fuel\<close>).

  The accelerated decoder and encoder raise \<open>RecursionError\<close> when containers nest too deep.
  Where that happens is a matter of the interpreter and its platform (a fixed limit or the C
  stack, hundreds of levels at least): \<open>interpreter\<close> is what the program depends on of it,
  with the levels it admits beyond \<open>guaranteed_levels\<close>, a number far below every limit in use. A
  limit is taken to be the same for every call.
\<close>

record interpreter =
  float_text :: "str \<Rightarrow> str option"
  spare_decoder_levels :: nat
  spare_encoder_levels :: nat

definition guaranteed_levels :: nat where
  "guaranteed_levels = 16"

definition decoder_levels :: "interpreter \<Rightarrow> nat" where
  "decoder_levels py = guaranteed_levels + spare_decoder_levels py"

definition encoder_levels :: "interpreter \<Rightarrow> nat" where
  "encoder_levels py = guaranteed_levels + spare_encoder_levels py"

datatype json =
    JNull
  | JBool bool
  | JInt int
  | JFloat "str option"
  | JStr str
  | JArr "json list"
  | JObj "(str \<times> json) list"

section \<open>dumps\<close>

definition hex_digit :: "nat \<Rightarrow> nat" where
  "hex_digit n = (if n < 10 then 48 + n else 87 + n)"

text \<open>\<open>ESCAPE\<close> and \<open>ESCAPE_DCT\<close>: backslash is 92, the quote 34, \<open>u\<close> 117.\<close>

definition esc_char :: "nat \<Rightarrow> str" where
  "esc_char c =
    (if c = 34 then [92, 34]
     else if c = 92 then [92, 92]
     else if c = 8 then [92, 98]
     else if c = 9 then [92, 116]
     else if c = 10 then [92, 110]
     else if c = 12 then [92, 102]
     else if c = 13 then [92, 114]
     else if c < 32 then [92, 117, 48, 48, hex_digit (c div 16), hex_digit (c mod 16)]
     else [c])"

definition json_str :: "str \<Rightarrow> str" where
  "json_str s = 34 # concat (map esc_char s) @ [34]"

fun join_comma :: "str list \<Rightarrow> str" where
  "join_comma [] = []"
| "join_comma [x] = x"
| "join_comma (x # y # zs) = x @ 44 # join_comma (y # zs)"

definition member_text :: "str \<times> str \<Rightarrow> str" where
  "member_text kv = json_str (fst kv) @ 58 # snd kv"

fun json_text :: "json \<Rightarrow> str" where
  "json_text JNull = lit ''null''"
| "json_text (JBool b) = (if b then lit ''true'' else lit ''false'')"
| "json_text (JInt i) = int_repr i"
| "json_text (JFloat r) = (case r of Some t \<Rightarrow> t | None \<Rightarrow> [])"
| "json_text (JStr s) = json_str s"
| "json_text (JArr js) = 91 # join_comma (map json_text js) @ [93]"
| "json_text (JObj kvs) =
     123 # join_comma (map member_text (sort_key fst (map (\<lambda>kv. (fst kv, json_text (snd kv))) kvs))) @ [125]"

definition max_str_digits :: nat where
  "max_str_digits = 4300"

definition int_ok :: "int \<Rightarrow> bool" where
  "int_ok i \<longleftrightarrow> length (dec_digits (nat \<bar>i\<bar>)) \<le> max_str_digits"

fun dumpable :: "json \<Rightarrow> bool" where
  "dumpable (JInt i) = int_ok i"
| "dumpable (JFloat r) = (r \<noteq> None)"
| "dumpable (JArr js) = list_all dumpable js"
| "dumpable (JObj kvs) = list_all (\<lambda>kv. dumpable (snd kv)) kvs"
| "dumpable _ = True"

text \<open>On values that nest no deeper than the guaranteed levels.\<close>

definition json_dumps :: "json \<Rightarrow> str res" where
  "json_dumps j = (if dumpable j then Inr (json_text j) else Inl ValueError)"

text \<open>
  On any value: what the encoder meets first, a container that opens with no level left or a
  number it refuses, in the order in which it writes.
\<close>

fun first_error :: "exn option list \<Rightarrow> exn option" where
  "first_error [] = None"
| "first_error (x # xs) = (case x of None \<Rightarrow> first_error xs | Some e \<Rightarrow> Some e)"

fun encode_error :: "nat \<Rightarrow> json \<Rightarrow> exn option" where
  "encode_error d (JInt i) = (if int_ok i then None else Some ValueError)"
| "encode_error d (JFloat r) = (if r = None then Some ValueError else None)"
| "encode_error d (JArr js) =
     (if d = 0 then Some RecursionError else first_error (map (encode_error (d - 1)) js))"
| "encode_error d (JObj kvs) =
     (if d = 0 then Some RecursionError
      else first_error (map snd (sort_key fst (map (\<lambda>kv. (fst kv, encode_error (d - 1) (snd kv))) kvs))))"
| "encode_error d _ = None"

definition json_dumps_within :: "nat \<Rightarrow> json \<Rightarrow> str res" where
  "json_dumps_within d j = (case encode_error d j of Some e \<Rightarrow> Inl e | None \<Rightarrow> Inr (json_text j))"

section \<open>loads\<close>

record json_reader =
  parse_float :: "str \<Rightarrow> str option"
  object_pairs_hook :: "(str \<times> json) list \<Rightarrow> json res"
  parse_constant :: "str \<Rightarrow> json res"
  spare_levels :: nat

definition reader_levels :: "json_reader \<Rightarrow> nat" where
  "reader_levels rd = guaranteed_levels + spare_levels rd"

definition is_ws :: "nat \<Rightarrow> bool" where
  "is_ws c \<longleftrightarrow> c = 32 \<or> c = 9 \<or> c = 10 \<or> c = 13"

definition skip_ws :: "str \<Rightarrow> str" where
  "skip_ws s = dropWhile is_ws s"

definition hex_value :: "nat \<Rightarrow> nat option" where
  "hex_value c =
    (if is_digit c then Some (c - 48)
     else if 97 \<le> c \<and> c \<le> 102 then Some (c - 87)
     else if 65 \<le> c \<and> c \<le> 70 then Some (c - 55)
     else None)"

definition hex4 :: "str \<Rightarrow> (nat \<times> str) option" where
  "hex4 s = (case s of a # b # c # d # r \<Rightarrow>
      do { a \<leftarrow> hex_value a; b \<leftarrow> hex_value b; c \<leftarrow> hex_value c; d \<leftarrow> hex_value d;
           Some (4096 * a + 256 * b + 16 * c + d, r) }
    | _ \<Rightarrow> None)"

text \<open>A \<open>\uXXXX\<close> escape after its \<open>u\<close>, joined with a low surrogate escape that follows it.\<close>

definition unicode_escape :: "str \<Rightarrow> (nat \<times> str) option" where
  "unicode_escape s = (case hex4 s of None \<Rightarrow> None | Some (u, r) \<Rightarrow>
     if 0xD800 \<le> u \<and> u \<le> 0xDBFF \<and> take 2 r = [92, 117] then
       (case hex4 (drop 2 r) of None \<Rightarrow> None | Some (u2, r2) \<Rightarrow>
          if 0xDC00 \<le> u2 \<and> u2 \<le> 0xDFFF
          then Some (0x10000 + (u - 0xD800) * 1024 + (u2 - 0xDC00), r2)
          else Some (u, r))
     else Some (u, r))"

definition simple_escape :: "nat \<Rightarrow> nat option" where
  "simple_escape e =
    (if e = 34 then Some 34 else if e = 92 then Some 92 else if e = 47 then Some 47
     else if e = 98 then Some 8 else if e = 102 then Some 12 else if e = 110 then Some 10
     else if e = 114 then Some 13 else if e = 116 then Some 9 else None)"

text \<open>One character of a string after its opening quote: \<open>None\<close> at the closing quote.\<close>

definition next_char :: "str \<Rightarrow> (nat option \<times> str) option" where
  "next_char s = (case s of [] \<Rightarrow> None | c # r \<Rightarrow>
     if c = 34 then Some (None, r)
     else if c = 92 then
       (case r of [] \<Rightarrow> None | e # r1 \<Rightarrow>
          if e = 117 then map_option (\<lambda>(u, r2). (Some u, r2)) (unicode_escape r1)
          else map_option (\<lambda>ch. (Some ch, r1)) (simple_escape e))
     else if c < 32 then None
     else Some (Some c, r))"

lemma hex4_shorter: "hex4 s = Some (u, r) \<Longrightarrow> length r < length s"
  by (auto simp: hex4_def bind_eq_Some_conv split: list.splits)

lemma unicode_escape_shorter: "unicode_escape s = Some (u, r) \<Longrightarrow> length r < length s"
  by (fastforce simp: unicode_escape_def split: option.splits if_splits dest: hex4_shorter)

lemma next_char_shorter: "next_char s = Some (c, r) \<Longrightarrow> length r < length s"
  by (fastforce simp: next_char_def split: list.splits if_splits dest: unicode_escape_shorter)

function p_string :: "str \<Rightarrow> (str \<times> str) res" where
  "p_string s =
    (case next_char s of
       None \<Rightarrow> Inl JSONDecodeError
     | Some (None, r) \<Rightarrow> Inr ([], r)
     | Some (Some c, r) \<Rightarrow> sum_bind (p_string r) (\<lambda>(t, r'). Inr (c # t, r')))"
  by pat_completeness auto
termination
  by (relation "measure length") (auto dest: next_char_shorter)

declare p_string.simps [simp del]

text \<open>
  \<open>NUMBER_RE\<close>: \<open>(-?(?:0|[1-9][0-9]*))(\.[0-9]+)?([eE][-+]?[0-9]+)?\<close>; \<open>None\<close> where
  the integer part does not match.
\<close>

definition number_int :: "str \<Rightarrow> (str \<times> str) option" where
  "number_int s = (case s of [] \<Rightarrow> None | c # r \<Rightarrow>
     if c = 48 then Some ([48], r)
     else if is_digit c then Some (takeWhile is_digit s, dropWhile is_digit s)
     else None)"

definition number_frac :: "str \<Rightarrow> str \<times> str" where
  "number_frac s = (case s of [] \<Rightarrow> ([], s) | c # r \<Rightarrow>
     if c = 46 \<and> takeWhile is_digit r \<noteq> [] then (46 # takeWhile is_digit r, dropWhile is_digit r)
     else ([], s))"

definition number_exp :: "str \<Rightarrow> str \<times> str" where
  "number_exp s = (case s of [] \<Rightarrow> ([], s) | c # r \<Rightarrow>
     if c = 101 \<or> c = 69 then
       (let sg = (case r of d # _ \<Rightarrow> if d = 43 \<or> d = 45 then [d] else [] | [] \<Rightarrow> []);
            r' = drop (length sg) r
        in if takeWhile is_digit r' \<noteq> [] then (c # sg @ takeWhile is_digit r', dropWhile is_digit r')
           else ([], s))
     else ([], s))"

definition p_number :: "json_reader \<Rightarrow> str \<Rightarrow> (json \<times> str) res" where
  "p_number rd s =
    (let sg = (case s of c # _ \<Rightarrow> if c = 45 then [45] else [] | [] \<Rightarrow> []);
         s1 = drop (length sg) s
     in case number_int s1 of
          None \<Rightarrow>
            if sg = [45] \<and> take 8 s1 = lit ''Infinity''
            then sum_bind (parse_constant rd (45 # lit ''Infinity'')) (\<lambda>j. Inr (j, drop 8 s1))
            else Inl JSONDecodeError
        | Some (ds, r1) \<Rightarrow>
            let (fr, r2) = number_frac r1; (ex, r3) = number_exp r2
            in if fr = [] \<and> ex = [] then
                 (if max_str_digits < length ds then Inl ValueError
                  else Inr (JInt (if sg = [] then int (digits_value ds) else - int (digits_value ds)), r3))
               else Inr (JFloat (parse_float rd (sg @ ds @ fr @ ex)), r3))"

text \<open>The values that are fixed words.\<close>

definition p_word :: "json_reader \<Rightarrow> str \<Rightarrow> (json \<times> str) res" where
  "p_word rd s =
    (if take 4 s = lit ''null'' then Inr (JNull, drop 4 s)
     else if take 4 s = lit ''true'' then Inr (JBool True, drop 4 s)
     else if take 5 s = lit ''false'' then Inr (JBool False, drop 5 s)
     else if take 3 s = lit ''NaN'' then
       sum_bind (parse_constant rd (lit ''NaN'')) (\<lambda>j. Inr (j, drop 3 s))
     else if take 8 s = lit ''Infinity'' then
       sum_bind (parse_constant rd (lit ''Infinity'')) (\<lambda>j. Inr (j, drop 8 s))
     else p_number rd s)"

text \<open>
  After an item of a container: its closing character (\<open>True\<close>) or a comma, with the
  blanks after it; and the colon of an object member.
\<close>

definition separator :: "nat \<Rightarrow> str \<Rightarrow> (bool \<times> str) res" where
  "separator closing s = (case skip_ws s of [] \<Rightarrow> Inl JSONDecodeError | d # r \<Rightarrow>
     if d = closing then Inr (True, r)
     else if d = 44 then Inr (False, skip_ws r)
     else Inl JSONDecodeError)"

definition colon :: "str \<Rightarrow> str res" where
  "colon s = (case skip_ws s of [] \<Rightarrow> Inl JSONDecodeError | d # r \<Rightarrow>
     if d = 58 then Inr (skip_ws r) else Inl JSONDecodeError)"

text \<open>An object key.\<close>

definition p_key :: "str \<Rightarrow> (str \<times> str) res" where
  "p_key s = (case s of [] \<Rightarrow> Inl JSONDecodeError | c # r \<Rightarrow>
     if c = 34 then p_string r else Inl JSONDecodeError)"

text \<open>
  \<open>scan_once\<close>, \<open>JSONArray\<close> after its bracket and \<open>JSONObject\<close> after its brace, the
  last two at a character that does not close an empty container. The second argument is the
  number of containers that may still be entered.
\<close>

fun p_value :: "json_reader \<Rightarrow> nat \<Rightarrow> nat \<Rightarrow> str \<Rightarrow> (json \<times> str) res"
and p_elems :: "json_reader \<Rightarrow> nat \<Rightarrow> nat \<Rightarrow> str \<Rightarrow> (json list \<times> str) res"
and p_members :: "json_reader \<Rightarrow> nat \<Rightarrow> nat \<Rightarrow> str \<Rightarrow> ((str \<times> json) list \<times> str) res" where
  "p_value rd d 0 s = Inl FuelExhausted"
| "p_value rd d (Suc n) s = (case s of [] \<Rightarrow> Inl JSONDecodeError | c # r \<Rightarrow>
     if c = 34 then sum_bind (p_string r) (\<lambda>(t, r'). Inr (JStr t, r'))
     else if c = 123 then
       (if d = 0 then Inl RecursionError
        else if take 1 (skip_ws r) = [125]
        then sum_bind (object_pairs_hook rd []) (\<lambda>j. Inr (j, drop 1 (skip_ws r)))
        else sum_bind (p_members rd (d - 1) n (skip_ws r))
               (\<lambda>(kvs, r2). sum_bind (object_pairs_hook rd kvs) (\<lambda>j. Inr (j, r2))))
     else if c = 91 then
       (if d = 0 then Inl RecursionError
        else if take 1 (skip_ws r) = [93] then Inr (JArr [], drop 1 (skip_ws r))
        else sum_bind (p_elems rd (d - 1) n (skip_ws r)) (\<lambda>(js, r2). Inr (JArr js, r2)))
     else p_word rd s)"
| "p_elems rd d 0 s = Inl FuelExhausted"
| "p_elems rd d (Suc n) s =
     sum_bind (p_value rd d n s) (\<lambda>(v, r1).
     sum_bind (separator 93 r1) (\<lambda>(closed, r2).
       if closed then Inr ([v], r2)
       else sum_bind (p_elems rd d n r2) (\<lambda>(vs, r3). Inr (v # vs, r3))))"
| "p_members rd d 0 s = Inl FuelExhausted"
| "p_members rd d (Suc n) s =
     sum_bind (p_key s) (\<lambda>(k, r1).
     sum_bind (colon r1) (\<lambda>r2.
     sum_bind (p_value rd d n r2) (\<lambda>(v, r3).
     sum_bind (separator 125 r3) (\<lambda>(closed, r4).
       if closed then Inr ([(k, v)], r4)
       else sum_bind (p_members rd d n r4) (\<lambda>(kvs, r5). Inr ((k, v) # kvs, r5))))))"

definition json_loads :: "json_reader \<Rightarrow> str \<Rightarrow> json res" where
  "json_loads rd s =
    sum_bind (p_value rd (reader_levels rd) (Suc (2 * length s)) (skip_ws s)) (\<lambda>(v, r).
      if skip_ws r = [] then Inr v else Inl JSONDecodeError)"

end
