(* ===== verification/Sha256.thy ===== *)
theory Sha256
  imports PyJson
begin

text \<open>
  \<open>hashlib.sha256(data).hexdigest()\<close>, from FIPS 180-4: 32-bit words whose addition wraps,
  64-byte blocks, the digest as 64 lower-case hexadecimal characters (\<open>sha256_format\<close>).
\<close>

definition sha_K :: "32 word list" where
  "sha_K =
    [1116352408, 1899447441, 3049323471, 3921009573, 961987163, 1508970993, 2453635748, 2870763221,
     3624381080, 310598401, 607225278, 1426881987, 1925078388, 2162078206, 2614888103, 3248222580,
     3835390401, 4022224774, 264347078, 604807628, 770255983, 1249150122, 1555081692, 1996064986,
     2554220882, 2821834349, 2952996808, 3210313671, 3336571891, 3584528711, 113926993, 338241895,
     666307205, 773529912, 1294757372, 1396182291, 1695183700, 1986661051, 2177026350, 2456956037,
     2730485921, 2820302411, 3259730800, 3345764771, 3516065817, 3600352804, 4094571909, 275423344,
     430227734, 506948616, 659060556, 883997877, 958139571, 1322822218, 1537002063, 1747873779,
     1955562222, 2024104815, 2227730452, 2361852424, 2428436474, 2756734187, 3204031479, 3329325298]"

type_synonym sha_state = "32 word \<times> 32 word \<times> 32 word \<times> 32 word \<times> 32 word \<times> 32 word \<times> 32 word \<times> 32 word"

definition sha_initial :: sha_state where
  "sha_initial = (1779033703, 3144134277, 1013904242, 2773480762, 1359893119, 2600822924, 528734635, 1541459225)"

unbundle bit_operations_syntax

definition sha_rotr :: "nat \<Rightarrow> 32 word \<Rightarrow> 32 word" where
  "sha_rotr n w = drop_bit n w OR push_bit (32 - n) w"

definition sha_round :: "sha_state \<Rightarrow> 32 word \<times> 32 word \<Rightarrow> sha_state" where
  "sha_round s kw = (case s of (a, b, c, d, e, f, g, h) \<Rightarrow>
     let s1 = sha_rotr 6 e XOR sha_rotr 11 e XOR sha_rotr 25 e;
         ch = (e AND f) XOR (NOT e AND g);
         t1 = h + s1 + ch + fst kw + snd kw;
         s0 = sha_rotr 2 a XOR sha_rotr 13 a XOR sha_rotr 22 a;
         maj = (a AND b) XOR (a AND c) XOR (b AND c)
     in (t1 + (s0 + maj), a, b, c, d + t1, e, f, g))"

definition sha_next_word :: "32 word list \<Rightarrow> 32 word" where
  "sha_next_word ws =
    (let n = length ws; w15 = ws ! (n - 15); w2 = ws ! (n - 2) in
     ws ! (n - 16) + (sha_rotr 7 w15 XOR sha_rotr 18 w15 XOR drop_bit 3 w15) +
     ws ! (n - 7) + (sha_rotr 17 w2 XOR sha_rotr 19 w2 XOR drop_bit 10 w2))"

fun sha_extend :: "nat \<Rightarrow> 32 word list \<Rightarrow> 32 word list" where
  "sha_extend 0 ws = ws"
| "sha_extend (Suc n) ws = sha_extend n (ws @ [sha_next_word ws])"

text \<open>Big-endian words of four bytes.\<close>

fun sha_words :: "bytes \<Rightarrow> 32 word list" where
  "sha_words (a # b # c # d # r) =
     (push_bit 24 (ucast a) + push_bit 16 (ucast b) + push_bit 8 (ucast c) + ucast d) # sha_words r"
| "sha_words _ = []"

definition sha_add :: "sha_state \<Rightarrow> sha_state \<Rightarrow> sha_state" where
  "sha_add s t = (case s of (a, b, c, d, e, f, g, h) \<Rightarrow> case t of (a', b', c', d', e', f', g', h') \<Rightarrow>
     (a + a', b + b', c + c', d + d', e + e', f + f', g + g', h + h'))"

definition sha_block :: "sha_state \<Rightarrow> bytes \<Rightarrow> sha_state" where
  "sha_block s block = sha_add s (fold (\<lambda>kw s. sha_round s kw) (zip sha_K (sha_extend 48 (sha_words block))) s)"

definition sha_length_bytes :: "nat \<Rightarrow> bytes" where
  "sha_length_bytes n = map (\<lambda>i. ucast (drop_bit (8 * (7 - i)) (8 * word_of_nat n :: 64 word))) [0..<8]"

definition sha_pad :: "bytes \<Rightarrow> bytes" where
  "sha_pad data = data @ [128] @ replicate ((119 - length data mod 64) mod 64) 0 @ sha_length_bytes (length data)"

function sha_blocks :: "sha_state \<Rightarrow> bytes \<Rightarrow> sha_state" where
  "sha_blocks s data = (if data = [] then s else sha_blocks (sha_block s (take 64 data)) (drop 64 data))"
  by auto
termination by (relation "measure (\<lambda>(s, data). length data)") simp_all

declare sha_blocks.simps [simp del]

definition word_hex :: "32 word \<Rightarrow> str" where
  "word_hex w = map (\<lambda>i. hex_digit (unat (take_bit 4 (drop_bit (4 * (7 - i)) w)))) [0..<8]"

definition sha256_hexdigest :: "bytes \<Rightarrow> str" where
  "sha256_hexdigest data = (case sha_blocks sha_initial (sha_pad data) of (a, b, c, d, e, f, g, h) \<Rightarrow>
     concat (map word_hex [a, b, c, d, e, f, g, h]))"

text \<open>\<open>hashlib.sha256(data).digest()\<close>: the eight words, most significant byte first.\<close>

definition word_bytes :: "32 word \<Rightarrow> bytes" where
  "word_bytes w = map (\<lambda>i. ucast (drop_bit (8 * (3 - i)) w)) [0..<4]"

definition sha256_digest :: "bytes \<Rightarrow> bytes" where
  "sha256_digest data = (case sha_blocks sha_initial (sha_pad data) of (a, b, c, d, e, f, g, h) \<Rightarrow>
     concat (map word_bytes [a, b, c, d, e, f, g, h]))"

lemma length_sha_pad: "length (sha_pad data) mod 64 = 0"
proof -
  define m where "m = length data mod 64"
  have "(m + (119 - m) mod 64 + 9) mod 64 = 0"
  proof (cases "m \<le> 55")
    case True
    then have "119 - m = (55 - m) + 64" by simp
    then have "(119 - m) mod 64 = 55 - m" using True by (simp only: mod_add_self2) simp
    with True show ?thesis by simp
  next
    case False
    then have "(119 - m) mod 64 = 119 - m" by simp
    moreover have "m < 64" by (simp add: m_def)
    ultimately show ?thesis by simp
  qed
  then have "(length data + (119 - m) mod 64 + 9) mod 64 = 0"
    unfolding m_def by (metis mod_add_left_eq)
  then show ?thesis by (simp add: sha_pad_def sha_length_bytes_def m_def ac_simps)
qed

lemma sha256_format: "match_hex 64 (sha256_hexdigest data)"
proof -
  have "is_lower_hex (hex_digit (unat (take_bit 4 w)))" for w :: "32 word"
  proof -
    have "unat (take_bit 4 w) < 16"
      using take_bit_nat_less_exp [of 4 "unat w"] by (simp add: unsigned_take_bit_eq)
    then show ?thesis by (auto simp: hex_digit_def is_lower_hex_def is_digit_def)
  qed
  then have "list_all is_lower_hex (word_hex w) \<and> length (word_hex w) = 8" for w
    by (simp add: word_hex_def list_all_iff)
  then show ?thesis
    by (auto simp: sha256_hexdigest_def match_hex_def split: prod.splits)
qed

end
