(* ===== verification/JsonRoundtrip.thy ===== *)
theory JsonRoundtrip
  imports PyJson
begin

text \<open>
  What \<open>loads\<close> makes of the output of \<open>dumps\<close>: the value itself with the items of every
  object in key order (\<open>json_norm\<close>), for a value without floats whose objects have
  distinct keys, whose integers are within the interpreter's digit limit (\<open>plain\<close>) and whose
  containers nest within its levels (\<open>json_within\<close>). The fuel of the decoder is never exhausted, on any input.
\<close>

section \<open>Strings\<close>

lemma hex_value_digit: "n < 16 \<Longrightarrow> hex_value (hex_digit n) = Some n"
  by (auto simp: hex_value_def hex_digit_def is_digit_def)

lemma next_char_esc: "next_char (esc_char c @ r) = Some (Some c, r)"
proof (cases "c < 32 \<and> c \<noteq> 8 \<and> c \<noteq> 9 \<and> c \<noteq> 10 \<and> c \<noteq> 12 \<and> c \<noteq> 13")
  case True
  then have esc: "esc_char c = [92, 117, 48, 48, hex_digit (c div 16), hex_digit (c mod 16)]"
    by (simp add: esc_char_def)
  have "hex_value 48 = Some 0"
    by (simp add: hex_value_def is_digit_def)
  moreover have "c div 16 < 16" using True by (intro less_mult_imp_div_less) simp
  ultimately have "hex4 (48 # 48 # hex_digit (c div 16) # hex_digit (c mod 16) # r) = Some (c, r)"
    by (simp add: hex4_def hex_value_digit)
  with True show ?thesis
    by (simp add: esc next_char_def unicode_escape_def)
next
  case False
  then show ?thesis
    by (auto simp: esc_char_def next_char_def simple_escape_def)
qed

lemma p_string_esc: "p_string (concat (map esc_char s) @ 34 # r) = Inr (s, r)"
proof (induction s)
  case Nil
  show ?case by (subst p_string.simps) (simp add: next_char_def)
next
  case (Cons c s)
  then show ?case
    by (subst p_string.simps) (simp add: next_char_esc)
qed

lemma p_string_shorter: "p_string s = Inr (t, r) \<Longrightarrow> length r < length s"
proof (induction s arbitrary: t r rule: p_string.induct)
  case (1 s)
  from "1.prems" consider (close) r0 where "next_char s = Some (None, r0)" "r = r0"
    | (char) c r0 t0 where "next_char s = Some (Some c, r0)" "p_string r0 = Inr (t0, r)"
    by (subst (asm) p_string.simps) (auto split: option.splits prod.splits)
  then show ?case
  proof cases
    case close
    then show ?thesis by (auto dest: next_char_shorter)
  next
    case char
    then have "length r < length r0" using "1.IH" by blast
    with char show ?thesis by (fastforce dest: next_char_shorter)
  qed
qed

lemma p_string_no_fuel: "p_string s \<noteq> Inl FuelExhausted"
proof (induction s rule: p_string.induct)
  case (1 s)
  then show ?case
    by (subst p_string.simps) (auto simp: sum_bind_eq_Inl split: option.splits prod.splits)
qed

section \<open>Integers\<close>

definition ends :: "str \<Rightarrow> bool" where
  "ends r \<longleftrightarrow> r = [] \<or> hd r = 44 \<or> hd r = 93 \<or> hd r = 125"

lemma ends_simps [simp]: "ends []" "ends (44 # r)" "ends (93 # r)" "ends (125 # r)"
  by (simp_all add: ends_def)

lemma ends_takeWhile_digit:
  assumes "list_all is_digit ds" and "ends r"
  shows "takeWhile is_digit (ds @ r) = ds" and "dropWhile is_digit (ds @ r) = r"
proof -
  have "r = [] \<or> \<not> is_digit (hd r)"
    using assms(2) by (auto simp: ends_def is_digit_def)
  then have "takeWhile is_digit r = []" "dropWhile is_digit r = r"
    by (cases r; simp)+
  moreover have "\<forall>d \<in> set ds. is_digit d" using assms(1) by (simp add: list_all_iff)
  ultimately show "takeWhile is_digit (ds @ r) = ds" "dropWhile is_digit (ds @ r) = r"
    by (simp_all add: takeWhile_append2 dropWhile_append2)
qed

lemma number_int_dec: "ends r \<Longrightarrow> number_int (dec_digits n @ r) = Some (dec_digits n, r)"
proof (cases "n = 0")
  case True
  then show ?thesis by (simp add: dec_digits_zero number_int_def)
next
  case False
  assume r: "ends r"
  obtain c cs where c: "dec_digits n = c # cs"
    by (cases "dec_digits n") simp_all
  then have "is_digit c" "c \<noteq> 48"
    using dec_digits_all [of n] dec_digits_hd [of n] False by simp_all
  then show ?thesis
    using ends_takeWhile_digit [OF dec_digits_all r, of n] c
    by (simp add: number_int_def)
qed

lemma number_rest_ends: "ends r \<Longrightarrow> number_frac r = ([], r)" "ends r \<Longrightarrow> number_exp r = ([], r)"
  by (auto simp: ends_def number_frac_def number_exp_def split: list.splits)

lemma p_number_int:
  assumes "int_ok i" and "ends r"
  shows "p_number rd (int_repr i @ r) = Inr (JInt i, r)"
proof (cases "i < 0")
  case True
  with assms show ?thesis
    by (simp add: p_number_def int_repr_def number_int_dec number_rest_ends int_ok_def Let_def)
next
  case False
  obtain c cs where c: "dec_digits (nat i) = c # cs"
    by (cases "dec_digits (nat i)") simp_all
  then have "c \<noteq> 45"
    using dec_digits_all [of "nat i"] by (auto simp: is_digit_def)
  with c have "(case dec_digits (nat i) @ r of c # _ \<Rightarrow> if c = 45 then [45] else [] | [] \<Rightarrow> []) = ([] :: str)"
    by simp
  then show ?thesis
    using False assms
    by (simp add: p_number_def int_repr_def number_int_dec number_rest_ends int_ok_def)
qed

lemma int_repr_hd: "\<exists>c cs. int_repr i = c # cs \<and> (c = 45 \<or> is_digit c)"
proof -
  obtain c cs where "dec_digits (nat i) = c # cs" "is_digit c"
    using dec_digits_all [of "nat i"] by (cases "dec_digits (nat i)") auto
  then show ?thesis by (cases "i < 0") (auto simp: int_repr_def)
qed

lemma p_word_int:
  assumes "int_ok i" and "ends r"
  shows "p_word rd (int_repr i @ r) = Inr (JInt i, r)"
proof -
  obtain c cs where c: "int_repr i = c # cs" "c = 45 \<or> is_digit c"
    using int_repr_hd by blast
  then have "p_word rd (int_repr i @ r) = p_number rd (int_repr i @ r)"
    by (auto simp: p_word_def is_digit_def)
  then show ?thesis using p_number_int [OF assms] by simp
qed

section \<open>Fuel\<close>

lemma p_number_no_fuel:
  assumes "\<And>t. parse_constant rd t \<noteq> Inl FuelExhausted"
  shows "p_number rd s \<noteq> Inl FuelExhausted"
  using assms by (auto simp: p_number_def Let_def sum_bind_eq_Inl split: option.splits prod.splits)

lemma p_word_no_fuel:
  assumes "\<And>t. parse_constant rd t \<noteq> Inl FuelExhausted"
  shows "p_word rd s \<noteq> Inl FuelExhausted"
  using assms p_number_no_fuel [OF assms] by (auto simp: p_word_def sum_bind_eq_Inl)

lemma number_int_shorter: "number_int s = Some (ds, r) \<Longrightarrow> length r < length s"
  by (auto simp: number_int_def le_imp_less_Suc length_dropWhile_less_eq split: list.splits if_splits)

lemma number_frac_shorter: "number_frac s = (ds, r) \<Longrightarrow> length r \<le> length s"
  by (auto simp: number_frac_def le_Suc_eq intro: le_SucI length_dropWhile_less_eq
      split: list.splits if_splits)

lemma number_exp_shorter: "number_exp s = (ds, r) \<Longrightarrow> length r \<le> length s"
proof -
  have "length (dropWhile is_digit x) \<le> Suc (length x)"
    "length (dropWhile is_digit x) \<le> Suc (Suc (length x))" for x
    by (simp_all add: le_SucI length_dropWhile_less_eq)
  then show "number_exp s = (ds, r) \<Longrightarrow> length r \<le> length s"
    by (auto simp: number_exp_def Let_def split: list.splits if_splits)
qed

lemma p_number_shorter: "p_number rd s = Inr (j, r) \<Longrightarrow> length r < length s"
proof -
  define k :: nat where "k = length (case s of c # _ \<Rightarrow> if c = 45 then [45 :: nat] else [] | [] \<Rightarrow> [])"
  assume "p_number rd s = Inr (j, r)"
  then consider (const) "r = drop 8 (drop k s)" "k = 1" "s \<noteq> []"
    | (num) ds r1 fr r2 ex where "number_int (drop k s) = Some (ds, r1)"
        "number_frac r1 = (fr, r2)" "number_exp r2 = (ex, r)"
    by (auto simp: p_number_def k_def Let_def split: option.splits prod.splits if_splits list.splits)
  then show ?thesis
  proof cases
    case const
    then show ?thesis by (cases s) simp_all
  next
    case num
    then have "length r < length (drop k s)"
      using number_int_shorter number_frac_shorter number_exp_shorter
      by (meson le_trans order_le_less_trans)
    then show ?thesis by simp
  qed
qed

lemma p_word_shorter: "p_word rd s = Inr (j, r) \<Longrightarrow> length r < length s"
proof -
  have ne: "take n s = w \<Longrightarrow> w \<noteq> [] \<Longrightarrow> length (drop m s) < length s" if "0 < m" for n m w
    using that by (cases s) auto
  assume "p_word rd s = Inr (j, r)"
  then show ?thesis
    by (auto simp: p_word_def split: if_splits dest: p_number_shorter ne [rotated])
qed

lemma skip_ws_le: "length (skip_ws s) \<le> length s"
  by (simp add: skip_ws_def length_dropWhile_less_eq)

lemma skip_ws_eq_Cons: "skip_ws s = c # r \<Longrightarrow> length r < length s"
  using skip_ws_le [of s] by simp

lemma separator_shorter: "separator c s = Inr (b, r) \<Longrightarrow> length r < length s"
  by (auto simp: separator_def split: list.splits if_splits dest!: skip_ws_eq_Cons
      intro: le_less_trans [OF skip_ws_le])

lemma colon_shorter: "colon s = Inr r \<Longrightarrow> length r < length s"
  by (auto simp: colon_def split: list.splits if_splits dest!: skip_ws_eq_Cons
      intro: le_less_trans [OF skip_ws_le])

lemma p_key_shorter: "p_key s = Inr (k, r) \<Longrightarrow> length r < length s"
  by (auto simp: p_key_def split: list.splits if_splits dest!: p_string_shorter)

lemmas item_shorter = separator_shorter colon_shorter p_key_shorter

lemma p_shorter:
  "p_value rd d n s = Inr (j, r) \<Longrightarrow> length r < length s"
  "p_elems rd d n s = Inr (js, r) \<Longrightarrow> length r < length s"
  "p_members rd d n s = Inr (kvs, r) \<Longrightarrow> length r < length s"
proof (induction n arbitrary: d s j r js kvs)
  case 0
  { case 1 then show ?case by simp }
  { case 2 then show ?case by simp }
  { case 3 then show ?case by simp }
next
  case (Suc n)
  have le: "length (skip_ws u) \<le> length u" "length (drop 1 (skip_ws u)) \<le> length u" for u
    using skip_ws_le [of u] by auto
  { case 1
    then obtain c r0 where s: "s = c # r0" by (cases s) auto
    have sub: "length r \<le> length r0"
      if "p_elems rd (d - 1) n (skip_ws r0) = Inr (js, r) \<or> p_members rd (d - 1) n (skip_ws r0) = Inr (kvs, r)"
      for js kvs r
      using that Suc.IH(2,3) [of "d - 1" "skip_ws r0"] le(1) [of r0] by fastforce
    consider (string) t where "p_string r0 = Inr (t, r)"
      | (empty) "r = drop 1 (skip_ws r0)"
      | (items) js kvs where "p_elems rd (d - 1) n (skip_ws r0) = Inr (js, r) \<or> p_members rd (d - 1) n (skip_ws r0) = Inr (kvs, r)"
      | (word) "p_word rd s = Inr (j, r)"
      using 1 unfolding s by (auto split: if_splits)
    then show ?case
    proof cases
      case string
      then show ?thesis using p_string_shorter s by fastforce
    next
      case empty
      then show ?thesis using le(2) [of r0] s by simp
    next
      case items
      then show ?thesis using sub s by fastforce
    next
      case word
      then show ?thesis by (rule p_word_shorter)
    qed }
  { case 2
    then show ?case
      by (fastforce split: if_splits dest: Suc.IH(1,2) item_shorter) }
  { case 3
    then show ?case
      by (fastforce split: if_splits dest: Suc.IH(1,3) item_shorter) }
qed

text \<open>Hooks that never answer with the fuel error of the model.\<close>

definition hooks_terminate :: "json_reader \<Rightarrow> bool" where
  "hooks_terminate rd \<longleftrightarrow>
     (\<forall>kvs. object_pairs_hook rd kvs \<noteq> Inl FuelExhausted) \<and> (\<forall>t. parse_constant rd t \<noteq> Inl FuelExhausted)"

lemma item_no_fuel:
  "separator c s \<noteq> Inl FuelExhausted" "colon s \<noteq> Inl FuelExhausted" "p_key s \<noteq> Inl FuelExhausted"
  using p_string_no_fuel by (auto simp: separator_def colon_def p_key_def split: list.splits)

lemma p_no_fuel:
  assumes "hooks_terminate rd"
  shows "2 * length s < n \<Longrightarrow> p_value rd d n s \<noteq> Inl FuelExhausted"
    and "2 * length s + 1 < n \<Longrightarrow> p_elems rd d n s \<noteq> Inl FuelExhausted"
    and "2 * length s < n \<Longrightarrow> p_members rd d n s \<noteq> Inl FuelExhausted"
proof (induction n arbitrary: d s)
  case 0
  { case 1 then show ?case by simp }
  { case 2 then show ?case by simp }
  { case 3 then show ?case by simp }
next
  case (Suc n)
  have const: "\<And>t. parse_constant rd t \<noteq> Inl FuelExhausted"
    and obj: "\<And>kvs. object_pairs_hook rd kvs \<noteq> Inl FuelExhausted"
    using assms by (simp_all add: hooks_terminate_def)
  { case 1
    show ?case
    proof (cases s)
      case Nil
      then show ?thesis by simp
    next
      case (Cons c r)
      with 1 skip_ws_le [of r] have "2 * length (skip_ws r) + 1 < n" by simp
      then have "p_elems rd (d - 1) n (skip_ws r) \<noteq> Inl FuelExhausted"
        "p_members rd (d - 1) n (skip_ws r) \<noteq> Inl FuelExhausted"
        by (simp_all add: Suc.IH)
      with Cons show ?thesis
        using obj p_string_no_fuel p_word_no_fuel [OF const] by (auto simp: sum_bind_eq_Inl)
    qed }
  { case 2
    then have v: "p_value rd d n s \<noteq> Inl FuelExhausted"
      by (simp add: Suc.IH)
    have rest: "p_elems rd d n r2 \<noteq> Inl FuelExhausted"
      if "p_value rd d n s = Inr (v, r1)" "separator 93 r1 = Inr (b, r2)" for v r1 b r2
      using that 2 by (intro Suc.IH) (auto dest!: p_shorter(1) separator_shorter)
    show ?case
      using v rest item_no_fuel by (auto simp: sum_bind_eq_Inl split: if_splits) }
  { case 3
    have v: "p_value rd d n r2 \<noteq> Inl FuelExhausted"
      if "p_key s = Inr (k, r1)" "colon r1 = Inr r2" for k r1 r2
      using that 3 by (intro Suc.IH) (auto dest!: p_key_shorter colon_shorter)
    have rest: "p_members rd d n r4 \<noteq> Inl FuelExhausted"
      if "p_key s = Inr (k, r1)" "colon r1 = Inr r2" "p_value rd d n r2 = Inr (v, r3)"
        "separator 125 r3 = Inr (b, r4)" for k r1 r2 v r3 b r4
      using that 3 by (intro Suc.IH) (auto dest!: p_shorter(1) item_shorter)
    show ?case
      using v rest item_no_fuel by (auto simp: sum_bind_eq_Inl split: if_splits) }
qed

lemma json_loads_no_fuel:
  assumes "hooks_terminate rd"
  shows "json_loads rd s \<noteq> Inl FuelExhausted"
  using p_no_fuel(1) [OF assms, of "skip_ws s" "Suc (2 * length s)"] skip_ws_le [of s]
  by (auto simp: json_loads_def sum_bind_eq_Inl simp del: p_value.simps)

section \<open>The decoder reads back what the encoder wrote\<close>

fun plain :: "json \<Rightarrow> bool" where
  "plain (JInt i) = int_ok i"
| "plain (JFloat r) = False"
| "plain (JArr js) = list_all plain js"
| "plain (JObj kvs) = (distinct (map fst kvs) \<and> list_all (\<lambda>kv. plain (snd kv)) kvs)"
| "plain _ = True"

fun json_norm :: "json \<Rightarrow> json" where
  "json_norm (JArr js) = JArr (map json_norm js)"
| "json_norm (JObj kvs) = JObj (sort_key fst (map (\<lambda>kv. (fst kv, json_norm (snd kv))) kvs))"
| "json_norm j = j"

text \<open>Containers nest at most \<open>d\<close> deep.\<close>

fun json_within :: "nat \<Rightarrow> json \<Rightarrow> bool" where
  "json_within d (JArr js) = (0 < d \<and> list_all (json_within (d - 1)) js)"
| "json_within d (JObj kvs) = (0 < d \<and> list_all (\<lambda>kv. json_within (d - 1) (snd kv)) kvs)"
| "json_within d _ = True"

text \<open>A hook that builds the dictionary of distinct keys.\<close>

definition builds_objects :: "json_reader \<Rightarrow> bool" where
  "builds_objects rd \<longleftrightarrow> (\<forall>kvs. distinct (map fst kvs) \<longrightarrow> object_pairs_hook rd kvs = Inr (JObj kvs))"

lemma plain_dumpable: "plain j \<Longrightarrow> dumpable j"
  by (induction j rule: dumpable.induct) (auto simp: list_all_iff)

lemma json_text_hd:
  assumes "plain j"
  shows "\<exists>c cs. json_text j = c # cs \<and> \<not> is_ws c \<and> c \<noteq> 93 \<and> c \<noteq> 125"
proof (cases j)
  case (JInt i)
  then show ?thesis
    using int_repr_hd [of i] by (auto simp: is_ws_def is_digit_def)
qed (use assms in \<open>auto simp: is_ws_def json_str_def\<close>)

lemma skip_ws_id: "\<not> is_ws c \<Longrightarrow> skip_ws (c # cs) = c # cs"
  by (simp add: skip_ws_def)

lemma skip_ws_json [simp]: "plain j \<Longrightarrow> skip_ws (json_text j @ r) = json_text j @ r"
  using json_text_hd [of j] by (auto simp: skip_ws_id)

lemma sort_key_map_fst:
  "sort_key fst (map (\<lambda>kv. (fst kv, f (snd kv))) kvs) = map (\<lambda>kv. (fst kv, f (snd kv))) (sort_key fst kvs)"
proof (induction kvs)
  case Nil
  then show ?case by simp
next
  case (Cons kv kvs)
  have "insort_key fst (fst kv, f (snd kv)) (map (\<lambda>kv. (fst kv, f (snd kv))) xs)
      = map (\<lambda>kv. (fst kv, f (snd kv))) (insort_key fst kv xs)" for xs
    by (induction xs) auto
  with Cons show ?case by simp
qed

lemma separator_simps [simp]:
  "c \<noteq> 44 \<Longrightarrow> \<not> is_ws c \<Longrightarrow> separator c (c # r) = Inr (True, r)"
  "c \<noteq> 44 \<Longrightarrow> separator c (44 # r) = Inr (False, skip_ws r)"
  by (simp_all add: separator_def skip_ws_def is_ws_def)

lemma colon_simp [simp]: "colon (58 # r) = Inr (skip_ws r)"
  by (simp add: colon_def skip_ws_def is_ws_def)

lemma p_key_json [simp]: "p_key (json_str k @ r) = Inr (k, r)"
  using p_string_esc [of k r] by (simp add: p_key_def json_str_def)

lemma skip_ws_json_str [simp]: "skip_ws (json_str k @ r) = json_str k @ r"
  by (simp add: json_str_def skip_ws_def is_ws_def)

text \<open>Reading one value back, with enough levels and fuel.\<close>

definition reads_back :: "json_reader \<Rightarrow> json \<Rightarrow> bool" where
  "reads_back rd j \<longleftrightarrow>
     (\<forall>d n r. json_within d j \<longrightarrow> length (json_text j) \<le> n \<longrightarrow> ends r \<longrightarrow>
        p_value rd d n (json_text j @ r) = Inr (json_norm j, r))"

lemma p_elems_reads:
  assumes "js \<noteq> []" and "\<And>j. j \<in> set js \<Longrightarrow> reads_back rd j \<and> plain j \<and> json_within d j"
    and "length (join_comma (map json_text js)) < n"
  shows "p_elems rd d n (join_comma (map json_text js) @ 93 # r) = Inr (map json_norm js, r)"
  using assms
proof (induction js arbitrary: n)
  case Nil
  then show ?case by simp
next
  case (Cons j js)
  from Cons.prems obtain m where n: "n = Suc m" by (cases n) auto
  have j: "p_value rd d m (json_text j @ s) = Inr (json_norm j, s)"
    if "ends s" "length (json_text j) \<le> m" for s
    using Cons.prems(2) that by (simp add: reads_back_def)
  show ?case
  proof (cases js)
    case Nil
    with j n Cons.prems show ?thesis by (simp add: is_ws_def)
  next
    case (Cons j' js')
    have "p_elems rd d m (join_comma (map json_text js) @ 93 # r) = Inr (map json_norm js, r)"
      using Cons.IH Cons.prems n by (intro Cons.IH) (simp_all add: Cons)
    moreover have "skip_ws (join_comma (map json_text js) @ 93 # r) = join_comma (map json_text js) @ 93 # r"
      using Cons Cons.prems(2) by (cases js') simp_all
    ultimately show ?thesis
      using j n Cons Cons.prems by simp
  qed
qed

lemma p_members_reads:
  assumes "kvs \<noteq> []" and "\<And>kv. kv \<in> set kvs \<Longrightarrow> reads_back rd (snd kv) \<and> plain (snd kv) \<and> json_within d (snd kv)"
    and "length (join_comma (map (\<lambda>kv. member_text (fst kv, json_text (snd kv))) kvs)) < n"
  shows "p_members rd d n (join_comma (map (\<lambda>kv. member_text (fst kv, json_text (snd kv))) kvs) @ 125 # r) =
    Inr (map (\<lambda>kv. (fst kv, json_norm (snd kv))) kvs, r)"
  using assms
proof (induction kvs arbitrary: n)
  case Nil
  then show ?case by simp
next
  case (Cons kv kvs)
  let ?txt = "\<lambda>kvs. join_comma (map (\<lambda>kv. member_text (fst kv, json_text (snd kv))) kvs)"
  from Cons.prems obtain m where n: "n = Suc m" by (cases n) auto
  have v: "p_value rd d m (json_text (snd kv) @ s) = Inr (json_norm (snd kv), s)"
    if "ends s" "length (json_text (snd kv)) \<le> m" for s
    using Cons.prems(2) that by (simp add: reads_back_def)
  have plain: "plain (snd kv)" using Cons.prems(2) by simp
  show ?case
  proof (cases kvs)
    case Nil
    with v n plain Cons.prems show ?thesis by (simp add: is_ws_def member_text_def)
  next
    case (Cons kv' kvs')
    have "p_members rd d m (?txt kvs @ 125 # r) = Inr (map (\<lambda>kv. (fst kv, json_norm (snd kv))) kvs, r)"
      using Cons.IH Cons.prems n by (intro Cons.IH) (simp_all add: Cons member_text_def)
    moreover have "skip_ws (?txt kvs @ 125 # r) = ?txt kvs @ 125 # r"
      using Cons by (cases kvs') (simp_all add: member_text_def)
    ultimately show ?thesis
      using v n plain Cons Cons.prems by (simp add: member_text_def)
  qed
qed

lemma json_text_JObj:
  "json_text (JObj kvs) =
    123 # join_comma (map (\<lambda>kv. member_text (fst kv, json_text (snd kv))) (sort_key fst kvs)) @ [125]"
  by (simp add: sort_key_map_fst comp_def)

lemma reads_back_word:
  assumes "json_text j = c # cs" and "c \<noteq> 34" and "c \<noteq> 123" and "c \<noteq> 91"
    and "\<And>r. ends r \<Longrightarrow> p_word rd (json_text j @ r) = Inr (json_norm j, r)"
  shows "reads_back rd j"
proof -
  have "p_value rd d (Suc n) (json_text j @ r) = p_word rd (json_text j @ r)" for d n r
    using assms(1-4) by simp
  then show ?thesis
    unfolding reads_back_def using assms(1,5) by (metis Suc_le_D length_Cons list.size(4))
qed

lemma join_comma_ne: "js \<noteq> [] \<Longrightarrow> \<forall>j \<in> set js. j \<noteq> [] \<Longrightarrow> join_comma js \<noteq> []"
  by (induction js rule: join_comma.induct) auto

lemma hd_join_comma: "js \<noteq> [] \<Longrightarrow> hd js \<noteq> [] \<Longrightarrow> \<exists>t. join_comma js = hd js @ t"
  by (induction js rule: join_comma.induct) auto

lemma reads_back_JArr:
  assumes "\<And>j. j \<in> set js \<Longrightarrow> reads_back rd j \<and> plain j"
  shows "reads_back rd (JArr js)"
  unfolding reads_back_def
proof (intro allI impI)
  fix d n r
  assume d: "json_within d (JArr js)" and n: "length (json_text (JArr js)) \<le> n"
  then obtain m where m: "n = Suc m" by (cases n) auto
  show "p_value rd d n (json_text (JArr js) @ r) = Inr (json_norm (JArr js), r)"
  proof (cases js)
    case Nil
    then show ?thesis using d by (simp add: m skip_ws_def is_ws_def)
  next
    case (Cons j js')
    obtain c cs where c: "json_text j = c # cs" "\<not> is_ws c" "c \<noteq> 93"
      using assms Cons json_text_hd [of j] by auto
    moreover obtain t where t: "join_comma (map json_text js) = c # t"
      using hd_join_comma [of "map json_text js"] Cons c by fastforce
    moreover have "p_elems rd (d - 1) m (join_comma (map json_text js) @ 93 # r) = Inr (map json_norm js, r)"
      using assms d n m Cons by (intro p_elems_reads) (auto simp: list_all_iff)
    ultimately show ?thesis using d by (simp add: m skip_ws_id)
  qed
qed

lemma reads_back_JObj:
  assumes "builds_objects rd" and "distinct (map fst kvs)"
    and "\<And>kv. kv \<in> set kvs \<Longrightarrow> reads_back rd (snd kv) \<and> plain (snd kv)"
  shows "reads_back rd (JObj kvs)"
  unfolding reads_back_def
proof (intro allI impI)
  fix d n r
  let ?ss = "sort_key fst kvs"
  let ?txt = "join_comma (map (\<lambda>kv. member_text (fst kv, json_text (snd kv))) ?ss)"
  assume d: "json_within d (JObj kvs)" and n: "length (json_text (JObj kvs)) \<le> n"
  then obtain m where m: "n = Suc m" by (cases n) auto
  have dist: "distinct (map fst ?ss)"
    using assms(2) mset_eq_imp_distinct_iff [of "map fst ?ss" "map fst kvs"] by simp
  show "p_value rd d n (json_text (JObj kvs) @ r) = Inr (json_norm (JObj kvs), r)"
  proof (cases ?ss)
    case Nil
    then have "kvs = []" by (metis set_empty set_sort)
    with assms(1) d show ?thesis by (simp add: m skip_ws_def is_ws_def builds_objects_def)
  next
    case (Cons kv ss)
    obtain t where t: "?txt = 34 # t"
      using hd_join_comma [of "map (\<lambda>kv. member_text (fst kv, json_text (snd kv))) ?ss"] Cons
      by (auto simp: member_text_def json_str_def)
    have "p_members rd (d - 1) m (?txt @ 125 # r) = Inr (map (\<lambda>kv. (fst kv, json_norm (snd kv))) ?ss, r)"
    proof (rule p_members_reads)
      show "?ss \<noteq> []" using Cons by simp
      show "reads_back rd (snd kv) \<and> plain (snd kv) \<and> json_within (d - 1) (snd kv)" if "kv \<in> set ?ss" for kv
        using assms(3) d that by (simp add: list_all_iff)
      show "length ?txt < m"
        using n unfolding m json_text_JObj by simp
    qed
    moreover have "object_pairs_hook rd (map (\<lambda>kv. (fst kv, json_norm (snd kv))) ?ss) =
        Inr (JObj (map (\<lambda>kv. (fst kv, json_norm (snd kv))) ?ss))"
      using assms(1) dist by (simp add: builds_objects_def comp_def)
    ultimately show ?thesis
      using d by (simp only: json_text_JObj) (simp add: m t skip_ws_id is_ws_def sort_key_map_fst)
  qed
qed

lemma reads_back_plain:
  assumes "builds_objects rd"
  shows "plain j \<Longrightarrow> reads_back rd j"
proof (induction j)
  case JNull
  show ?case
    by (rule reads_back_word [of _ 110 "lit ''ull''"]) (simp_all add: p_word_def)
next
  case (JBool b)
  show ?case
  proof (cases b)
    case True
    then show ?thesis
      by (intro reads_back_word [of _ 116 "lit ''rue''"]) (simp_all add: p_word_def)
  next
    case False
    then show ?thesis
      by (intro reads_back_word [of _ 102 "lit ''alse''"]) (simp_all add: p_word_def)
  qed
next
  case (JInt i)
  obtain c cs where "int_repr i = c # cs" "c = 45 \<or> is_digit c"
    using int_repr_hd by blast
  moreover have "p_word rd (json_text (JInt i) @ r) = Inr (json_norm (JInt i), r)" if "ends r" for r
    using JInt that by (simp add: p_word_int)
  ultimately show ?case
    by (intro reads_back_word [of _ c cs]) (auto simp: is_digit_def)
next
  case (JFloat r)
  then show ?case by simp
next
  case (JStr s)
  show ?case
    unfolding reads_back_def
  proof (intro allI impI)
    fix d n r
    assume "length (json_text (JStr s)) \<le> n"
    then obtain m where "n = Suc m" by (cases n) (auto simp: json_str_def)
    then show "p_value rd d n (json_text (JStr s) @ r) = Inr (json_norm (JStr s), r)"
      using p_string_esc [of s r] by (simp add: json_str_def)
  qed
next
  case (JArr js)
  then show ?case by (intro reads_back_JArr) (auto simp: list_all_iff)
next
  case (JObj kvs)
  then show ?case
    using assms by (intro reads_back_JObj) (force simp: list_all_iff)+
qed

theorem json_loads_dumps:
  assumes "builds_objects rd" and "plain j" and "json_within (reader_levels rd) j"
  shows "json_loads rd (json_text j) = Inr (json_norm j)"
proof -
  have "p_value rd (reader_levels rd) (Suc (2 * length (json_text j))) (json_text j @ []) = Inr (json_norm j, [])"
    using reads_back_plain [OF assms(1,2)] assms(3) unfolding reads_back_def by (metis ends_simps(1) le_SucI le_add1 mult_2)
  moreover have "skip_ws (json_text j) = json_text j"
    using skip_ws_json [OF assms(2), of "[]"] by simp
  ultimately show ?thesis by (simp add: json_loads_def skip_ws_def)
qed

section \<open>Re-encoding what was read\<close>

lemma json_text_norm: "plain j \<Longrightarrow> json_text (json_norm j) = json_text j"
proof (induction j)
  case (JArr js)
  then have "map json_text (map json_norm js) = map json_text js"
    by (auto simp: list_all_iff)
  then show ?case by (simp del: map_map)
next
  case (JObj kvs)
  then have eq: "json_text (json_norm (snd kv)) = json_text (snd kv)" if "kv \<in> set kvs" for kv
    using that by (cases kv) (force simp: list_all_iff)
  have "sort_key fst (map (\<lambda>kv. (fst kv, json_text (snd kv))) (sort_key fst (map (\<lambda>kv. (fst kv, json_norm (snd kv))) kvs)))
      = sort_key fst (map (\<lambda>kv. (fst kv, json_text (json_norm (snd kv)))) (sort_key fst kvs))"
    by (simp add: sort_key_map_fst comp_def)
  also have "map (\<lambda>kv. (fst kv, json_text (json_norm (snd kv)))) (sort_key fst kvs) =
      map (\<lambda>kv. (fst kv, json_text (snd kv))) (sort_key fst kvs)"
    using eq by simp
  also have "sort_key fst (map (\<lambda>kv. (fst kv, json_text (snd kv))) (sort_key fst kvs)) =
      sort_key fst (map (\<lambda>kv. (fst kv, json_text (snd kv))) kvs)"
    by (simp only: sort_key_map_fst) (simp add: sort_key_id_if_sorted)
  finally show ?case by simp
qed simp_all

lemma dumpable_norm: "dumpable (json_norm j) = dumpable j"
proof (induction j)
  case (JObj kvs)
  then have "(\<forall>kv \<in> set kvs. dumpable (json_norm (snd kv))) \<longleftrightarrow> (\<forall>kv \<in> set kvs. dumpable (snd kv))"
    by (auto simp: snds.simps split: prod.splits)
  then show ?case by (auto simp: list_all_iff)
qed (auto simp: list_all_iff)

lemma json_within_mono: "json_within d j \<Longrightarrow> d \<le> d' \<Longrightarrow> json_within d' j"
  by (induction d j arbitrary: d' rule: json_within.induct) (force simp: list_all_iff)+

lemma json_within_reader: "json_within guaranteed_levels j \<Longrightarrow> json_within (reader_levels rd) j"
  by (erule json_within_mono) (simp add: reader_levels_def)

section \<open>Encoding with a limit on the levels\<close>

lemma first_error_None: "first_error xs = None \<longleftrightarrow> set xs \<subseteq> {None}"
  by (induction xs) (auto split: option.splits)

lemma first_error_Some: "first_error xs = Some e \<Longrightarrow> Some e \<in> set xs"
  by (induction xs) (auto split: option.splits)

lemma encode_error_None: "encode_error d j = None \<longleftrightarrow> dumpable j \<and> json_within d j"
  by (induction d j rule: encode_error.induct)
    (auto simp: first_error_None image_subset_iff list_all_iff)

lemma encode_error_Some: "encode_error d j = Some e \<Longrightarrow> e = ValueError \<or> e = RecursionError \<and> \<not> json_within d j"
  by (induction d j rule: encode_error.induct)
    (fastforce simp: list_all_iff split: if_splits dest!: first_error_Some)+

lemma json_dumps_within_Inr:
  "json_dumps_within d j = Inr t \<longleftrightarrow> json_within d j \<and> json_dumps j = Inr t"
  using encode_error_None [of d j] by (auto simp: json_dumps_within_def json_dumps_def split: option.splits)

lemma json_dumps_within_Inl:
  "json_dumps_within d j = Inl e \<Longrightarrow> e = ValueError \<or> e = RecursionError \<and> \<not> json_within d j"
  by (auto simp: json_dumps_within_def split: option.splits dest: encode_error_Some)

end
