(* ===== verification/RunIdentity.thy ===== *)
theory RunIdentity
  imports JsonRoundtrip
begin

text \<open>
  \<open>domain/run_identity.py\<close>: the semantic wrappers around identifier text and the immutable
  binding of a run to its trusted inputs. A wrapper is a one-field datatype; its constructor
  call with the checks of \<open>__post_init__\<close> is the function \<open>new_...\<close>. The
  \<open>isinstance\<close> guards between these types are the types of the model here, and branches in
  \<open>DynamicValues\<close>. A value is well-formed when it meets the conditions
  written out in its \<open>wf_...\<close> predicate; that these are what its constructor accepts is a lemma
  \<open>wf_..._new\<close>.
\<close>

section \<open>Guards\<close>

definition require_text :: "str \<Rightarrow> str res" where
  "require_text value = (if value = [] \<or> value \<noteq> strip value then Inl ValueError else Inr value)"

definition require_pattern :: "(str \<Rightarrow> bool) \<Rightarrow> str \<Rightarrow> str res" where
  "require_pattern pattern value =
    sum_bind (require_text value) (\<lambda>t. if pattern t then Inr t else Inl ValueError)"

definition RUN_ID_PATTERN :: "str \<Rightarrow> bool" where
  "RUN_ID_PATTERN = match_head_tail is_alnum is_handle_char 127"

definition SHA256_PATTERN :: "str \<Rightarrow> bool" where
  "SHA256_PATTERN = match_hex 64"

definition BASELINE_SHA_PATTERN :: "str \<Rightarrow> bool" where
  "BASELINE_SHA_PATTERN s \<longleftrightarrow> match_hex 40 s \<or> match_hex 64 s"

section \<open>Wrappers\<close>

datatype run_id = RunId (run_id_value: str)
datatype contract_id = ContractId (contract_id_value: str)
datatype contract_version = ContractVersion (contract_version_value: str)
datatype contract_hash = ContractHash (contract_hash_value: str)
datatype baseline_sha = BaselineSha (baseline_sha_value: str)
datatype policy_hash = PolicyHash (policy_hash_value: str)

definition new_RunId :: "str \<Rightarrow> run_id res" where
  "new_RunId v = sum_bind (require_pattern RUN_ID_PATTERN v) (\<lambda>v. Inr (RunId v))"

definition new_ContractId :: "str \<Rightarrow> contract_id res" where
  "new_ContractId v = sum_bind (require_text v) (\<lambda>v. Inr (ContractId v))"

definition new_ContractVersion :: "str \<Rightarrow> contract_version res" where
  "new_ContractVersion v = sum_bind (require_text v) (\<lambda>v. Inr (ContractVersion v))"

definition new_ContractHash :: "str \<Rightarrow> contract_hash res" where
  "new_ContractHash v = sum_bind (require_pattern SHA256_PATTERN v) (\<lambda>v. Inr (ContractHash v))"

definition new_BaselineSha :: "str \<Rightarrow> baseline_sha res" where
  "new_BaselineSha v = sum_bind (require_pattern BASELINE_SHA_PATTERN v) (\<lambda>v. Inr (BaselineSha v))"

definition new_PolicyHash :: "str \<Rightarrow> policy_hash res" where
  "new_PolicyHash v = sum_bind (require_pattern SHA256_PATTERN v) (\<lambda>v. Inr (PolicyHash v))"

lemmas new_wrapper_defs =
  new_RunId_def new_ContractId_def new_ContractVersion_def new_ContractHash_def
  new_BaselineSha_def new_PolicyHash_def

section \<open>The run identity\<close>

record run_identity =
  ri_run_id :: run_id
  ri_contract_id :: contract_id
  ri_contract_version :: contract_version
  ri_contract_hash :: contract_hash
  ri_baseline_sha :: baseline_sha
  ri_policy_hash :: policy_hash
  ri_created_at :: datetime

definition new_RunIdentity ::
  "run_id \<Rightarrow> contract_id \<Rightarrow> contract_version \<Rightarrow> contract_hash \<Rightarrow> baseline_sha \<Rightarrow> policy_hash \<Rightarrow>
   datetime \<Rightarrow> run_identity res" where
  "new_RunIdentity rid cid ver chash base pol created =
    (if dt_tz created \<noteq> UTC then Inl ValueError
     else Inr \<lparr>ri_run_id = rid, ri_contract_id = cid, ri_contract_version = ver,
               ri_contract_hash = chash, ri_baseline_sha = base, ri_policy_hash = pol,
               ri_created_at = created\<rparr>)"

section \<open>Well-formed values\<close>

definition wf_run_id :: "run_id \<Rightarrow> bool" where
  "wf_run_id r \<longleftrightarrow> RUN_ID_PATTERN (run_id_value r)"

definition wf_contract_id :: "contract_id \<Rightarrow> bool" where
  "wf_contract_id c \<longleftrightarrow> contract_id_value c \<noteq> [] \<and> strip (contract_id_value c) = contract_id_value c"

definition wf_contract_version :: "contract_version \<Rightarrow> bool" where
  "wf_contract_version v \<longleftrightarrow> contract_version_value v \<noteq> [] \<and> strip (contract_version_value v) = contract_version_value v"

definition wf_contract_hash :: "contract_hash \<Rightarrow> bool" where
  "wf_contract_hash h \<longleftrightarrow> SHA256_PATTERN (contract_hash_value h)"

definition wf_baseline_sha :: "baseline_sha \<Rightarrow> bool" where
  "wf_baseline_sha b \<longleftrightarrow> BASELINE_SHA_PATTERN (baseline_sha_value b)"

definition wf_policy_hash :: "policy_hash \<Rightarrow> bool" where
  "wf_policy_hash p \<longleftrightarrow> SHA256_PATTERN (policy_hash_value p)"

definition wf_instant :: "datetime \<Rightarrow> bool" where
  "wf_instant d \<longleftrightarrow> valid_datetime d \<and> dt_tz d = UTC"

definition wf_run_identity :: "run_identity \<Rightarrow> bool" where
  "wf_run_identity i \<longleftrightarrow>
     wf_run_id (ri_run_id i) \<and> wf_contract_id (ri_contract_id i) \<and>
     wf_contract_version (ri_contract_version i) \<and> wf_contract_hash (ri_contract_hash i) \<and>
     wf_baseline_sha (ri_baseline_sha i) \<and> wf_policy_hash (ri_policy_hash i) \<and>
     wf_instant (ri_created_at i)"

declare wf_instant_def [wf_defs] wf_run_identity_def [wf_defs]

lemma require_pattern_Inr [simp]:
  "require_pattern p v = Inr w \<longleftrightarrow> w = v \<and> v \<noteq> [] \<and> v = strip v \<and> p v"
  by (auto simp: require_pattern_def require_text_def)

lemma require_text_Inr [simp]: "require_text v = Inr w \<longleftrightarrow> w = v \<and> v \<noteq> [] \<and> v = strip v"
  by (auto simp: require_text_def)

lemma new_RunId_Inr: "new_RunId v = Inr r \<longleftrightarrow> r = RunId v \<and> RUN_ID_PATTERN v"
  using match_handle_strip [of 127 v]
  by (auto simp: new_RunId_def RUN_ID_PATTERN_def)

lemma new_ContractHash_Inr: "new_ContractHash v = Inr r \<longleftrightarrow> r = ContractHash v \<and> SHA256_PATTERN v"
  using match_hex_strip [of 64 v] by (auto simp: new_ContractHash_def SHA256_PATTERN_def)

lemma new_PolicyHash_Inr: "new_PolicyHash v = Inr r \<longleftrightarrow> r = PolicyHash v \<and> SHA256_PATTERN v"
  using match_hex_strip [of 64 v] by (auto simp: new_PolicyHash_def SHA256_PATTERN_def)

lemma new_BaselineSha_Inr: "new_BaselineSha v = Inr r \<longleftrightarrow> r = BaselineSha v \<and> BASELINE_SHA_PATTERN v"
  using match_hex_strip [of 40 v] match_hex_strip [of 64 v]
  by (auto simp: new_BaselineSha_def BASELINE_SHA_PATTERN_def)

lemma wf_run_id_new [wf_defs]: "wf_run_id r \<longleftrightarrow> new_RunId (run_id_value r) = Inr r"
  by (cases r) (simp add: wf_run_id_def new_RunId_Inr)

lemma wf_contract_id_new: "wf_contract_id c \<longleftrightarrow> new_ContractId (contract_id_value c) = Inr c"
  by (cases c) (auto simp: wf_contract_id_def new_ContractId_def)

lemma wf_contract_version_new: "wf_contract_version v \<longleftrightarrow> new_ContractVersion (contract_version_value v) = Inr v"
  by (cases v) (auto simp: wf_contract_version_def new_ContractVersion_def)

lemma wf_contract_hash_new: "wf_contract_hash h \<longleftrightarrow> new_ContractHash (contract_hash_value h) = Inr h"
  by (cases h) (simp add: wf_contract_hash_def new_ContractHash_Inr)

lemma wf_baseline_sha_new: "wf_baseline_sha b \<longleftrightarrow> new_BaselineSha (baseline_sha_value b) = Inr b"
  by (cases b) (simp add: wf_baseline_sha_def new_BaselineSha_Inr)

lemma wf_policy_hash_new: "wf_policy_hash p \<longleftrightarrow> new_PolicyHash (policy_hash_value p) = Inr p"
  by (cases p) (simp add: wf_policy_hash_def new_PolicyHash_Inr)

lemmas wf_wrapper_defs = wf_run_id_new wf_contract_id_new wf_contract_version_new wf_contract_hash_new
  wf_baseline_sha_new wf_policy_hash_new

lemma new_wrapper_iff:
  "new_RunId t = Inr r \<longleftrightarrow> t = run_id_value r \<and> wf_run_id r"
  "new_ContractId t = Inr c \<longleftrightarrow> t = contract_id_value c \<and> wf_contract_id c"
  "new_ContractVersion t = Inr w \<longleftrightarrow> t = contract_version_value w \<and> wf_contract_version w"
  "new_ContractHash t = Inr h \<longleftrightarrow> t = contract_hash_value h \<and> wf_contract_hash h"
  "new_BaselineSha t = Inr b \<longleftrightarrow> t = baseline_sha_value b \<and> wf_baseline_sha b"
  "new_PolicyHash t = Inr p \<longleftrightarrow> t = policy_hash_value p \<and> wf_policy_hash p"
  by (cases r; cases c; cases w; cases h; cases b; cases p;
      auto simp: new_wrapper_defs wf_wrapper_defs)+

lemma wf_new_RunIdentity:
  assumes "wf_run_identity i"
  shows "new_RunIdentity (ri_run_id i) (ri_contract_id i) (ri_contract_version i) (ri_contract_hash i)
    (ri_baseline_sha i) (ri_policy_hash i) (ri_created_at i) = Inr i"
  using assms by (simp add: new_RunIdentity_def wf_defs)

text \<open>
  A run identifier names one directory entry: it is not empty, holds no separator and no NUL,
  and is neither of the two relative names.
\<close>

lemma wf_run_id_path_safe:
  assumes "wf_run_id r"
  shows "run_id_value r \<noteq> []" and "47 \<notin> set (run_id_value r)" and "0 \<notin> set (run_id_value r)"
    and "hd (run_id_value r) \<noteq> 46" and "length (run_id_value r) \<le> 128"
proof -
  have m: "match_head_tail is_alnum is_handle_char 127 (run_id_value r)"
    using assms by (auto simp: wf_run_id_new new_RunId_Inr RUN_ID_PATTERN_def)
  then show "run_id_value r \<noteq> []" "length (run_id_value r) \<le> 128" "hd (run_id_value r) \<noteq> 46"
    by (auto simp: match_head_tail_def is_alnum_def is_lower_def is_upper_def is_digit_def split: list.splits)
  show "47 \<notin> set (run_id_value r)" "0 \<notin> set (run_id_value r)"
    using match_handle_chars [OF m]
    by (auto simp: list_all_iff is_handle_char_def is_alnum_def is_lower_def is_upper_def is_digit_def)
qed

end
