(* ===== verification/Lifecycle.thy ===== *)
theory Lifecycle
  imports RunIdentity
begin

text \<open>
  \<open>domain/lifecycle.py\<close>: the monotonic lifecycle of a run. The snapshot, the event and
  their pair are records whose constructor calls are \<open>new_RunLifecycle\<close> and
  \<open>new_LifecycleTransition\<close>; \<open>start_lifecycle\<close> and \<open>advance_lifecycle\<close> are the two
  operations. The canonical final states are owned by the package \<open>loop_schemas\<close> and are
  the parameter \<open>FS\<close>. \<open>lifecycle_path\<close> is the relation "these accepted events lead from this
  snapshot to that one", with the facts every accepted history has.
\<close>

section \<open>States and actors\<close>

datatype lifecycle_state =
    CONTRACT_BOUND
  | WORKSPACE_PREPARED
  | BUILDING
  | VERIFYING
  | DECIDING
  | REVIEW_PENDING
  | COMPLETED

fun state_value :: "lifecycle_state \<Rightarrow> str" where
  "state_value CONTRACT_BOUND = lit ''contract_bound''"
| "state_value WORKSPACE_PREPARED = lit ''workspace_prepared''"
| "state_value BUILDING = lit ''building''"
| "state_value VERIFYING = lit ''verifying''"
| "state_value DECIDING = lit ''deciding''"
| "state_value REVIEW_PENDING = lit ''review_pending''"
| "state_value COMPLETED = lit ''completed''"

definition lifecycle_states :: "lifecycle_state list" where
  "lifecycle_states =
    [CONTRACT_BOUND, WORKSPACE_PREPARED, BUILDING, VERIFYING, DECIDING, REVIEW_PENDING, COMPLETED]"

text \<open>\<open>LifecycleState(text)\<close>: the member with that value.\<close>

definition new_LifecycleState :: "str \<Rightarrow> lifecycle_state res" where
  "new_LifecycleState t =
    (case find (\<lambda>s. state_value s = t) lifecycle_states of None \<Rightarrow> Inl ValueError | Some s \<Rightarrow> Inr s)"

datatype lifecycle_actor = LifecycleActor (actor_value: str)

definition ACTOR_PATTERN :: "str \<Rightarrow> bool" where
  "ACTOR_PATTERN = match_head_tail is_lower is_component_char 63"

definition new_LifecycleActor :: "str \<Rightarrow> lifecycle_actor res" where
  "new_LifecycleActor v = (if ACTOR_PATTERN v then Inr (LifecycleActor v) else Inl ValueError)"

definition wf_actor :: "lifecycle_actor \<Rightarrow> bool" where
  "wf_actor a \<longleftrightarrow> ACTOR_PATTERN (actor_value a)"

lemma wf_actor_new: "wf_actor a \<longleftrightarrow> new_LifecycleActor (actor_value a) = Inr a"
  by (cases a) (simp add: wf_actor_def new_LifecycleActor_def)

fun ALLOWED_NEXT :: "lifecycle_state \<Rightarrow> lifecycle_state set" where
  "ALLOWED_NEXT CONTRACT_BOUND = {WORKSPACE_PREPARED, COMPLETED}"
| "ALLOWED_NEXT WORKSPACE_PREPARED = {BUILDING, COMPLETED}"
| "ALLOWED_NEXT BUILDING = {VERIFYING, COMPLETED}"
| "ALLOWED_NEXT VERIFYING = {DECIDING, COMPLETED}"
| "ALLOWED_NEXT DECIDING = {REVIEW_PENDING, COMPLETED}"
| "ALLOWED_NEXT REVIEW_PENDING = {COMPLETED}"
| "ALLOWED_NEXT COMPLETED = {}"

section \<open>Guards\<close>

definition require_utc :: "datetime \<Rightarrow> datetime res" where
  "require_utc d = (if dt_tz d \<noteq> UTC then Inl ValueError else Inr d)"

definition require_revision :: "int \<Rightarrow> int res" where
  "require_revision r = (if r < 0 then Inl ValueError else Inr r)"

definition require_final_state :: "str list \<Rightarrow> str \<Rightarrow> str res" where
  "require_final_state FS f = (if f \<notin> set FS then Inl TypeError else Inr f)"

text \<open>The terminal invariant that snapshot and event share.\<close>

definition check_final :: "str list \<Rightarrow> lifecycle_state \<Rightarrow> str option \<Rightarrow> unit res" where
  "check_final FS st fin =
    (if st = COMPLETED then
       (case fin of
          None \<Rightarrow> Inl (LifecycleError LC_FINAL_STATE_REQUIRED)
        | Some f \<Rightarrow> sum_bind (require_final_state FS f) (\<lambda>_. Inr ()))
     else if fin \<noteq> None then Inl (LifecycleError LC_FINAL_STATE_FORBIDDEN)
     else Inr ())"

section \<open>Snapshot, event, advance\<close>

record run_lifecycle =
  lc_run_id :: run_id
  lc_state :: lifecycle_state
  lc_revision :: int
  lc_updated_at :: datetime
  lc_final_state :: "str option"

definition new_RunLifecycle ::
  "str list \<Rightarrow> run_id \<Rightarrow> lifecycle_state \<Rightarrow> int \<Rightarrow> datetime \<Rightarrow> str option \<Rightarrow> run_lifecycle res" where
  "new_RunLifecycle FS rid st rvn upd fin =
    sum_bind (require_revision rvn) (\<lambda>_.
    sum_bind (require_utc upd) (\<lambda>_.
    sum_bind (check_final FS st fin) (\<lambda>_.
      Inr \<lparr>lc_run_id = rid, lc_state = st, lc_revision = rvn, lc_updated_at = upd,
           lc_final_state = fin\<rparr>)))"

record lifecycle_transition =
  ev_run_id :: run_id
  ev_revision :: int
  ev_from_state :: lifecycle_state
  ev_to_state :: lifecycle_state
  ev_occurred_at :: datetime
  ev_actor :: lifecycle_actor
  ev_final_state :: "str option"

definition new_LifecycleTransition ::
  "str list \<Rightarrow> run_id \<Rightarrow> int \<Rightarrow> lifecycle_state \<Rightarrow> lifecycle_state \<Rightarrow> datetime \<Rightarrow> lifecycle_actor \<Rightarrow>
   str option \<Rightarrow> lifecycle_transition res" where
  "new_LifecycleTransition FS rid rvn from_state to_state occurred actor fin =
    sum_bind (require_revision rvn) (\<lambda>_.
    sum_bind (require_utc occurred) (\<lambda>_.
    sum_bind (check_final FS to_state fin) (\<lambda>_.
      Inr \<lparr>ev_run_id = rid, ev_revision = rvn, ev_from_state = from_state, ev_to_state = to_state,
           ev_occurred_at = occurred, ev_actor = actor, ev_final_state = fin\<rparr>)))"

record lifecycle_advance =
  adv_lifecycle :: run_lifecycle
  adv_transition :: lifecycle_transition

section \<open>Operations\<close>

definition start_lifecycle :: "str list \<Rightarrow> run_identity \<Rightarrow> run_lifecycle res" where
  "start_lifecycle FS i = new_RunLifecycle FS (ri_run_id i) CONTRACT_BOUND 0 (ri_created_at i) None"

definition advance_lifecycle ::
  "str list \<Rightarrow> run_lifecycle \<Rightarrow> lifecycle_state \<Rightarrow> datetime \<Rightarrow> lifecycle_actor \<Rightarrow> str option \<Rightarrow>
   lifecycle_advance res" where
  "advance_lifecycle FS current target occurred actor fin =
    sum_bind (require_utc occurred) (\<lambda>instant.
    if lc_state current = COMPLETED then Inl (LifecycleError LC_TERMINAL_STATE)
    else if target \<notin> ALLOWED_NEXT (lc_state current) then Inl (LifecycleError LC_INVALID_TRANSITION)
    else if dt_less instant (lc_updated_at current) then Inl (LifecycleError LC_TIME_REGRESSION)
    else if target = COMPLETED \<and> fin = None then Inl (LifecycleError LC_FINAL_STATE_REQUIRED)
    else if target \<noteq> COMPLETED \<and> fin \<noteq> None then Inl (LifecycleError LC_FINAL_STATE_FORBIDDEN)
    else sum_bind (case fin of None \<Rightarrow> Inr () | Some f \<Rightarrow> sum_bind (require_final_state FS f) (\<lambda>_. Inr ())) (\<lambda>_.
    let revision = lc_revision current + 1 in
    sum_bind (new_LifecycleTransition FS (lc_run_id current) revision (lc_state current) target
                instant actor fin) (\<lambda>transition.
    sum_bind (new_RunLifecycle FS (lc_run_id current) target revision instant fin) (\<lambda>updated.
      Inr \<lparr>adv_lifecycle = updated, adv_transition = transition\<rparr>))))"

section \<open>Order of the states\<close>

fun state_rank :: "lifecycle_state \<Rightarrow> nat" where
  "state_rank CONTRACT_BOUND = 0"
| "state_rank WORKSPACE_PREPARED = 1"
| "state_rank BUILDING = 2"
| "state_rank VERIFYING = 3"
| "state_rank DECIDING = 4"
| "state_rank REVIEW_PENDING = 5"
| "state_rank COMPLETED = 6"

instantiation lifecycle_state :: linorder
begin

definition less_eq_lifecycle_state :: "lifecycle_state \<Rightarrow> lifecycle_state \<Rightarrow> bool" where
  "less_eq_lifecycle_state a b \<longleftrightarrow> state_rank a \<le> state_rank b"

definition less_lifecycle_state :: "lifecycle_state \<Rightarrow> lifecycle_state \<Rightarrow> bool" where
  "less_lifecycle_state a b \<longleftrightarrow> state_rank a < state_rank b"

instance
proof
  fix x y z :: lifecycle_state
  show "(x < y) = (x \<le> y \<and> \<not> y \<le> x)" "x \<le> x" "x \<le> y \<or> y \<le> x"
    by (auto simp: less_eq_lifecycle_state_def less_lifecycle_state_def)
  show "x \<le> y \<Longrightarrow> y \<le> z \<Longrightarrow> x \<le> z" by (simp add: less_eq_lifecycle_state_def)
  show "x \<le> y \<Longrightarrow> y \<le> x \<Longrightarrow> x = y"
    by (cases x; cases y) (simp_all add: less_eq_lifecycle_state_def)
qed

end

lemma state_rank_le: "state_rank s \<le> 6"
  by (cases s) simp_all

lemma allowed_increases: "t \<in> ALLOWED_NEXT s \<Longrightarrow> s < t"
  by (cases s) (auto simp: less_lifecycle_state_def)

lemma allowed_to_completed: "s \<noteq> COMPLETED \<Longrightarrow> COMPLETED \<in> ALLOWED_NEXT s"
  by (cases s) simp_all

lemma new_LifecycleState_value [simp]: "new_LifecycleState (state_value s) = Inr s"
  by (cases s) (simp_all add: new_LifecycleState_def lifecycle_states_def)

lemma new_LifecycleState_Inr: "new_LifecycleState t = Inr s \<longleftrightarrow> t = state_value s"
proof
  assume "new_LifecycleState t = Inr s"
  then show "t = state_value s"
    by (auto simp: new_LifecycleState_def find_Some_iff split: option.splits)
qed simp

section \<open>Well-formed snapshots and events\<close>

definition wf_final :: "str list \<Rightarrow> lifecycle_state \<Rightarrow> str option \<Rightarrow> bool" where
  "wf_final FS st fin \<longleftrightarrow> (case fin of None \<Rightarrow> st \<noteq> COMPLETED | Some f \<Rightarrow> st = COMPLETED \<and> f \<in> set FS)"

definition wf_lifecycle :: "str list \<Rightarrow> run_lifecycle \<Rightarrow> bool" where
  "wf_lifecycle FS lc \<longleftrightarrow>
     wf_run_id (lc_run_id lc) \<and> 0 \<le> lc_revision lc \<and> wf_instant (lc_updated_at lc) \<and>
     wf_final FS (lc_state lc) (lc_final_state lc)"

definition wf_transition :: "str list \<Rightarrow> lifecycle_transition \<Rightarrow> bool" where
  "wf_transition FS ev \<longleftrightarrow>
     wf_run_id (ev_run_id ev) \<and> 0 \<le> ev_revision ev \<and> wf_instant (ev_occurred_at ev) \<and>
     wf_actor (ev_actor ev) \<and> wf_final FS (ev_to_state ev) (ev_final_state ev)"

declare wf_lifecycle_def [wf_defs] wf_transition_def [wf_defs]

lemma check_final_iff [simp]: "check_final FS st fin = Inr u \<longleftrightarrow> wf_final FS st fin"
  by (auto simp: check_final_def require_final_state_def wf_final_def split: option.splits)

lemma wf_new_RunLifecycle:
  assumes "wf_lifecycle FS lc"
  shows "new_RunLifecycle FS (lc_run_id lc) (lc_state lc) (lc_revision lc) (lc_updated_at lc)
    (lc_final_state lc) = Inr lc"
  using assms by (simp add: new_RunLifecycle_def require_revision_def require_utc_def wf_defs)

lemma wf_new_LifecycleTransition:
  assumes "wf_transition FS ev"
  shows "new_LifecycleTransition FS (ev_run_id ev) (ev_revision ev) (ev_from_state ev) (ev_to_state ev)
    (ev_occurred_at ev) (ev_actor ev) (ev_final_state ev) = Inr ev"
  using assms by (simp add: new_LifecycleTransition_def require_revision_def require_utc_def wf_defs)

section \<open>What the operations do\<close>

lemma wf_start:
  assumes "wf_run_identity i"
  shows "start_lifecycle FS i = Inr \<lparr>lc_run_id = ri_run_id i, lc_state = CONTRACT_BOUND, lc_revision = 0,
      lc_updated_at = ri_created_at i, lc_final_state = None\<rparr>"
  using assms
  by (simp add: start_lifecycle_def new_RunLifecycle_def require_revision_def require_utc_def
      check_final_def wf_defs)

lemma start_wf: "wf_run_identity i \<Longrightarrow> start_lifecycle FS i = Inr lc \<Longrightarrow> wf_lifecycle FS lc"
  by (auto simp: wf_start) (simp add: wf_defs wf_final_def)

text \<open>The event and the snapshot that an accepted transition produces.\<close>

definition next_transition ::
  "run_lifecycle \<Rightarrow> lifecycle_state \<Rightarrow> datetime \<Rightarrow> lifecycle_actor \<Rightarrow> str option \<Rightarrow> lifecycle_transition" where
  "next_transition lc to_st occurred actor fin =
    \<lparr>ev_run_id = lc_run_id lc, ev_revision = lc_revision lc + 1, ev_from_state = lc_state lc,
     ev_to_state = to_st, ev_occurred_at = occurred, ev_actor = actor, ev_final_state = fin\<rparr>"

definition next_lifecycle ::
  "run_lifecycle \<Rightarrow> lifecycle_state \<Rightarrow> datetime \<Rightarrow> str option \<Rightarrow> run_lifecycle" where
  "next_lifecycle lc to_st occurred fin =
    \<lparr>lc_run_id = lc_run_id lc, lc_state = to_st, lc_revision = lc_revision lc + 1,
     lc_updated_at = occurred, lc_final_state = fin\<rparr>"

text \<open>The conditions under which the code accepts a transition.\<close>

definition may_advance ::
  "str list \<Rightarrow> run_lifecycle \<Rightarrow> lifecycle_state \<Rightarrow> datetime \<Rightarrow> str option \<Rightarrow> bool" where
  "may_advance FS lc to_st occurred fin \<longleftrightarrow>
     dt_tz occurred = UTC \<and> to_st \<in> ALLOWED_NEXT (lc_state lc) \<and> dt_le (lc_updated_at lc) occurred \<and>
     wf_final FS to_st fin"

lemma advance_lifecycle_Inr:
  assumes "0 \<le> lc_revision lc"
  shows "advance_lifecycle FS lc to_st occurred actor fin = Inr a \<longleftrightarrow>
    may_advance FS lc to_st occurred fin \<and>
    a = \<lparr>adv_lifecycle = next_lifecycle lc to_st occurred fin,
         adv_transition = next_transition lc to_st occurred actor fin\<rparr>"
  using assms
  by (auto simp: advance_lifecycle_def may_advance_def require_utc_def require_revision_def
      require_final_state_def new_RunLifecycle_def new_LifecycleTransition_def next_lifecycle_def
      next_transition_def wf_final_def Let_def split: option.splits if_splits)

lemma advance_rejects:
  assumes "0 \<le> lc_revision lc" and "advance_lifecycle FS lc to_st occurred actor fin = Inl e"
  shows "e = ValueError \<or> e = TypeError \<or> (\<exists>c. e = LifecycleError c)"
  using assms
  by (auto simp: advance_lifecycle_def require_utc_def require_revision_def
      require_final_state_def new_RunLifecycle_def new_LifecycleTransition_def check_final_def
      Let_def split: option.splits if_splits)

lemma advance_wf:
  assumes "wf_lifecycle FS lc" and "wf_actor actor" and "valid_datetime occurred"
    and "advance_lifecycle FS lc to_st occurred actor fin = Inr a"
  shows "wf_lifecycle FS (adv_lifecycle a)" and "wf_transition FS (adv_transition a)"
  using assms
  by (auto simp: advance_lifecycle_Inr may_advance_def next_lifecycle_def next_transition_def wf_defs)

section \<open>Accepted histories\<close>

inductive lifecycle_path :: "str list \<Rightarrow> run_lifecycle \<Rightarrow> lifecycle_transition list \<Rightarrow> run_lifecycle \<Rightarrow> bool"
  for FS lc0 where
  path_start: "lifecycle_path FS lc0 [] lc0"
| path_step: "lifecycle_path FS lc0 es lc \<Longrightarrow> wf_actor actor \<Longrightarrow> valid_datetime occurred \<Longrightarrow>
     advance_lifecycle FS lc to_st occurred actor fin = Inr a \<Longrightarrow>
     lifecycle_path FS lc0 (es @ [adv_transition a]) (adv_lifecycle a)"

inductive_cases path_NilE: "lifecycle_path FS lc0 [] lc"
inductive_cases path_snocE: "lifecycle_path FS lc0 (es @ [e]) lc"

lemma path_wf:
  assumes "lifecycle_path FS lc0 es lc" and "wf_lifecycle FS lc0"
  shows "wf_lifecycle FS lc \<and> list_all (wf_transition FS) es"
  using assms by induction (auto dest: advance_wf)

text \<open>Facts kept along a path: the shape of the journal and of the snapshot it ends in.\<close>

definition journal_shape :: "run_lifecycle \<Rightarrow> lifecycle_transition list \<Rightarrow> run_lifecycle \<Rightarrow> bool" where
  "journal_shape lc0 es lc \<longleftrightarrow>
     lc_run_id lc = lc_run_id lc0 \<and>
     lc_revision lc = lc_revision lc0 + int (length es) \<and>
     map ev_revision es = map (\<lambda>k. lc_revision lc0 + 1 + int k) [0..<length es] \<and>
     list_all (\<lambda>e. ev_run_id e = lc_run_id lc0) es \<and>
     map ev_from_state es @ [lc_state lc] = lc_state lc0 # map ev_to_state es \<and>
     sorted_wrt dt_le (lc_updated_at lc0 # map ev_occurred_at es) \<and>
     last (lc_updated_at lc0 # map ev_occurred_at es) = lc_updated_at lc \<and>
     state_rank (lc_state lc0) + length es \<le> state_rank (lc_state lc)"

lemma sorted_wrt_dt_snoc:
  assumes "sorted_wrt dt_le (x # xs)" and "dt_le (last (x # xs)) y"
  shows "sorted_wrt dt_le (x # xs @ [y])"
proof -
  have "dt_le z y" if "z \<in> set (x # xs)" for z
  proof -
    have "z = last (x # xs) \<or> dt_le z (last (x # xs))"
      using assms(1) that by (metis append_butlast_last_id list.distinct(1) list.set_intros(1)
          set_append set_ConsD Un_iff sorted_wrt_append empty_iff list.set(1))
    with assms(2) show ?thesis by (auto intro: dt_le_trans)
  qed
  moreover have "sorted_wrt dt_le ((x # xs) @ [y]) \<longleftrightarrow> sorted_wrt dt_le (x # xs) \<and> (\<forall>z \<in> set (x # xs). dt_le z y)"
    by (simp only: sorted_wrt_append) simp
  ultimately show ?thesis using assms(1) by simp
qed

lemma path_shape:
  assumes "lifecycle_path FS lc0 es lc" and "wf_lifecycle FS lc0"
  shows "journal_shape lc0 es lc"
  using assms
proof induction
  case path_start
  then show ?case by (simp add: journal_shape_def)
next
  case (path_step es lc actor occurred to_st fin a)
  then have shape: "journal_shape lc0 es lc" and "wf_lifecycle FS lc"
    using path_wf by blast+
  then have adv: "may_advance FS lc to_st occurred fin"
    and a: "a = \<lparr>adv_lifecycle = next_lifecycle lc to_st occurred fin,
                 adv_transition = next_transition lc to_st occurred actor fin\<rparr>"
    using path_step.hyps by (simp_all add: advance_lifecycle_Inr wf_defs)
  have "state_rank (lc_state lc) < state_rank to_st"
    using adv allowed_increases by (auto simp: may_advance_def less_lifecycle_state_def)
  moreover have "sorted_wrt dt_le (lc_updated_at lc0 # map ev_occurred_at es @ [occurred])"
    using shape adv by (intro sorted_wrt_dt_snoc) (auto simp: journal_shape_def may_advance_def)
  ultimately show ?case
    using shape by (auto simp: journal_shape_def a next_lifecycle_def next_transition_def)
qed

lemma path_bounded:
  assumes "lifecycle_path FS lc0 es lc" and "wf_lifecycle FS lc0"
  shows "length es \<le> 6"
  using path_shape [OF assms] state_rank_le [of "lc_state lc"] by (simp add: journal_shape_def)

lemma path_append:
  assumes "lifecycle_path FS lc1 es2 lc2" and "lifecycle_path FS lc0 es1 lc1"
  shows "lifecycle_path FS lc0 (es1 @ es2) lc2"
  using assms
proof induction
  case path_start
  then show ?case by simp
next
  case (path_step es lc actor occurred to_st fin a)
  then show ?case
    using lifecycle_path.path_step [of FS lc0 "es1 @ es" lc actor occurred to_st fin a] by simp
qed

text \<open>The events determine the snapshot they lead to.\<close>

lemma path_functional:
  assumes "lifecycle_path FS lc0 es lc" and "lifecycle_path FS lc0 es lc'" and "wf_lifecycle FS lc0"
  shows "lc = lc'"
  using assms
proof (induction arbitrary: lc')
  case path_start
  from path_start.prems(1) show ?case by (auto elim: path_NilE)
next
  case (path_step es lc actor occurred to_st fin a)
  from path_step.prems(1) obtain lc1 actor1 at1 to1 fin1 a1 where
    p: "lifecycle_path FS lc0 es lc1" "advance_lifecycle FS lc1 to1 at1 actor1 fin1 = Inr a1"
    and eq: "adv_transition a = adv_transition a1" "lc' = adv_lifecycle a1"
    by (auto elim: path_snocE)
  have same: "lc1 = lc" using path_step.IH p(1) path_step.prems(2) by blast
  have "wf_lifecycle FS lc" using path_step.hyps(1) path_step.prems(2) path_wf by blast
  then show ?case
    using p(2) path_step.hyps eq unfolding same
    by (auto simp: advance_lifecycle_Inr wf_defs next_transition_def next_lifecycle_def)
qed

end
