(* ===== verification/RunState.thy ===== *)
theory RunState
  imports Lifecycle
begin

text \<open>
  \<open>domain/state.py\<close>: the checkpoint that binds a run identity to its lifecycle snapshot,
  and the state update that a store is asked to append: a compare-and-swap precondition and
  the advance. \<open>new_StateUpdate\<close> repeats the checks of \<open>StateUpdate.__post_init__\<close> in
  their order. An update prepared by \<open>prepare_state_update\<close> passes them
  (\<open>prepare_state_update_Inr\<close>); they are weaker than the lifecycle policy, which
  \<open>poisoned_run\<close> in \<open>StoreReachability\<close> draws a consequence of.
\<close>

record run_checkpoint =
  cp_identity :: run_identity
  cp_lifecycle :: run_lifecycle

definition new_RunCheckpoint :: "run_identity \<Rightarrow> run_lifecycle \<Rightarrow> run_checkpoint res" where
  "new_RunCheckpoint i lc =
    (if ri_run_id i \<noteq> lc_run_id lc then Inl (StateInvariantError SI_RUN_MISMATCH)
     else if dt_less (lc_updated_at lc) (ri_created_at i) then Inl (StateInvariantError SI_TIME_REGRESSION)
     else Inr \<lparr>cp_identity = i, cp_lifecycle = lc\<rparr>)"

record state_update =
  up_expected :: run_checkpoint
  up_advance :: lifecycle_advance

definition new_StateUpdate :: "run_checkpoint \<Rightarrow> lifecycle_advance \<Rightarrow> state_update res" where
  "new_StateUpdate expected advance =
    (let current = cp_lifecycle expected;
         updated = adv_lifecycle advance;
         event = adv_transition advance in
     if lc_run_id current \<noteq> lc_run_id updated \<or> lc_run_id current \<noteq> ev_run_id event
       then Inl (StateInvariantError SI_RUN_MISMATCH)
     else if lc_revision updated \<noteq> lc_revision current + 1 \<or> ev_revision event \<noteq> lc_revision updated
       then Inl (StateInvariantError SI_REVISION_MISMATCH)
     else if ev_from_state event \<noteq> lc_state current \<or> ev_to_state event \<noteq> lc_state updated
       then Inl (StateInvariantError SI_STATE_MISMATCH)
     else if dt_less (ev_occurred_at event) (lc_updated_at current)
       then Inl (StateInvariantError SI_TIME_REGRESSION)
     else if ev_occurred_at event \<noteq> lc_updated_at updated \<or> ev_final_state event \<noteq> lc_final_state updated
       then Inl (StateInvariantError SI_EVENT_MISMATCH)
     else Inr \<lparr>up_expected = expected, up_advance = advance\<rparr>)"

definition next_checkpoint :: "state_update \<Rightarrow> run_checkpoint res" where
  "next_checkpoint u = new_RunCheckpoint (cp_identity (up_expected u)) (adv_lifecycle (up_advance u))"

definition create_initial_checkpoint :: "str list \<Rightarrow> run_identity \<Rightarrow> run_checkpoint res" where
  "create_initial_checkpoint FS i = sum_bind (start_lifecycle FS i) (\<lambda>lc. new_RunCheckpoint i lc)"

definition prepare_state_update ::
  "str list \<Rightarrow> run_checkpoint \<Rightarrow> lifecycle_state \<Rightarrow> datetime \<Rightarrow> lifecycle_actor \<Rightarrow> str option \<Rightarrow>
   state_update res" where
  "prepare_state_update FS cp to_st occurred actor fin =
    sum_bind (advance_lifecycle FS (cp_lifecycle cp) to_st occurred actor fin) (\<lambda>a. new_StateUpdate cp a)"

section \<open>Well-formed checkpoints\<close>

definition wf_checkpoint :: "str list \<Rightarrow> run_checkpoint \<Rightarrow> bool" where
  "wf_checkpoint FS cp \<longleftrightarrow>
     wf_run_identity (cp_identity cp) \<and> wf_lifecycle FS (cp_lifecycle cp) \<and>
     ri_run_id (cp_identity cp) = lc_run_id (cp_lifecycle cp) \<and>
     dt_le (ri_created_at (cp_identity cp)) (lc_updated_at (cp_lifecycle cp))"

text \<open>An update of well-formed parts: the next revision of the same run, with the event of the step.\<close>

definition wf_update :: "str list \<Rightarrow> state_update \<Rightarrow> bool" where
  "wf_update FS u \<longleftrightarrow>
     wf_checkpoint FS (up_expected u) \<and> wf_lifecycle FS (adv_lifecycle (up_advance u)) \<and>
     wf_transition FS (adv_transition (up_advance u)) \<and>
     (let current = cp_lifecycle (up_expected u);
          updated = adv_lifecycle (up_advance u);
          event = adv_transition (up_advance u) in
      lc_run_id updated = lc_run_id current \<and> ev_run_id event = lc_run_id current \<and>
      lc_revision updated = lc_revision current + 1 \<and> ev_revision event = lc_revision current + 1 \<and>
      ev_from_state event = lc_state current \<and> ev_to_state event = lc_state updated \<and>
      dt_le (lc_updated_at current) (lc_updated_at updated) \<and> ev_occurred_at event = lc_updated_at updated \<and>
      ev_final_state event = lc_final_state updated)"

lemma new_RunCheckpoint_Inr:
  "new_RunCheckpoint i lc = Inr cp \<longleftrightarrow>
     cp = \<lparr>cp_identity = i, cp_lifecycle = lc\<rparr> \<and> ri_run_id i = lc_run_id lc \<and>
     dt_le (ri_created_at i) (lc_updated_at lc)"
  by (auto simp: new_RunCheckpoint_def)

lemma new_StateUpdate_Inr:
  "new_StateUpdate cp a = Inr u \<longleftrightarrow>
     u = \<lparr>up_expected = cp, up_advance = a\<rparr> \<and>
     lc_run_id (adv_lifecycle a) = lc_run_id (cp_lifecycle cp) \<and>
     lc_revision (adv_lifecycle a) = lc_revision (cp_lifecycle cp) + 1 \<and>
     dt_le (lc_updated_at (cp_lifecycle cp)) (lc_updated_at (adv_lifecycle a)) \<and>
     adv_transition a = next_transition (cp_lifecycle cp) (lc_state (adv_lifecycle a))
       (lc_updated_at (adv_lifecycle a)) (ev_actor (adv_transition a)) (lc_final_state (adv_lifecycle a))"
proof -
  have "a = b \<longleftrightarrow> ev_run_id a = ev_run_id b \<and> ev_revision a = ev_revision b \<and>
      ev_from_state a = ev_from_state b \<and> ev_to_state a = ev_to_state b \<and>
      ev_occurred_at a = ev_occurred_at b \<and> ev_actor a = ev_actor b \<and>
      ev_final_state a = ev_final_state b" for a b :: lifecycle_transition
    by auto
  then show ?thesis
    by (auto simp: new_StateUpdate_def Let_def next_transition_def split: if_splits)
qed

lemma wf_checkpoint_new [wf_defs]:
  "wf_checkpoint FS cp \<longleftrightarrow>
     wf_run_identity (cp_identity cp) \<and> wf_lifecycle FS (cp_lifecycle cp) \<and>
     new_RunCheckpoint (cp_identity cp) (cp_lifecycle cp) = Inr cp"
  by (auto simp: wf_checkpoint_def new_RunCheckpoint_Inr)

lemma wf_update_new [wf_defs]:
  "wf_update FS u \<longleftrightarrow>
     wf_checkpoint FS (up_expected u) \<and> wf_lifecycle FS (adv_lifecycle (up_advance u)) \<and>
     wf_transition FS (adv_transition (up_advance u)) \<and>
     new_StateUpdate (up_expected u) (up_advance u) = Inr u"
  by (cases u) (auto simp: wf_update_def new_StateUpdate_def Let_def)

lemma create_initial_checkpoint_wf:
  assumes "wf_run_identity i"
  shows "\<exists>cp. create_initial_checkpoint FS i = Inr cp \<and> wf_checkpoint FS cp \<and> cp_identity cp = i \<and>
    start_lifecycle FS i = Inr (cp_lifecycle cp)"
  using assms start_wf [OF assms, of FS]
  by (auto simp: create_initial_checkpoint_def wf_start new_RunCheckpoint_Inr wf_checkpoint_new)

lemma next_checkpoint_wf:
  assumes "wf_update FS u"
  shows "next_checkpoint u = Inr \<lparr>cp_identity = cp_identity (up_expected u),
      cp_lifecycle = adv_lifecycle (up_advance u)\<rparr>"
    and "wf_checkpoint FS \<lparr>cp_identity = cp_identity (up_expected u),
      cp_lifecycle = adv_lifecycle (up_advance u)\<rparr>"
  using assms
  by (auto simp: next_checkpoint_def wf_update_new wf_checkpoint_new new_RunCheckpoint_Inr
      new_StateUpdate_Inr intro: dt_le_trans)

section \<open>Prepared updates\<close>

lemma prepare_state_update_Inr:
  assumes "wf_checkpoint FS cp"
  shows "prepare_state_update FS cp to_st occurred actor fin = Inr u \<longleftrightarrow>
    may_advance FS (cp_lifecycle cp) to_st occurred fin \<and>
    u = \<lparr>up_expected = cp,
         up_advance = \<lparr>adv_lifecycle = next_lifecycle (cp_lifecycle cp) to_st occurred fin,
                      adv_transition = next_transition (cp_lifecycle cp) to_st occurred actor fin\<rparr>\<rparr>"
proof -
  have "0 \<le> lc_revision (cp_lifecycle cp)"
    using assms by (simp add: wf_checkpoint_new wf_lifecycle_def)
  then show ?thesis
    by (auto simp: prepare_state_update_def advance_lifecycle_Inr new_StateUpdate_Inr
        next_lifecycle_def next_transition_def may_advance_def)
qed

lemma prepare_state_update_error:
  assumes "wf_checkpoint FS cp" and "prepare_state_update FS cp to_st occurred actor fin = Inl e"
  shows "advance_lifecycle FS (cp_lifecycle cp) to_st occurred actor fin = Inl e"
proof (cases "advance_lifecycle FS (cp_lifecycle cp) to_st occurred actor fin")
  case (Inl e')
  with assms show ?thesis by (simp add: prepare_state_update_def)
next
  case (Inr a)
  moreover have "0 \<le> lc_revision (cp_lifecycle cp)"
    using assms by (simp add: wf_checkpoint_new wf_lifecycle_def)
  ultimately have "may_advance FS (cp_lifecycle cp) to_st occurred fin"
    by (simp add: advance_lifecycle_Inr)
  then have "\<exists>u. prepare_state_update FS cp to_st occurred actor fin = Inr u"
    using assms(1) by (simp add: prepare_state_update_Inr)
  with assms(2) show ?thesis by simp
qed

lemma completed_prepares_nothing:
  assumes "lc_state (cp_lifecycle cp) = COMPLETED"
  shows "isl (prepare_state_update FS cp to_st t actor fin)"
  using assms by (auto simp: prepare_state_update_def advance_lifecycle_def require_utc_def Let_def)

lemma prepared_update_wf:
  assumes "wf_checkpoint FS cp" and "wf_actor actor" and "valid_datetime occurred"
    and "prepare_state_update FS cp to_st occurred actor fin = Inr u"
  shows "wf_update FS u" and "up_expected u = cp"
    and "advance_lifecycle FS (cp_lifecycle cp) to_st occurred actor fin = Inr (up_advance u)"
proof -
  have lc: "wf_lifecycle FS (cp_lifecycle cp)" "0 \<le> lc_revision (cp_lifecycle cp)"
    using assms(1) by (simp_all add: wf_checkpoint_new wf_lifecycle_def)
  obtain a where a: "advance_lifecycle FS (cp_lifecycle cp) to_st occurred actor fin = Inr a"
    and u: "new_StateUpdate cp a = Inr u"
    using assms(4) by (auto simp: prepare_state_update_def)
  from u have ua: "up_expected u = cp" "up_advance u = a"
    by (simp_all add: new_StateUpdate_Inr)
  with a show "up_expected u = cp"
    and "advance_lifecycle FS (cp_lifecycle cp) to_st occurred actor fin = Inr (up_advance u)"
    by simp_all
  show "wf_update FS u"
    using advance_wf [OF lc(1) assms(2,3) a] assms(1) u ua by (simp add: wf_update_new)
qed

end
