(* ===== verification/StateSerialization.thy ===== *)
theory StateSerialization
  imports RunState
begin

text \<open>
  \<open>adapters/local/state_serialization.py\<close>: canonical versioned JSON for run identities,
  checkpoints and lifecycle transitions. \<open>state_dump\<close> and \<open>state_load\<close> are \<open>_dump\<close> and
  \<open>_load\<close>; the payload functions build the dictionaries in the order of the source and the
  readers take them apart with its checks. The interpreter is the parameter \<open>py\<close> (its conversion
  of float lexemes, though no accepted value holds a float, and its levels of nesting), the
  canonical final states are \<open>FS\<close>. The payloads nest at most twice, within the guaranteed
  levels; \<open>_load\<close> encodes again whatever it decoded, so there \<open>_dump\<close> is \<open>state_dump_within\<close>.
\<close>

section \<open>Hooks, dump and load\<close>

definition STATE_FORMAT_VERSION :: int where "STATE_FORMAT_VERSION = 1"

definition IDENTITY_FORMAT :: str where "IDENTITY_FORMAT = lit ''alicerce.run_identity''"
definition CHECKPOINT_FORMAT :: str where "CHECKPOINT_FORMAT = lit ''alicerce.run_checkpoint''"
definition TRANSITION_FORMAT :: str where "TRANSITION_FORMAT = lit ''alicerce.lifecycle_transition''"

text \<open>The loop that builds a dictionary and raises at the first repeated key.\<close>

definition build_object :: "exn \<Rightarrow> (str \<times> json) list \<Rightarrow> json res" where
  "build_object dup pairs =
    sum_bind (fold_res (\<lambda>result kv. if fst kv \<in> fst ` set result then Inl dup else Inr (result @ [kv])) [] pairs)
      (\<lambda>result. Inr (JObj result))"

definition duplicate_rejecting_object :: "(str \<times> json) list \<Rightarrow> json res" where
  "duplicate_rejecting_object pairs = build_object StateSerializationError pairs"

definition reject_json_constant :: "str \<Rightarrow> json res" where
  "reject_json_constant v = Inl StateSerializationError"

definition state_reader :: "interpreter \<Rightarrow> json_reader" where
  "state_reader py = \<lparr>parse_float = float_text py, object_pairs_hook = duplicate_rejecting_object,
     parse_constant = reject_json_constant, spare_levels = spare_decoder_levels py\<rparr>"

definition state_dump :: "json \<Rightarrow> bytes res" where
  "state_dump v = catching is_type_or_value_error StateSerializationError
     (sum_bind (json_dumps v) utf8_encode)"

definition state_dump_within :: "nat \<Rightarrow> json \<Rightarrow> bytes res" where
  "state_dump_within d v = catching is_type_or_value_error StateSerializationError
     (sum_bind (json_dumps_within d v) utf8_encode)"

definition state_load :: "interpreter \<Rightarrow> bytes \<Rightarrow> json res" where
  "state_load py data =
    sum_bind (catching (\<lambda>e. e = UnicodeDecodeError \<or> e = JSONDecodeError) StateSerializationError
        (sum_bind (utf8_decode data) (json_loads (state_reader py)))) (\<lambda>v.
    case v of
      JObj kvs \<Rightarrow> sum_bind (state_dump_within (encoder_levels py) v) (\<lambda>b.
        if b \<noteq> data then Inl StateSerializationError else Inr v)
    | _ \<Rightarrow> Inl StateSerializationError)"

section \<open>Typed access to decoded values\<close>

definition object_fields :: "json \<Rightarrow> str list \<Rightarrow> (str \<times> json) list res" where
  "object_fields v keys = (case v of
      JObj kvs \<Rightarrow> if fst ` set kvs \<noteq> set keys then Inl StateSerializationError else Inr kvs
    | _ \<Rightarrow> Inl StateSerializationError)"

text \<open>\<open>payload[key]\<close>\<close>

definition field :: "(str \<times> json) list \<Rightarrow> string \<Rightarrow> json res" where
  "field p k = (case map_of p (lit k) of None \<Rightarrow> Inl KeyError | Some v \<Rightarrow> Inr v)"

definition text_value :: "json \<Rightarrow> str res" where
  "text_value v = (case v of JStr t \<Rightarrow> Inr t | _ \<Rightarrow> Inl StateSerializationError)"

definition optional_text :: "json \<Rightarrow> str option res" where
  "optional_text v = (case v of JNull \<Rightarrow> Inr None | _ \<Rightarrow> sum_bind (text_value v) (\<lambda>t. Inr (Some t)))"

definition integer_value :: "json \<Rightarrow> int res" where
  "integer_value v = (case v of JInt i \<Rightarrow> Inr i | _ \<Rightarrow> Inl StateSerializationError)"

definition text_at :: "(str \<times> json) list \<Rightarrow> string \<Rightarrow> str res" where
  "text_at p k = sum_bind (field p k) text_value"

definition check_header :: "(str \<times> json) list \<Rightarrow> str \<Rightarrow> unit res" where
  "check_header p expected_format =
    sum_bind (field p ''format'') (\<lambda>f.
      if f \<noteq> JStr expected_format then Inl StateSerializationError
      else sum_bind (field p ''version'') (\<lambda>v. sum_bind (integer_value v) (\<lambda>i.
        if i \<noteq> STATE_FORMAT_VERSION then Inl StateSerializationError else Inr ())))"

definition timestamp :: "datetime \<Rightarrow> str res" where
  "timestamp d = (if dt_tz d \<noteq> UTC then Inl ValueError else Inr (strftime d))"

definition parse_timestamp :: "json \<Rightarrow> datetime res" where
  "parse_timestamp v =
    sum_bind (text_value v) (\<lambda>t.
      case strptime t of
        None \<Rightarrow> Inl StateSerializationError
      | Some d \<Rightarrow>
          let parsed = d\<lparr>dt_tz := UTC\<rparr> in
          sum_bind (timestamp parsed) (\<lambda>t'. if t' \<noteq> t then Inl StateSerializationError else Inr parsed))"

definition opt_json :: "str option \<Rightarrow> json" where
  "opt_json f = (case f of None \<Rightarrow> JNull | Some t \<Rightarrow> JStr t)"

section \<open>Run identities\<close>

definition IDENTITY_KEYS :: "str list" where
  "IDENTITY_KEYS = map lit [''baseline_sha'', ''contract_hash'', ''contract_id'', ''contract_version'',
     ''created_at'', ''format'', ''policy_hash'', ''run_id'', ''version'']"

definition identity_payload :: "run_identity \<Rightarrow> json res" where
  "identity_payload i =
    sum_bind (timestamp (ri_created_at i)) (\<lambda>created. Inr (JObj
      [(lit ''baseline_sha'', JStr (baseline_sha_value (ri_baseline_sha i))),
       (lit ''contract_hash'', JStr (contract_hash_value (ri_contract_hash i))),
       (lit ''contract_id'', JStr (contract_id_value (ri_contract_id i))),
       (lit ''contract_version'', JStr (contract_version_value (ri_contract_version i))),
       (lit ''created_at'', JStr created),
       (lit ''format'', JStr IDENTITY_FORMAT),
       (lit ''policy_hash'', JStr (policy_hash_value (ri_policy_hash i))),
       (lit ''run_id'', JStr (run_id_value (ri_run_id i))),
       (lit ''version'', JInt STATE_FORMAT_VERSION)]))"

definition identity_from_payload :: "json \<Rightarrow> run_identity res" where
  "identity_from_payload v =
    sum_bind (object_fields v IDENTITY_KEYS) (\<lambda>p.
    sum_bind (check_header p IDENTITY_FORMAT) (\<lambda>_.
    catching is_type_or_value_error StateSerializationError (
      sum_bind (text_at p ''run_id'') (\<lambda>t. sum_bind (new_RunId t) (\<lambda>rid.
      sum_bind (text_at p ''contract_id'') (\<lambda>t. sum_bind (new_ContractId t) (\<lambda>cid.
      sum_bind (text_at p ''contract_version'') (\<lambda>t. sum_bind (new_ContractVersion t) (\<lambda>ver.
      sum_bind (text_at p ''contract_hash'') (\<lambda>t. sum_bind (new_ContractHash t) (\<lambda>chash.
      sum_bind (text_at p ''baseline_sha'') (\<lambda>t. sum_bind (new_BaselineSha t) (\<lambda>base.
      sum_bind (text_at p ''policy_hash'') (\<lambda>t. sum_bind (new_PolicyHash t) (\<lambda>pol.
      sum_bind (field p ''created_at'') (\<lambda>c. sum_bind (parse_timestamp c) (\<lambda>created.
        new_RunIdentity rid cid ver chash base pol created))))))))))))))))) "

definition serialize_run_identity :: "run_identity \<Rightarrow> bytes res" where
  "serialize_run_identity i = sum_bind (identity_payload i) state_dump"

definition deserialize_run_identity :: "interpreter \<Rightarrow> bytes \<Rightarrow> run_identity res" where
  "deserialize_run_identity py data = sum_bind (state_load py data) identity_from_payload"

section \<open>Checkpoints\<close>

definition CHECKPOINT_KEYS :: "str list" where
  "CHECKPOINT_KEYS = map lit [''final_state'', ''format'', ''identity'', ''revision'', ''state'',
     ''updated_at'', ''version'']"

definition checkpoint_payload :: "run_checkpoint \<Rightarrow> json res" where
  "checkpoint_payload cp =
    (let lc = cp_lifecycle cp in
     sum_bind (identity_payload (cp_identity cp)) (\<lambda>ident.
     sum_bind (timestamp (lc_updated_at lc)) (\<lambda>updated. Inr (JObj
       [(lit ''final_state'', opt_json (lc_final_state lc)),
        (lit ''format'', JStr CHECKPOINT_FORMAT),
        (lit ''identity'', ident),
        (lit ''revision'', JInt (lc_revision lc)),
        (lit ''state'', JStr (state_value (lc_state lc))),
        (lit ''updated_at'', JStr updated),
        (lit ''version'', JInt STATE_FORMAT_VERSION)]))))"

definition serialize_checkpoint :: "run_checkpoint \<Rightarrow> bytes res" where
  "serialize_checkpoint cp = sum_bind (checkpoint_payload cp) state_dump"

definition checkpoint_from_payload :: "str list \<Rightarrow> json \<Rightarrow> run_checkpoint res" where
  "checkpoint_from_payload FS v =
    sum_bind (object_fields v CHECKPOINT_KEYS) (\<lambda>p.
    sum_bind (check_header p CHECKPOINT_FORMAT) (\<lambda>_.
    catching is_type_or_value_error StateSerializationError (
      sum_bind (field p ''identity'') (\<lambda>iv. sum_bind (identity_from_payload iv) (\<lambda>ident.
      sum_bind (text_at p ''state'') (\<lambda>t. sum_bind (new_LifecycleState t) (\<lambda>st.
      sum_bind (field p ''revision'') (\<lambda>r. sum_bind (integer_value r) (\<lambda>revision.
      sum_bind (field p ''updated_at'') (\<lambda>u. sum_bind (parse_timestamp u) (\<lambda>updated.
      sum_bind (field p ''final_state'') (\<lambda>f. sum_bind (optional_text f) (\<lambda>fin.
      sum_bind (new_RunLifecycle FS (ri_run_id ident) st revision updated fin) (\<lambda>lc.
        new_RunCheckpoint ident lc))))))))))))))"

definition deserialize_checkpoint :: "interpreter \<Rightarrow> str list \<Rightarrow> bytes \<Rightarrow> run_checkpoint res" where
  "deserialize_checkpoint py FS data = sum_bind (state_load py data) (checkpoint_from_payload FS)"

section \<open>Transitions\<close>

definition TRANSITION_KEYS :: "str list" where
  "TRANSITION_KEYS = map lit [''actor'', ''final_state'', ''format'', ''from_state'', ''occurred_at'',
     ''revision'', ''run_id'', ''to_state'', ''version'']"

definition transition_payload :: "lifecycle_transition \<Rightarrow> json res" where
  "transition_payload ev =
    sum_bind (timestamp (ev_occurred_at ev)) (\<lambda>occurred. Inr (JObj
      [(lit ''actor'', JStr (actor_value (ev_actor ev))),
       (lit ''final_state'', opt_json (ev_final_state ev)),
       (lit ''format'', JStr TRANSITION_FORMAT),
       (lit ''from_state'', JStr (state_value (ev_from_state ev))),
       (lit ''occurred_at'', JStr occurred),
       (lit ''revision'', JInt (ev_revision ev)),
       (lit ''run_id'', JStr (run_id_value (ev_run_id ev))),
       (lit ''to_state'', JStr (state_value (ev_to_state ev))),
       (lit ''version'', JInt STATE_FORMAT_VERSION)]))"

definition serialize_transition :: "lifecycle_transition \<Rightarrow> bytes res" where
  "serialize_transition ev = sum_bind (transition_payload ev) state_dump"

definition transition_from_payload :: "str list \<Rightarrow> json \<Rightarrow> lifecycle_transition res" where
  "transition_from_payload FS v =
    sum_bind (object_fields v TRANSITION_KEYS) (\<lambda>p.
    sum_bind (check_header p TRANSITION_FORMAT) (\<lambda>_.
    catching is_type_or_value_error StateSerializationError (
      sum_bind (text_at p ''run_id'') (\<lambda>t. sum_bind (new_RunId t) (\<lambda>rid.
      sum_bind (field p ''revision'') (\<lambda>r. sum_bind (integer_value r) (\<lambda>revision.
      sum_bind (text_at p ''from_state'') (\<lambda>t. sum_bind (new_LifecycleState t) (\<lambda>from_st.
      sum_bind (text_at p ''to_state'') (\<lambda>t. sum_bind (new_LifecycleState t) (\<lambda>to_st.
      sum_bind (field p ''occurred_at'') (\<lambda>c. sum_bind (parse_timestamp c) (\<lambda>occurred.
      sum_bind (text_at p ''actor'') (\<lambda>t. sum_bind (new_LifecycleActor t) (\<lambda>actor.
      sum_bind (field p ''final_state'') (\<lambda>f. sum_bind (optional_text f) (\<lambda>fin.
        new_LifecycleTransition FS rid revision from_st to_st occurred actor fin)))))))))))))))))"

definition deserialize_transition :: "interpreter \<Rightarrow> str list \<Rightarrow> bytes \<Rightarrow> lifecycle_transition res" where
  "deserialize_transition py FS data = sum_bind (state_load py data) (transition_from_payload FS)"

end
