(* ===== verification/StateCodec.thy ===== *)
theory StateCodec
  imports StateSerialization
begin

text \<open>
  What the state codec guarantees: a value that serializes is read back unchanged, and
  accepted bytes are exactly the bytes the accepted value serializes to, so that identities,
  checkpoints and transitions have one encoding each. The reader accepts a payload exactly
  when its fields are those of a well-formed value (\<open>identity_from_payload_iff\<close> and its
  companions).
\<close>

section \<open>The hooks of the reader\<close>

lemma build_object_Inr:
  "build_object dup kvs = Inr j \<longleftrightarrow> j = JObj kvs \<and> distinct (map fst kvs)"
proof -
  have "fold_res (\<lambda>result kv. if fst kv \<in> fst ` set result then Inl dup else Inr (result @ [kv])) acc kvs = Inr r
      \<longleftrightarrow> r = acc @ kvs \<and> distinct (map fst kvs) \<and> fst ` set acc \<inter> fst ` set kvs = {}" for acc r
    by (induction kvs arbitrary: acc) auto
  then show ?thesis by (auto simp: build_object_def)
qed

lemma build_object_Inl: "build_object dup kvs = Inl e \<Longrightarrow> e = dup"
proof -
  have "fold_res (\<lambda>result kv. if fst kv \<in> fst ` set result then Inl dup else Inr (result @ [kv])) acc kvs = Inl e
      \<Longrightarrow> e = dup" for acc
    by (induction kvs arbitrary: acc) (auto split: if_splits)
  then show "build_object dup kvs = Inl e \<Longrightarrow> e = dup"
    by (auto simp: build_object_def sum_bind_eq_Inl)
qed

lemma state_reader_builds [simp]: "builds_objects (state_reader py)"
  by (auto simp: builds_objects_def state_reader_def duplicate_rejecting_object_def build_object_Inr)

lemma state_reader_levels [simp]: "reader_levels (state_reader py) = decoder_levels py"
  by (simp add: reader_levels_def decoder_levels_def state_reader_def)

lemma state_reader_terminates [simp]: "hooks_terminate (state_reader py)"
  by (auto simp: hooks_terminate_def state_reader_def duplicate_rejecting_object_def
      reject_json_constant_def dest!: build_object_Inl)

section \<open>Decoded values have distinct keys\<close>

fun keys_distinct :: "json \<Rightarrow> bool" where
  "keys_distinct (JArr js) = list_all keys_distinct js"
| "keys_distinct (JObj kvs) = (distinct (map fst kvs) \<and> list_all (\<lambda>kv. keys_distinct (snd kv)) kvs)"
| "keys_distinct j = True"

text \<open>A reader whose object hook rejects repeated keys and whose constant hook raises.\<close>

definition strict_reader :: "json_reader \<Rightarrow> bool" where
  "strict_reader rd \<longleftrightarrow>
     (\<forall>kvs j. object_pairs_hook rd kvs = Inr j \<longrightarrow> j = JObj kvs \<and> distinct (map fst kvs)) \<and>
     (\<forall>t j. parse_constant rd t \<noteq> Inr j)"

lemma state_reader_strict [simp]: "strict_reader (state_reader py)"
  by (simp add: strict_reader_def state_reader_def duplicate_rejecting_object_def
      reject_json_constant_def build_object_Inr)

lemma p_word_scalar:
  assumes "strict_reader rd" and "p_word rd s = Inr (j, r)"
  shows "keys_distinct j"
  using assms
  by (auto simp: p_word_def p_number_def strict_reader_def Let_def
      split: if_splits option.splits prod.splits)

lemma p_word_within: "strict_reader rd \<Longrightarrow> p_word rd s = Inr (j, r) \<Longrightarrow> json_within d j"
  by (auto simp: p_word_def p_number_def strict_reader_def Let_def
      split: if_splits option.splits prod.splits)

text \<open>What was decoded has distinct keys and nests no deeper than the levels admit.\<close>

definition decoded :: "nat \<Rightarrow> json \<Rightarrow> bool" where
  "decoded d j \<longleftrightarrow> keys_distinct j \<and> json_within d j"

lemma p_decoded:
  assumes "strict_reader rd"
  shows "p_value rd d n s = Inr (j, r) \<Longrightarrow> decoded d j"
    and "p_elems rd d n s = Inr (js, r) \<Longrightarrow> list_all (decoded d) js"
    and "p_members rd d n s = Inr (kvs, r) \<Longrightarrow> list_all (\<lambda>kv. decoded d (snd kv)) kvs"
proof (induction n arbitrary: d s j r js kvs)
  case 0
  { case 1 then show ?case by simp }
  { case 2 then show ?case by simp }
  { case 3 then show ?case by simp }
next
  case (Suc n)
  have obj: "decoded d j"
    if "object_pairs_hook rd kvs = Inr j" "list_all (\<lambda>kv. decoded (d - 1) (snd kv)) kvs" "0 < d" for d kvs j
  proof -
    have "j = JObj kvs \<and> distinct (map fst kvs)"
      using that(1) assms unfolding strict_reader_def by blast
    then show ?thesis using that(2,3) by (simp add: decoded_def list_all_iff)
  qed
  have arr: "decoded d (JArr js)" if "list_all (decoded (d - 1)) js" "0 < d" for d js
    using that by (simp add: decoded_def list_all_iff)
  have word: "decoded d j" if "p_word rd s = Inr (j, r)" for d j r s
    using p_word_scalar [OF assms that] p_word_within [OF assms that] by (simp add: decoded_def)
  have str: "decoded d (JStr t)" for d t by (simp add: decoded_def)
  { case 1
    then obtain c r0 where s: "s = c # r0" by (cases s) auto
    from 1 show ?case
      unfolding s using obj arr word str
      by (auto split: if_splits dest!: Suc.IH(2,3)) }
  { case 2
    then show ?case by (auto split: if_splits dest: Suc.IH(1,2)) }
  { case 3
    then show ?case by (auto split: if_splits dest: Suc.IH(1,3)) }
qed

lemma json_loads_decoded:
  assumes "strict_reader rd" and "json_loads rd t = Inr j"
  shows "keys_distinct j" and "json_within (reader_levels rd) j"
  using assms p_decoded(1) [OF assms(1)]
  by (fastforce simp: json_loads_def decoded_def simp del: p_value.simps split: if_splits)+

fun no_floats :: "json \<Rightarrow> bool" where
  "no_floats (JFloat r) = False"
| "no_floats (JArr js) = list_all no_floats js"
| "no_floats (JObj kvs) = list_all (\<lambda>kv. no_floats (snd kv)) kvs"
| "no_floats j = True"

lemma plain_iff: "plain j \<longleftrightarrow> no_floats j \<and> keys_distinct j \<and> dumpable j"
  by (induction j rule: plain.induct) (auto simp: list_all_iff)

section \<open>Loading what was dumped\<close>

lemma state_dump_Inr:
  "state_dump v = Inr b \<longleftrightarrow> dumpable v \<and> utf8_encode (json_text v) = Inr b"
  by (auto simp: state_dump_def json_dumps_def)

lemma state_dump_Inl: "state_dump v = Inl e \<Longrightarrow> e = StateSerializationError"
proof -
  have enc: "utf8_encode t = Inl x \<Longrightarrow> x = UnicodeEncodeError" for t x
    by (induction t) (auto simp: sum_bind_eq_Inl split: option.splits)
  show "state_dump v = Inl e \<Longrightarrow> e = StateSerializationError"
    by (auto simp: state_dump_def json_dumps_def catching_def is_type_or_value_error_def
        split: sum.splits if_splits dest: enc)
qed

lemma state_dump_within_Inr:
  "state_dump_within d v = Inr b \<longleftrightarrow> json_within d v \<and> state_dump v = Inr b"
  by (auto simp: state_dump_within_def state_dump_def json_dumps_within_Inr)

lemma json_within_levels:
  assumes "json_within guaranteed_levels v"
  shows "json_within (decoder_levels py) v" and "json_within (encoder_levels py) v"
  by (rule json_within_mono [OF assms]; simp add: decoder_levels_def encoder_levels_def)+

lemma json_within_norm: "json_within d v \<Longrightarrow> json_within d (json_norm v)"
  by (induction d v rule: json_within.induct) (auto simp: list_all_iff)

lemma state_load_dump:
  assumes "state_dump (JObj kvs) = Inr b" and "plain (JObj kvs)" and "json_within guaranteed_levels (JObj kvs)"
  shows "state_load py b = Inr (json_norm (JObj kvs))"
proof -
  have "utf8_decode b = Inr (json_text (JObj kvs))"
    using assms(1) by (metis state_dump_Inr utf8_roundtrip)
  moreover have "json_loads (state_reader py) (json_text (JObj kvs)) = Inr (json_norm (JObj kvs))"
    using assms(2,3) by (intro json_loads_dumps) (simp_all add: json_within_levels del: json_within.simps)
  moreover have "state_dump_within (encoder_levels py) (json_norm (JObj kvs)) = Inr b"
    using assms json_within_norm json_within_levels(2)
    by (simp only: state_dump_within_Inr state_dump_Inr dumpable_norm json_text_norm)
  moreover obtain ks where "json_norm (JObj kvs) = JObj ks" by simp
  ultimately show ?thesis by (simp add: state_load_def del: json_norm.simps json_text.simps)
qed

text \<open>Two objects in key order with the same keys have them in the same places.\<close>

lemma norm_object_keys:
  assumes "json_norm (JObj kvs) = JObj kvs" and "keys_distinct (JObj kvs)"
    and "fst ` set kvs = set keys" and "sorted keys" and "distinct keys"
  shows "map fst kvs = keys"
proof -
  have "sorted (map fst (sort_key fst (map (\<lambda>kv. (fst kv, json_norm (snd kv))) kvs)))"
    by simp
  with assms(1) have "sorted (map fst kvs)" by simp
  then show ?thesis
    using assms(2-5) by (intro sorted_distinct_set_unique) simp_all
qed

lemma norm_object_values:
  assumes "json_norm (JObj kvs) = JObj kvs" and "kv \<in> set kvs" and "distinct (map fst kvs)"
  shows "json_norm (snd kv) = snd kv"
proof -
  let ?f = "\<lambda>kv. (fst kv, json_norm (snd kv))"
  have "sort_key fst (map ?f kvs) = kvs" using assms(1) by simp
  then have "set kvs = ?f ` set kvs" by (metis set_map set_sort)
  with assms(2) have "kv \<in> ?f ` set kvs" by metis
  then obtain kv' where kv': "kv' \<in> set kvs" "kv = ?f kv'" by blast
  then have "(fst kv, snd kv') \<in> set kvs" "(fst kv, snd kv) \<in> set kvs"
    using assms(2) by simp_all
  then have "snd kv = snd kv'"
    using eq_key_imp_eq_value [OF assms(3)] by blast
  with kv'(2) show ?thesis by (metis snd_conv)
qed

section \<open>Reading the fields of a payload\<close>

lemma lit_inject [simp]: "lit s = lit t \<longleftrightarrow> s = t"
  by (simp add: lit_def inj_map_eq_map [OF inj_of_char])

lemma text_at_iff: "text_at p k = Inr t \<longleftrightarrow> map_of p (lit k) = Some (JStr t)"
  by (auto simp: text_at_def field_def text_value_def split: option.splits json.splits)

lemma field_iff: "field p k = Inr v \<longleftrightarrow> map_of p (lit k) = Some v"
  by (auto simp: field_def split: option.splits)

lemma integer_value_iff: "integer_value v = Inr i \<longleftrightarrow> v = JInt i"
  by (auto simp: integer_value_def split: json.splits)

lemma optional_text_iff: "optional_text v = Inr f \<longleftrightarrow> v = opt_json f"
  by (cases f) (auto simp: optional_text_def text_value_def opt_json_def split: json.splits)

lemma check_header_iff:
  "check_header p fmt = Inr u \<longleftrightarrow>
     map_of p (lit ''format'') = Some (JStr fmt) \<and> map_of p (lit ''version'') = Some (JInt 1)"
  by (auto simp: check_header_def field_iff integer_value_iff STATE_FORMAT_VERSION_def)

lemma parse_timestamp_iff: "parse_timestamp v = Inr d \<longleftrightarrow> v = JStr (strftime d) \<and> wf_instant d"
proof
  assume "parse_timestamp v = Inr d"
  then obtain t d0 where "v = JStr t" "strptime t = Some d0" "d = d0\<lparr>dt_tz := UTC\<rparr>" "strftime d = t"
    by (auto simp: parse_timestamp_def text_value_def timestamp_def Let_def
        split: json.splits option.splits if_splits)
  then show "v = JStr (strftime d) \<and> wf_instant d"
    using strptime_valid [of t d0] by (simp add: wf_instant_def valid_datetime_def)
next
  assume "v = JStr (strftime d) \<and> wf_instant d"
  moreover from this have "strptime (strftime d) = Some (d\<lparr>dt_tz := NoTz\<rparr>)"
    by (auto simp: wf_instant_def strptime_strftime)
  ultimately show "parse_timestamp v = Inr d"
    by (cases d) (simp add: parse_timestamp_def text_value_def timestamp_def wf_instant_def Let_def)
qed

lemma new_LifecycleActor_iff: "new_LifecycleActor t = Inr a \<longleftrightarrow> t = actor_value a \<and> wf_actor a"
  by (cases a) (auto simp: new_LifecycleActor_def wf_actor_new)

section \<open>Payloads of well-formed values\<close>

definition identity_items :: "run_identity \<Rightarrow> (str \<times> json) list" where
  "identity_items i = zip IDENTITY_KEYS
     [JStr (baseline_sha_value (ri_baseline_sha i)), JStr (contract_hash_value (ri_contract_hash i)),
      JStr (contract_id_value (ri_contract_id i)), JStr (contract_version_value (ri_contract_version i)),
      JStr (strftime (ri_created_at i)), JStr IDENTITY_FORMAT,
      JStr (policy_hash_value (ri_policy_hash i)), JStr (run_id_value (ri_run_id i)), JInt 1]"

definition checkpoint_items :: "run_checkpoint \<Rightarrow> (str \<times> json) list" where
  "checkpoint_items cp = zip CHECKPOINT_KEYS
     [opt_json (lc_final_state (cp_lifecycle cp)), JStr CHECKPOINT_FORMAT,
      JObj (identity_items (cp_identity cp)), JInt (lc_revision (cp_lifecycle cp)),
      JStr (state_value (lc_state (cp_lifecycle cp))), JStr (strftime (lc_updated_at (cp_lifecycle cp))),
      JInt 1]"

definition transition_items :: "lifecycle_transition \<Rightarrow> (str \<times> json) list" where
  "transition_items ev = zip TRANSITION_KEYS
     [JStr (actor_value (ev_actor ev)), opt_json (ev_final_state ev), JStr TRANSITION_FORMAT,
      JStr (state_value (ev_from_state ev)), JStr (strftime (ev_occurred_at ev)),
      JInt (ev_revision ev), JStr (run_id_value (ev_run_id ev)), JStr (state_value (ev_to_state ev)),
      JInt 1]"

lemmas items_defs = identity_items_def checkpoint_items_def transition_items_def

lemma identity_payload_items:
  "dt_tz (ri_created_at i) = UTC \<Longrightarrow> identity_payload i = Inr (JObj (identity_items i))"
  by (simp add: identity_payload_def identity_items_def IDENTITY_KEYS_def timestamp_def
      STATE_FORMAT_VERSION_def del: lit_simps)

lemma checkpoint_payload_items:
  assumes "dt_tz (ri_created_at (cp_identity cp)) = UTC" and "dt_tz (lc_updated_at (cp_lifecycle cp)) = UTC"
  shows "checkpoint_payload cp = Inr (JObj (checkpoint_items cp))"
  using assms by (simp add: checkpoint_payload_def identity_payload_items checkpoint_items_def
      CHECKPOINT_KEYS_def timestamp_def STATE_FORMAT_VERSION_def Let_def del: lit_simps)

lemma transition_payload_items:
  "dt_tz (ev_occurred_at ev) = UTC \<Longrightarrow> transition_payload ev = Inr (JObj (transition_items ev))"
  by (simp add: transition_payload_def transition_items_def TRANSITION_KEYS_def timestamp_def
      STATE_FORMAT_VERSION_def del: lit_simps)

lemma keys_sorted:
  "sorted IDENTITY_KEYS" "distinct IDENTITY_KEYS"
  "sorted CHECKPOINT_KEYS" "distinct CHECKPOINT_KEYS"
  "sorted TRANSITION_KEYS" "distinct TRANSITION_KEYS"
  by code_simp+

lemma length_keys:
  "length IDENTITY_KEYS = 9" "length CHECKPOINT_KEYS = 7" "length TRANSITION_KEYS = 9"
  by (simp_all add: IDENTITY_KEYS_def CHECKPOINT_KEYS_def TRANSITION_KEYS_def)

lemma items_keys [simp]:
  "map fst (identity_items i) = IDENTITY_KEYS"
  "map fst (checkpoint_items cp) = CHECKPOINT_KEYS"
  "map fst (transition_items ev) = TRANSITION_KEYS"
  by (simp_all add: items_defs length_keys)

lemma new_RunIdentity_iff:
  "new_RunIdentity rid cid ver chash base pol created = Inr i \<longleftrightarrow>
     rid = ri_run_id i \<and> cid = ri_contract_id i \<and> ver = ri_contract_version i \<and>
     chash = ri_contract_hash i \<and> base = ri_baseline_sha i \<and> pol = ri_policy_hash i \<and>
     created = ri_created_at i \<and> dt_tz created = UTC"
  by (cases i) (auto simp: new_RunIdentity_def)

lemmas field_iffs = check_header_iff text_at_iff field_iff integer_value_iff optional_text_iff
  new_wrapper_iff new_LifecycleActor_iff new_LifecycleState_Inr parse_timestamp_iff

lemma identity_from_payload_iff:
  "identity_from_payload (JObj kvs) = Inr i \<longleftrightarrow>
     wf_run_identity i \<and> fst ` set kvs = set IDENTITY_KEYS \<and>
     map_of kvs (lit ''format'') = Some (JStr IDENTITY_FORMAT) \<and>
     map_of kvs (lit ''version'') = Some (JInt 1) \<and>
     map_of kvs (lit ''run_id'') = Some (JStr (run_id_value (ri_run_id i))) \<and>
     map_of kvs (lit ''contract_id'') = Some (JStr (contract_id_value (ri_contract_id i))) \<and>
     map_of kvs (lit ''contract_version'') = Some (JStr (contract_version_value (ri_contract_version i))) \<and>
     map_of kvs (lit ''contract_hash'') = Some (JStr (contract_hash_value (ri_contract_hash i))) \<and>
     map_of kvs (lit ''baseline_sha'') = Some (JStr (baseline_sha_value (ri_baseline_sha i))) \<and>
     map_of kvs (lit ''policy_hash'') = Some (JStr (policy_hash_value (ri_policy_hash i))) \<and>
     map_of kvs (lit ''created_at'') = Some (JStr (strftime (ri_created_at i)))"
  unfolding identity_from_payload_def object_fields_def
  by (auto simp add: field_iffs new_RunIdentity_iff wf_run_identity_def wf_instant_def simp del: lit_simps)

lemma identity_from_items:
  assumes "map fst kvs = IDENTITY_KEYS"
  shows "identity_from_payload (JObj kvs) = Inr i \<longleftrightarrow> wf_run_identity i \<and> kvs = identity_items i"
proof -
  obtain v1 v2 v3 v4 v5 v6 v7 v8 v9 where kvs: "kvs = zip IDENTITY_KEYS [v1, v2, v3, v4, v5, v6, v7, v8, v9]"
    using assms by (auto simp: IDENTITY_KEYS_def map_eq_Cons_conv simp del: lit_simps)
  have "fst ` set kvs = set IDENTITY_KEYS"
    using assms by (metis list.set_map)
  then show ?thesis
    unfolding identity_from_payload_iff kvs identity_items_def
    by (auto simp: IDENTITY_KEYS_def simp del: lit_simps)
qed

lemma new_LifecycleTransition_iff:
  "new_LifecycleTransition FS rid rvn from_st to_st occurred actor fin = Inr ev \<longleftrightarrow>
     rid = ev_run_id ev \<and> rvn = ev_revision ev \<and> from_st = ev_from_state ev \<and> to_st = ev_to_state ev \<and>
     occurred = ev_occurred_at ev \<and> actor = ev_actor ev \<and> fin = ev_final_state ev \<and>
     0 \<le> rvn \<and> dt_tz occurred = UTC \<and> wf_final FS to_st fin"
  by (cases ev) (auto simp: new_LifecycleTransition_def require_revision_def require_utc_def)

lemma new_RunLifecycle_iff:
  "new_RunLifecycle FS rid st rvn upd fin = Inr lc \<longleftrightarrow>
     rid = lc_run_id lc \<and> st = lc_state lc \<and> rvn = lc_revision lc \<and> upd = lc_updated_at lc \<and>
     fin = lc_final_state lc \<and> 0 \<le> rvn \<and> dt_tz upd = UTC \<and> wf_final FS st fin"
  by (cases lc) (auto simp: new_RunLifecycle_def require_revision_def require_utc_def)

lemma new_RunCheckpoint_iff:
  "new_RunCheckpoint i lc = Inr cp \<longleftrightarrow>
     i = cp_identity cp \<and> lc = cp_lifecycle cp \<and> ri_run_id i = lc_run_id lc \<and>
     dt_le (ri_created_at i) (lc_updated_at lc)"
  by (cases cp) (auto simp: new_RunCheckpoint_Inr)

lemma transition_from_payload_iff:
  "transition_from_payload FS (JObj kvs) = Inr ev \<longleftrightarrow>
     wf_transition FS ev \<and> fst ` set kvs = set TRANSITION_KEYS \<and>
     map_of kvs (lit ''format'') = Some (JStr TRANSITION_FORMAT) \<and>
     map_of kvs (lit ''version'') = Some (JInt 1) \<and>
     map_of kvs (lit ''run_id'') = Some (JStr (run_id_value (ev_run_id ev))) \<and>
     map_of kvs (lit ''revision'') = Some (JInt (ev_revision ev)) \<and>
     map_of kvs (lit ''from_state'') = Some (JStr (state_value (ev_from_state ev))) \<and>
     map_of kvs (lit ''to_state'') = Some (JStr (state_value (ev_to_state ev))) \<and>
     map_of kvs (lit ''occurred_at'') = Some (JStr (strftime (ev_occurred_at ev))) \<and>
     map_of kvs (lit ''actor'') = Some (JStr (actor_value (ev_actor ev))) \<and>
     map_of kvs (lit ''final_state'') = Some (opt_json (ev_final_state ev))"
  unfolding transition_from_payload_def object_fields_def
  by (auto simp add: field_iffs new_LifecycleTransition_iff wf_transition_def wf_instant_def simp del: lit_simps)

lemma transition_from_items:
  assumes "map fst kvs = TRANSITION_KEYS"
  shows "transition_from_payload FS (JObj kvs) = Inr ev \<longleftrightarrow> wf_transition FS ev \<and> kvs = transition_items ev"
proof -
  obtain v1 v2 v3 v4 v5 v6 v7 v8 v9 where kvs: "kvs = zip TRANSITION_KEYS [v1, v2, v3, v4, v5, v6, v7, v8, v9]"
    using assms by (auto simp: TRANSITION_KEYS_def map_eq_Cons_conv simp del: lit_simps)
  have "fst ` set kvs = set TRANSITION_KEYS"
    using assms by (metis list.set_map)
  then show ?thesis
    unfolding transition_from_payload_iff kvs transition_items_def
    by (auto simp: TRANSITION_KEYS_def simp del: lit_simps)
qed

lemma checkpoint_from_payload_iff:
  "checkpoint_from_payload FS (JObj kvs) = Inr cp \<longleftrightarrow>
     wf_checkpoint FS cp \<and> fst ` set kvs = set CHECKPOINT_KEYS \<and>
     map_of kvs (lit ''format'') = Some (JStr CHECKPOINT_FORMAT) \<and>
     map_of kvs (lit ''version'') = Some (JInt 1) \<and>
     (\<exists>iv. map_of kvs (lit ''identity'') = Some iv \<and> identity_from_payload iv = Inr (cp_identity cp)) \<and>
     map_of kvs (lit ''state'') = Some (JStr (state_value (lc_state (cp_lifecycle cp)))) \<and>
     map_of kvs (lit ''revision'') = Some (JInt (lc_revision (cp_lifecycle cp))) \<and>
     map_of kvs (lit ''updated_at'') = Some (JStr (strftime (lc_updated_at (cp_lifecycle cp)))) \<and>
     map_of kvs (lit ''final_state'') = Some (opt_json (lc_final_state (cp_lifecycle cp)))"
proof -
  have wf: "wf_run_identity (cp_identity cp)"
    if "identity_from_payload iv = Inr (cp_identity cp)" for iv
    using that
    by (cases iv) (auto simp: identity_from_payload_iff, auto simp: identity_from_payload_def object_fields_def)
  then have rid: "wf_run_id (lc_run_id (cp_lifecycle cp))"
    if "identity_from_payload iv = Inr (cp_identity cp)"
      "ri_run_id (cp_identity cp) = lc_run_id (cp_lifecycle cp)" for iv
    using that by (metis wf_run_identity_def)
  show ?thesis
    unfolding checkpoint_from_payload_def object_fields_def
    by (auto simp add: field_iffs new_RunLifecycle_iff new_RunCheckpoint_iff wf_checkpoint_new wf_lifecycle_def
        wf_instant_def simp del: lit_simps intro: wf rid)
qed

lemma no_floats_by_keys:
  assumes "distinct (map fst kvs)" and "fst ` set kvs = set keys"
    and "list_all (\<lambda>k. \<forall>x. map_of kvs k = Some x \<longrightarrow> no_floats x) keys"
  shows "no_floats (JObj kvs)"
proof -
  have "no_floats x" if "(k, x) \<in> set kvs" for k x
  proof -
    have "map_of kvs k = Some x" using assms(1) that by simp
    moreover have "k \<in> set keys" using assms(2) that by (metis fst_conv image_eqI)
    ultimately show ?thesis using assms(3) by (simp add: list_all_iff)
  qed
  then show ?thesis by (auto simp: list_all_iff)
qed

lemma identity_payload_no_floats:
  assumes "identity_from_payload (JObj kvs) = Inr i" and "distinct (map fst kvs)"
  shows "no_floats (JObj kvs)"
  using assms unfolding identity_from_payload_iff
  by (intro no_floats_by_keys [of kvs IDENTITY_KEYS]) (simp_all add: IDENTITY_KEYS_def del: lit_simps map_of_eq_Some_iff)

lemma no_floats_opt_json [simp]: "no_floats (opt_json f)"
  by (simp add: opt_json_def split: option.splits)

lemma transition_payload_no_floats:
  assumes "transition_from_payload FS (JObj kvs) = Inr ev" and "distinct (map fst kvs)"
  shows "no_floats (JObj kvs)"
  using assms unfolding transition_from_payload_iff
  by (intro no_floats_by_keys [of kvs TRANSITION_KEYS]) (simp_all add: TRANSITION_KEYS_def del: lit_simps map_of_eq_Some_iff)

lemma identity_payload_object:
  "identity_from_payload v = Inr i \<Longrightarrow> \<exists>kvs. v = JObj kvs"
  by (cases v) (auto simp: identity_from_payload_def object_fields_def)

lemma keys_distinct_value:
  "keys_distinct (JObj kvs) \<Longrightarrow> map_of kvs k = Some v \<Longrightarrow> keys_distinct v"
  by (auto simp: list_all_iff dest!: map_of_SomeD)

lemma checkpoint_payload_no_floats:
  assumes "checkpoint_from_payload FS (JObj kvs) = Inr cp" and "keys_distinct (JObj kvs)"
  shows "no_floats (JObj kvs)"
proof -
  obtain iv where iv: "map_of kvs (lit ''identity'') = Some iv" "identity_from_payload iv = Inr (cp_identity cp)"
    using assms(1) unfolding checkpoint_from_payload_iff by blast
  then have "no_floats iv"
    using identity_payload_object identity_payload_no_floats keys_distinct_value [OF assms(2) iv(1)]
    by (metis keys_distinct.simps(2))
  with iv assms show ?thesis
    unfolding checkpoint_from_payload_iff
    by (intro no_floats_by_keys [of kvs CHECKPOINT_KEYS]) (simp_all add: CHECKPOINT_KEYS_def del: lit_simps map_of_eq_Some_iff)
qed

lemma norm_in_order:
  assumes "sorted (map fst kvs)" and "list_all (\<lambda>kv. json_norm (snd kv) = snd kv) kvs"
  shows "json_norm (JObj kvs) = JObj kvs"
proof -
  have "map (\<lambda>kv. (fst kv, json_norm (snd kv))) kvs = kvs"
    using assms(2) by (induction kvs) auto
  with assms(1) show ?thesis by (simp add: sort_key_id_if_sorted)
qed

lemma norm_opt_json [simp]: "json_norm (opt_json f) = opt_json f" "keys_distinct (opt_json f)"
  by (simp_all add: opt_json_def split: option.splits)

text \<open>A payload is tidy when the codec keeps it: key order, distinct keys, no floats.\<close>

definition tidy :: "json \<Rightarrow> bool" where
  "tidy v \<longleftrightarrow> json_norm v = v \<and> keys_distinct v \<and> no_floats v"

lemma tidy_simps [simp]: "tidy (JStr s)" "tidy (JInt i)" "tidy (opt_json f)"
  by (simp_all add: tidy_def)

lemma tidy_zip:
  assumes "sorted ks" and "distinct ks" and "length ks = length vs" and "list_all tidy vs"
  shows "tidy (JObj (zip ks vs))"
proof -
  have "list_all (\<lambda>kv. tidy (snd kv)) (zip ks vs)"
    using assms(4) by (auto simp: list_all_iff dest: set_zip_rightD)
  with assms show ?thesis
    unfolding tidy_def by (intro conjI norm_in_order) (auto simp: list_all_iff)
qed

lemma tidy_items [simp]:
  "tidy (JObj (identity_items i))" "tidy (JObj (transition_items ev))" "tidy (JObj (checkpoint_items cp))"
proof -
  show i: "tidy (JObj (identity_items i))" for i
    unfolding identity_items_def by (rule tidy_zip) (simp_all add: keys_sorted length_keys)
  show "tidy (JObj (transition_items ev))"
    unfolding transition_items_def by (rule tidy_zip) (simp_all add: keys_sorted length_keys)
  show "tidy (JObj (checkpoint_items cp))"
    unfolding checkpoint_items_def by (rule tidy_zip) (simp_all add: keys_sorted length_keys i)
qed

lemma tidy_object:
  assumes "tidy (JObj kvs)" and "fst ` set kvs = set keys" and "sorted keys" and "distinct keys"
  shows "map fst kvs = keys"
  using assms norm_object_keys unfolding tidy_def by blast

lemma tidy_value:
  assumes "tidy (JObj kvs)" and "map_of kvs k = Some v"
  shows "tidy v"
proof -
  have "json_norm v = v"
    using norm_object_values [of kvs "(k, v)"] assms map_of_SomeD [OF assms(2)]
    by (simp add: tidy_def)
  moreover have "keys_distinct v" "no_floats v"
    using assms map_of_SomeD [OF assms(2)] unfolding tidy_def by (auto simp: list_all_iff)
  ultimately show ?thesis by (simp add: tidy_def)
qed

lemma identity_from_tidy:
  assumes "tidy v"
  shows "identity_from_payload v = Inr i \<longleftrightarrow> wf_run_identity i \<and> v = JObj (identity_items i)"
proof (cases "\<exists>kvs. v = JObj kvs \<and> fst ` set kvs = set IDENTITY_KEYS")
  case True
  then obtain kvs where v: "v = JObj kvs" and "fst ` set kvs = set IDENTITY_KEYS" by blast
  then have "map fst kvs = IDENTITY_KEYS"
    using assms tidy_object keys_sorted by blast
  then show ?thesis using identity_from_items v by simp
next
  case False
  moreover have "fst ` set (identity_items i) = set IDENTITY_KEYS"
    by (metis items_keys(1) list.set_map)
  ultimately show ?thesis
    by (cases v) (auto simp: identity_from_payload_def object_fields_def)
qed

lemma transition_from_tidy:
  assumes "tidy v"
  shows "transition_from_payload FS v = Inr ev \<longleftrightarrow> wf_transition FS ev \<and> v = JObj (transition_items ev)"
proof (cases "\<exists>kvs. v = JObj kvs \<and> fst ` set kvs = set TRANSITION_KEYS")
  case True
  then obtain kvs where v: "v = JObj kvs" and "fst ` set kvs = set TRANSITION_KEYS" by blast
  then have "map fst kvs = TRANSITION_KEYS"
    using assms tidy_object keys_sorted by blast
  then show ?thesis using transition_from_items v by simp
next
  case False
  moreover have "fst ` set (transition_items ev) = set TRANSITION_KEYS"
    by (metis items_keys(3) list.set_map)
  ultimately show ?thesis
    by (cases v) (auto simp: transition_from_payload_def object_fields_def)
qed

lemma checkpoint_from_items:
  assumes "map fst kvs = CHECKPOINT_KEYS" and "tidy (JObj kvs)"
  shows "checkpoint_from_payload FS (JObj kvs) = Inr cp \<longleftrightarrow> wf_checkpoint FS cp \<and> kvs = checkpoint_items cp"
proof -
  obtain v1 v2 v3 v4 v5 v6 v7 where kvs: "kvs = zip CHECKPOINT_KEYS [v1, v2, v3, v4, v5, v6, v7]"
    using assms(1) by (auto simp: CHECKPOINT_KEYS_def map_eq_Cons_conv simp del: lit_simps)
  have keys: "fst ` set kvs = set CHECKPOINT_KEYS"
    using assms(1) by (metis list.set_map)
  have v3: "map_of kvs (lit ''identity'') = Some v3"
    by (simp add: kvs CHECKPOINT_KEYS_def del: lit_simps)
  then have "identity_from_payload v3 = Inr i \<longleftrightarrow> wf_run_identity i \<and> v3 = JObj (identity_items i)" for i
    using identity_from_tidy tidy_value [OF assms(2)] by blast
  with keys show ?thesis
    unfolding checkpoint_from_payload_iff kvs checkpoint_items_def
    by (auto simp: CHECKPOINT_KEYS_def wf_checkpoint_new simp del: lit_simps)
qed

lemma checkpoint_from_tidy:
  assumes "tidy v"
  shows "checkpoint_from_payload FS v = Inr cp \<longleftrightarrow> wf_checkpoint FS cp \<and> v = JObj (checkpoint_items cp)"
proof (cases "\<exists>kvs. v = JObj kvs \<and> fst ` set kvs = set CHECKPOINT_KEYS")
  case True
  then obtain kvs where v: "v = JObj kvs" and "fst ` set kvs = set CHECKPOINT_KEYS" by blast
  then have "map fst kvs = CHECKPOINT_KEYS"
    using assms tidy_object keys_sorted by blast
  then show ?thesis using checkpoint_from_items v assms by simp
next
  case False
  moreover have "fst ` set (checkpoint_items cp) = set CHECKPOINT_KEYS"
    by (metis items_keys(2) list.set_map)
  ultimately show ?thesis
    by (cases v) (auto simp: checkpoint_from_payload_def object_fields_def)
qed

section \<open>The codec\<close>

lemma items_within:
  "json_within guaranteed_levels (JObj (identity_items i))"
  "json_within guaranteed_levels (JObj (transition_items ev))"
  "json_within guaranteed_levels (JObj (checkpoint_items cp))"
proof -
  have opt: "json_within d (opt_json f)" for d f
    by (simp add: opt_json_def split: option.splits)
  have zip: "json_within (Suc d) (JObj (zip ks vs))" if "list_all (json_within d) vs" for d ks vs
    using that by (auto simp: list_all_iff dest: set_zip_rightD)
  have i: "json_within (Suc (Suc d)) (JObj (identity_items i))" for d i
    unfolding identity_items_def by (rule zip) simp
  have "json_within (Suc (Suc d)) (JObj (transition_items ev))" for d ev
    unfolding transition_items_def by (rule zip) (simp add: opt)
  moreover have "json_within (Suc (Suc (Suc d))) (JObj (checkpoint_items cp))" for d cp
    unfolding checkpoint_items_def by (rule zip) (simp add: opt i del: json_within.simps(2))
  moreover have "guaranteed_levels = Suc (Suc (Suc 13))" unfolding guaranteed_levels_def by linarith
  ultimately show "json_within guaranteed_levels (JObj (identity_items i))"
    "json_within guaranteed_levels (JObj (transition_items ev))"
    "json_within guaranteed_levels (JObj (checkpoint_items cp))"
    using i by metis+
qed

lemma state_load_Inr:
  assumes "state_load py b = Inr v"
  shows "\<exists>kvs. v = JObj kvs" and "keys_distinct v" and "json_within (decoder_levels py) v"
    and "state_dump v = Inr b" and "json_loads (state_reader py) (json_text v) = Inr v"
proof -
  from assms obtain t x where tx: "utf8_decode b = Inr t" "json_loads (state_reader py) t = Inr x"
    and rest: "(case x of
        JObj kvs \<Rightarrow> sum_bind (state_dump_within (encoder_levels py) x) (\<lambda>b'. if b' \<noteq> b then Inl StateSerializationError else Inr x)
      | _ \<Rightarrow> Inl StateSerializationError) = Inr v"
    by (auto simp: state_load_def)
  from rest show dump: "state_dump v = Inr b" and "\<exists>kvs. v = JObj kvs"
    by (cases x; auto simp: state_dump_within_Inr split: if_splits)+
  from rest have "x = v" by (cases x; auto split: if_splits)
  with tx have t: "utf8_decode b = Inr t" "json_loads (state_reader py) t = Inr v"
    by simp_all
  show "keys_distinct v" "json_within (decoder_levels py) v"
    using json_loads_decoded [OF state_reader_strict t(2)] by simp_all
  have "t = json_text v"
    using dump t(1) utf8_roundtrip by (auto simp: state_dump_Inr)
  with t(2) show "json_loads (state_reader py) (json_text v) = Inr v" by simp
qed

lemma state_load_tidy:
  assumes "state_load py b = Inr v" and "no_floats v"
  shows "tidy v"
proof -
  note l = state_load_Inr [OF assms(1)]
  have "plain v"
    using assms(2) l(2,4) by (simp add: plain_iff state_dump_Inr)
  then have "json_loads (state_reader py) (json_text v) = Inr (json_norm v)"
    using l(3) by (intro json_loads_dumps) simp_all
  with l(5) have "json_norm v = v" by simp
  with assms(2) l(2) show ?thesis by (simp add: tidy_def)
qed

lemma state_load_iff:
  assumes "tidy (JObj kvs)" and "json_within guaranteed_levels (JObj kvs)"
  shows "state_load py b = Inr (JObj kvs) \<longleftrightarrow> state_dump (JObj kvs) = Inr b"
proof
  show "state_load py b = Inr (JObj kvs)" if d: "state_dump (JObj kvs) = Inr b"
  proof -
    have "plain (JObj kvs)"
      using assms d unfolding plain_iff tidy_def state_dump_Inr by blast
    then have "state_load py b = Inr (json_norm (JObj kvs))"
      using d assms(2) by (intro state_load_dump)
    with assms(1) show ?thesis unfolding tidy_def by metis
  qed
qed (rule state_load_Inr(4))

text \<open>
  The three codecs have one shape: a reader that accepts a tidy payload exactly when it is
  the payload of a well-formed value, and no payload with floats.
\<close>

lemma codec_iff:
  assumes "\<And>v x. tidy v \<Longrightarrow> from_payload v = Inr x \<longleftrightarrow> ok x \<and> v = JObj (items x)"
    and "\<And>kvs x. from_payload (JObj kvs) = Inr x \<Longrightarrow> keys_distinct (JObj kvs) \<Longrightarrow> no_floats (JObj kvs)"
    and "\<And>x. tidy (JObj (items x)) \<and> json_within guaranteed_levels (JObj (items x))"
  shows "sum_bind (state_load py b) from_payload = Inr x \<longleftrightarrow> ok x \<and> state_dump (JObj (items x)) = Inr b"
proof
  assume "sum_bind (state_load py b) from_payload = Inr x"
  then obtain v where v: "state_load py b = Inr v" "from_payload v = Inr x" by auto
  then have "no_floats v" using assms(2) state_load_Inr(1,2) by blast
  then have "ok x \<and> v = JObj (items x)"
    using assms(1) state_load_tidy v by blast
  then show "ok x \<and> state_dump (JObj (items x)) = Inr b"
    using state_load_Inr(4) [OF v(1)] by simp
next
  assume x: "ok x \<and> state_dump (JObj (items x)) = Inr b"
  then have "state_load py b = Inr (JObj (items x))"
    using state_load_iff assms(3) by blast
  with x assms(1,3) show "sum_bind (state_load py b) from_payload = Inr x" by auto
qed

lemma identity_codec:
  "deserialize_run_identity py b = Inr i \<longleftrightarrow> wf_run_identity i \<and> serialize_run_identity i = Inr b"
proof -
  have "deserialize_run_identity py b = Inr i \<longleftrightarrow>
      wf_run_identity i \<and> state_dump (JObj (identity_items i)) = Inr b"
    unfolding deserialize_run_identity_def
    by (rule codec_iff [where ok = wf_run_identity and items = identity_items and from_payload = identity_from_payload,
          OF identity_from_tidy identity_payload_no_floats])
        (assumption | simp only: tidy_items items_within keys_distinct.simps)+
  then show ?thesis
    by (auto simp: serialize_run_identity_def identity_payload_items wf_run_identity_def wf_instant_def)
qed

lemma transition_codec:
  "deserialize_transition py FS b = Inr ev \<longleftrightarrow> wf_transition FS ev \<and> serialize_transition ev = Inr b"
proof -
  have "deserialize_transition py FS b = Inr ev \<longleftrightarrow>
      wf_transition FS ev \<and> state_dump (JObj (transition_items ev)) = Inr b"
    unfolding deserialize_transition_def
    by (rule codec_iff [where ok = "wf_transition FS" and items = transition_items and from_payload = "transition_from_payload FS",
          OF transition_from_tidy transition_payload_no_floats])
        (assumption | simp only: tidy_items items_within keys_distinct.simps)+
  then show ?thesis
    by (auto simp: serialize_transition_def transition_payload_items wf_transition_def wf_instant_def)
qed

lemma checkpoint_codec:
  "deserialize_checkpoint py FS b = Inr cp \<longleftrightarrow> wf_checkpoint FS cp \<and> serialize_checkpoint cp = Inr b"
proof -
  have "deserialize_checkpoint py FS b = Inr cp \<longleftrightarrow>
      wf_checkpoint FS cp \<and> state_dump (JObj (checkpoint_items cp)) = Inr b"
    unfolding deserialize_checkpoint_def
    by (rule codec_iff [where ok = "wf_checkpoint FS" and items = checkpoint_items and from_payload = "checkpoint_from_payload FS",
          OF checkpoint_from_tidy checkpoint_payload_no_floats])
        (assumption | simp only: tidy_items items_within keys_distinct.simps)+
  then show ?thesis
    by (auto simp: serialize_checkpoint_def checkpoint_payload_items wf_checkpoint_new
        wf_run_identity_def wf_lifecycle_def wf_instant_def)
qed


section \<open>What can be serialized\<close>

fun encodable_json :: "json \<Rightarrow> bool" where
  "encodable_json (JFloat r) = (case r of Some t \<Rightarrow> encodable t | None \<Rightarrow> True)"
| "encodable_json (JStr s) = encodable s"
| "encodable_json (JArr js) = list_all encodable_json js"
| "encodable_json (JObj kvs) = list_all (\<lambda>kv. encodable (fst kv) \<and> encodable_json (snd kv)) kvs"
| "encodable_json j = True"

lemma encodable_join: "encodable (join_comma xs) \<longleftrightarrow> list_all encodable xs"
  by (induction xs rule: join_comma.induct) (auto simp: is_surrogate_def)

lemma encodable_json_str [simp]: "encodable (json_str s) \<longleftrightarrow> encodable s"
proof -
  have "encodable (esc_char c) \<longleftrightarrow> c < 0x110000 \<and> \<not> is_surrogate c" for c
    by (auto simp: esc_char_def hex_digit_def is_surrogate_def)
  then have "encodable (concat (map esc_char s)) \<longleftrightarrow> encodable s"
    by (induction s) simp_all
  then show ?thesis by (simp add: json_str_def is_surrogate_def)
qed

lemma encodable_digits: "list_all is_digit s \<Longrightarrow> encodable s"
  by (rule encodable_ascii) (auto simp: list_all_iff is_digit_def)

lemma encodable_int_repr [simp]: "encodable (int_repr i)"
  using dec_digits_all by (auto simp: int_repr_def is_surrogate_def intro: encodable_digits)

lemma encodable_json_text: "encodable (json_text j) \<longleftrightarrow> encodable_json j"
proof (induction j rule: json_text.induct)
  case (7 kvs)
  have "encodable (json_text (JObj kvs)) \<longleftrightarrow>
      list_all (\<lambda>kv. encodable (fst kv) \<and> encodable (json_text (snd kv))) kvs"
    by (auto simp: encodable_join list_all_iff member_text_def is_surrogate_def)
  also have "\<dots> \<longleftrightarrow> encodable_json (JObj kvs)"
    using 7 by (auto simp: list_all_iff)
  finally show ?case .
next
  case (6 js)
  then show ?case by (auto simp: encodable_join list_all_iff is_surrogate_def)
qed (simp_all add: is_surrogate_def split: option.splits)

lemma state_dump_total:
  "(\<exists>b. state_dump j = Inr b) \<longleftrightarrow> dumpable j \<and> encodable_json j"
  by (simp add: state_dump_Inr encodable_json_text flip: encodable_iff)

lemma encodable_hex: "match_hex n s \<Longrightarrow> encodable s"
  by (intro encodable_ascii) (auto simp: match_hex_def list_all_iff is_lower_hex_def is_digit_def)

lemma encodable_run_id: "wf_run_id r \<Longrightarrow> encodable (run_id_value r)"
  by (cases r) (fastforce simp: wf_run_id_new new_RunId_Inr RUN_ID_PATTERN_def list_all_iff
      dest: match_handle_chars handle_char_bounds intro: encodable_ascii)

lemma encodable_actor:
  assumes "wf_actor a" shows "encodable (actor_value a)"
proof -
  have "is_component_char c \<Longrightarrow> c < 128" "is_lower c \<Longrightarrow> c < 128" for c
    by (auto simp: is_component_char_def is_lower_def is_digit_def)
  with assms show ?thesis
    by (intro encodable_ascii)
      (auto simp: wf_actor_new new_LifecycleActor_def ACTOR_PATTERN_def match_head_tail_def list_all_iff
        split: if_splits list.splits)
qed

lemma encodable_state [simp]: "encodable (state_value s)"
  by (cases s) (simp_all add: is_surrogate_def)

lemma encodable_strftime [simp]: "encodable (strftime d)"
  by (rule encodable_ascii) (rule strftime_ascii)

lemma encodable_hashes:
  "wf_contract_hash h \<Longrightarrow> encodable (contract_hash_value h)"
  "wf_baseline_sha s \<Longrightarrow> encodable (baseline_sha_value s)"
  "wf_policy_hash p \<Longrightarrow> encodable (policy_hash_value p)"
  by (cases h; cases s; cases p;
      auto simp: wf_wrapper_defs new_ContractHash_Inr new_BaselineSha_Inr new_PolicyHash_Inr
        SHA256_PATTERN_def BASELINE_SHA_PATTERN_def intro: encodable_hex)+

lemma encodable_zip:
  assumes "list_all encodable ks" and "length ks = length vs"
  shows "encodable_json (JObj (zip ks vs)) \<longleftrightarrow> list_all encodable_json vs"
  using assms(2,1) by (induction ks vs rule: list_induct2) auto

lemma dumpable_zip:
  "length ks = length vs \<Longrightarrow> dumpable (JObj (zip ks vs)) \<longleftrightarrow> list_all dumpable vs"
  by (induction ks vs rule: list_induct2) auto

lemma encodable_lit [simp]: "encodable (lit s)"
proof -
  have "of_char c < (256 :: nat)" for c :: char
    by (rule nat_of_char_less_256)
  then have "c < (256 :: nat)" if "c \<in> set (lit s)" for c
    using that by (auto simp: lit_def)
  then show ?thesis
    by (fastforce simp: encodable_def list_all_iff is_surrogate_def)
qed

lemma keys_encodable:
  "list_all encodable IDENTITY_KEYS" "list_all encodable CHECKPOINT_KEYS" "list_all encodable TRANSITION_KEYS"
  "encodable IDENTITY_FORMAT" "encodable CHECKPOINT_FORMAT" "encodable TRANSITION_FORMAT"
  by (simp_all add: IDENTITY_KEYS_def CHECKPOINT_KEYS_def TRANSITION_KEYS_def IDENTITY_FORMAT_def
      CHECKPOINT_FORMAT_def TRANSITION_FORMAT_def del: lit_simps)

lemma opt_json_storable [simp]:
  "encodable_json (opt_json f) \<longleftrightarrow> (\<forall>t. f = Some t \<longrightarrow> encodable t)" "dumpable (opt_json f)"
  by (simp_all add: opt_json_def split: option.splits)

lemma int_ok_small: "0 \<le> i \<Longrightarrow> i < 10 \<Longrightarrow> int_ok i"
proof -
  assume "0 \<le> i" "i < 10"
  then have "nat i < 10 ^ 1" by simp
  then have "length (dec_digits (nat i)) \<le> 1" by (intro length_dec_digits_le) simp_all
  then have "length (dec_digits (nat i)) \<le> 4300" by linarith
  with \<open>0 \<le> i\<close> show "int_ok i" by (simp add: int_ok_def max_str_digits_def)
qed

lemma int_ok_one [simp]: "int_ok 1"
  by (rule int_ok_small) simp_all

text \<open>
  The strings of an identity that are not constrained to ASCII are the contract's id and
  version: they must have no lone surrogate.
\<close>

definition encodable_identity :: "run_identity \<Rightarrow> bool" where
  "encodable_identity i \<longleftrightarrow>
     encodable (contract_id_value (ri_contract_id i)) \<and> encodable (contract_version_value (ri_contract_version i))"

lemma identity_items_storable:
  assumes "wf_run_identity i"
  shows "dumpable (JObj (identity_items i))"
    and "encodable_json (JObj (identity_items i)) \<longleftrightarrow> encodable_identity i"
proof -
  have wf: "wf_run_id (ri_run_id i)" "wf_contract_hash (ri_contract_hash i)"
    "wf_baseline_sha (ri_baseline_sha i)" "wf_policy_hash (ri_policy_hash i)"
    using assms by (simp_all add: wf_run_identity_def)
  show "dumpable (JObj (identity_items i))"
    unfolding identity_items_def
    by (simp only: dumpable_zip length_keys list.size) simp
  show "encodable_json (JObj (identity_items i)) \<longleftrightarrow> encodable_identity i"
    unfolding identity_items_def encodable_identity_def
    by (simp only: encodable_zip keys_encodable length_keys list.size)
      (auto simp: keys_encodable encodable_run_id [OF wf(1)] encodable_hashes wf)
qed

lemma serialize_identity_total:
  assumes "wf_run_identity i"
  shows "(\<exists>b. serialize_run_identity i = Inr b) \<longleftrightarrow> encodable_identity i"
  using assms identity_items_storable [OF assms]
  by (simp add: serialize_run_identity_def identity_payload_items wf_run_identity_def wf_instant_def
      state_dump_total del: dumpable.simps encodable_json.simps)

lemma serialize_checkpoint_total:
  assumes "wf_checkpoint FS cp"
  shows "(\<exists>b. serialize_checkpoint cp = Inr b) \<longleftrightarrow>
    encodable_identity (cp_identity cp) \<and> int_ok (lc_revision (cp_lifecycle cp)) \<and>
    (\<forall>f. lc_final_state (cp_lifecycle cp) = Some f \<longrightarrow> encodable f)"
proof -
  have i: "wf_run_identity (cp_identity cp)" and tz: "dt_tz (ri_created_at (cp_identity cp)) = UTC"
    "dt_tz (lc_updated_at (cp_lifecycle cp)) = UTC"
    using assms by (simp_all add: wf_defs wf_run_identity_def wf_instant_def)
  have "dumpable (JObj (checkpoint_items cp)) \<and> encodable_json (JObj (checkpoint_items cp)) \<longleftrightarrow>
    encodable_identity (cp_identity cp) \<and> int_ok (lc_revision (cp_lifecycle cp)) \<and>
    (\<forall>f. lc_final_state (cp_lifecycle cp) = Some f \<longrightarrow> encodable f)"
    unfolding checkpoint_items_def
    by (simp only: dumpable_zip encodable_zip keys_encodable length_keys list.size)
      (auto simp: keys_encodable identity_items_storable [OF i] simp del: dumpable.simps(4) encodable_json.simps(4))
  then show ?thesis
    by (simp add: serialize_checkpoint_def checkpoint_payload_items tz state_dump_total
        del: dumpable.simps encodable_json.simps)
qed

lemma serialize_transition_total:
  assumes "wf_transition FS ev"
  shows "(\<exists>b. serialize_transition ev = Inr b) \<longleftrightarrow>
    int_ok (ev_revision ev) \<and> (\<forall>f. ev_final_state ev = Some f \<longrightarrow> encodable f)"
proof -
  have wf: "wf_run_id (ev_run_id ev)" "wf_actor (ev_actor ev)" and tz: "dt_tz (ev_occurred_at ev) = UTC"
    using assms by (simp_all add: wf_defs wf_instant_def)
  have "dumpable (JObj (transition_items ev)) \<and> encodable_json (JObj (transition_items ev)) \<longleftrightarrow>
    int_ok (ev_revision ev) \<and> (\<forall>f. ev_final_state ev = Some f \<longrightarrow> encodable f)"
    unfolding transition_items_def
    by (simp only: dumpable_zip encodable_zip keys_encodable length_keys list.size)
      (auto simp: keys_encodable encodable_run_id [OF wf(1)] encodable_actor [OF wf(2)])
  then show ?thesis
    by (simp add: serialize_transition_def transition_payload_items tz state_dump_total
        del: dumpable.simps encodable_json.simps)
qed


end
