(* ===== verification/DecoderLimits.thy ===== *)
theory DecoderLimits
  imports StateCodec "HOL-Library.Sublist"
begin

text \<open>
  The two limits of the JSON decoder that its callers do not expect: the levels of nesting and
  the digits of an integer. A text with at most as many opening brackets as there are levels is
  decoded without a \<open>RecursionError\<close>; one that opens more containers than there are levels, or an
  integer literal beyond the digit limit, raises wherever it stands. \<open>frame_text\<close> is the canonical
  text of a container up to the item in question.
\<close>

section \<open>The decoder leaves a suffix\<close>

lemma suffix_skip_ws: "suffix (skip_ws s) s"
  by (simp add: skip_ws_def suffix_dropWhile)

lemma hex4_suffix: "hex4 s = Some (u, r) \<Longrightarrow> suffix r s"
  by (auto simp: hex4_def bind_eq_Some_conv suffix_ConsI split: list.splits)

lemma unicode_escape_suffix: "unicode_escape s = Some (u, r) \<Longrightarrow> suffix r s"
proof -
  assume "unicode_escape s = Some (u, r)"
  then obtain u0 r0 where h: "hex4 s = Some (u0, r0)"
    and "r = r0 \<or> (\<exists>u2. hex4 (drop 2 r0) = Some (u2, r))"
    by (auto simp: unicode_escape_def split: option.splits if_splits)
  then have "suffix r r0"
    by (metis hex4_suffix suffix_drop suffix_order.order_refl suffix_order.trans)
  then show ?thesis using hex4_suffix [OF h] by (rule suffix_order.trans)
qed

lemma next_char_suffix: "next_char s = Some (c, r) \<Longrightarrow> suffix r s"
  by (auto simp: next_char_def split: list.splits if_splits intro!: suffix_ConsI dest: unicode_escape_suffix)

lemma p_string_suffix: "p_string s = Inr (t, r) \<Longrightarrow> suffix r s"
proof (induction s arbitrary: t r rule: p_string.induct)
  case (1 s)
  from "1.prems" consider (close) r0 where "next_char s = Some (None, r0)" "r = r0"
    | (char) c r0 t0 where "next_char s = Some (Some c, r0)" "p_string r0 = Inr (t0, r)"
    by (subst (asm) p_string.simps) (auto split: option.splits prod.splits)
  then show ?case
  proof cases
    case close
    then show ?thesis by (auto dest: next_char_suffix)
  next
    case char
    then have "suffix r r0" using "1.IH" by blast
    with char show ?thesis by (metis next_char_suffix suffix_order.trans)
  qed
qed

lemma number_suffix:
  "number_int s = Some (ds, r) \<Longrightarrow> suffix r s"
  "number_frac s = (ds, r) \<Longrightarrow> suffix r s"
  "number_exp s = (ds, r) \<Longrightarrow> suffix r s"
proof -
  have drop0: "suffix (dropWhile P cs) (c # cs)" for P and c :: nat and cs
    by (meson suffix_ConsI suffix_dropWhile)
  show "number_int s = Some (ds, r) \<Longrightarrow> suffix r s"
    by (auto simp: number_int_def suffix_dropWhile intro: suffix_ConsI split: list.splits if_splits)
  show "number_frac s = (ds, r) \<Longrightarrow> suffix r s"
    by (auto simp: number_frac_def drop0 split: list.splits if_splits)
  show "number_exp s = (ds, r) \<Longrightarrow> suffix r s"
    by (auto simp: number_exp_def Let_def intro!: suffix_ConsI suffix_dropWhile split: list.splits if_splits)
qed

lemma p_number_suffix: "p_number rd s = Inr (j, r) \<Longrightarrow> suffix r s"
proof -
  define k :: nat where "k = length (case s of c # _ \<Rightarrow> if c = 45 then [45 :: nat] else [] | [] \<Rightarrow> [])"
  assume "p_number rd s = Inr (j, r)"
  then consider (const) "r = drop 8 (drop k s)"
    | (num) ds r1 fr r2 ex where "number_int (drop k s) = Some (ds, r1)"
        "number_frac r1 = (fr, r2)" "number_exp r2 = (ex, r)"
    by (auto simp: p_number_def k_def Let_def split: option.splits prod.splits if_splits list.splits)
  then show ?thesis
  proof cases
    case const
    then show ?thesis by (simp only: drop_drop suffix_drop)
  next
    case num
    then have "suffix r (drop k s)" by (meson number_suffix suffix_order.trans)
    then show ?thesis by (meson suffix_drop suffix_order.trans)
  qed
qed

lemma p_word_suffix: "p_word rd s = Inr (j, r) \<Longrightarrow> suffix r s"
  by (auto simp: p_word_def suffix_drop split: if_splits dest: p_number_suffix)

lemma skip_ws_Cons_suffix: "skip_ws s = c # r \<Longrightarrow> suffix r s"
  by (metis suffix_ConsD suffix_skip_ws)

lemma item_suffix:
  "separator c s = Inr (b, r) \<Longrightarrow> suffix r s"
  "colon s = Inr r \<Longrightarrow> suffix r s"
  "p_key s = Inr (k, r) \<Longrightarrow> suffix r s"
  by (auto simp: separator_def colon_def p_key_def split: list.splits if_splits
      dest!: skip_ws_Cons_suffix p_string_suffix
      intro: suffix_ConsI suffix_order.trans [OF suffix_skip_ws])

lemma suffix_skip_tl: "suffix r (skip_ws s) \<Longrightarrow> suffix r (c # s)" "suffix (drop n (skip_ws s)) (c # s)"
  by (meson suffix_ConsI suffix_drop suffix_order.trans suffix_skip_ws)+

lemma p_suffix:
  "p_value rd d n s = Inr (j, r) \<Longrightarrow> suffix r s"
  "p_elems rd d n s = Inr (js, r) \<Longrightarrow> suffix r s"
  "p_members rd d n s = Inr (kvs, r) \<Longrightarrow> suffix r s"
proof (induction n arbitrary: d s j r js kvs)
  case 0
  { case 1 then show ?case by simp }
  { case 2 then show ?case by simp }
  { case 3 then show ?case by simp }
next
  case (Suc n)
  { case 1
    then obtain c r0 where s: "s = c # r0" by (cases s) auto
    from 1 show ?case
      unfolding s
      by (auto split: if_splits intro: suffix_ConsI suffix_skip_tl p_word_suffix
          dest: p_string_suffix Suc.IH(2,3)) }
  { case 2
    then obtain v r1 b r2 where "p_value rd d n s = Inr (v, r1)" "separator 93 r1 = Inr (b, r2)"
      and r: "r = r2 \<or> (\<exists>vs. p_elems rd d n r2 = Inr (vs, r))"
      by (auto split: if_splits)
    then have "suffix r2 s" by (meson Suc.IH(1) item_suffix(1) suffix_order.trans)
    with r show ?case by (meson Suc.IH(2) suffix_order.trans) }
  { case 3
    then obtain k r1 r2 v r3 b r4 where "p_key s = Inr (k, r1)" "colon r1 = Inr r2"
      "p_value rd d n r2 = Inr (v, r3)" "separator 125 r3 = Inr (b, r4)"
      and r: "r = r4 \<or> (\<exists>kvs. p_members rd d n r4 = Inr (kvs, r))"
      by (auto split: if_splits)
    then have "suffix r4 s" by (meson Suc.IH(1) item_suffix suffix_order.trans)
    with r show ?case by (meson Suc.IH(3) suffix_order.trans) }
qed

section \<open>Levels and brackets\<close>

text \<open>The opening brackets and braces of a text, those inside of its strings included.\<close>

definition openers :: "str \<Rightarrow> nat" where
  "openers s = length (filter (\<lambda>c. c = 91 \<or> c = 123) s)"

lemma openers_simps [simp]:
  "openers [] = 0"
  "openers (c # s) = (if c = 91 \<or> c = 123 then Suc (openers s) else openers s)"
  by (simp_all add: openers_def)

lemma openers_suffix: "suffix r s \<Longrightarrow> openers r \<le> openers s"
  by (auto simp: openers_def suffix_def)

lemma openers_skip_ws [simp]: "openers (skip_ws s) = openers s"
proof -
  have "filter (\<lambda>c. c = 91 \<or> c = 123) (dropWhile is_ws s) = filter (\<lambda>c. c = 91 \<or> c = 123) s"
    by (induction s) (auto simp: is_ws_def)
  then show ?thesis by (simp add: openers_def skip_ws_def)
qed

lemmas openers_item = item_suffix [THEN openers_suffix] p_suffix(1) [THEN openers_suffix]

text \<open>Hooks that do not raise \<open>RecursionError\<close> themselves.\<close>

definition hooks_flat :: "json_reader \<Rightarrow> bool" where
  "hooks_flat rd \<longleftrightarrow>
     (\<forall>kvs. object_pairs_hook rd kvs \<noteq> Inl RecursionError) \<and> (\<forall>t. parse_constant rd t \<noteq> Inl RecursionError)"

lemma scalar_flat:
  "p_string s \<noteq> Inl RecursionError" "separator c s \<noteq> Inl RecursionError" "colon s \<noteq> Inl RecursionError"
  "p_key s \<noteq> Inl RecursionError"
  "hooks_flat rd \<Longrightarrow> p_word rd s \<noteq> Inl RecursionError"
proof -
  show str: "p_string s \<noteq> Inl RecursionError" for s
  proof (induction s rule: p_string.induct)
    case (1 s)
    then show ?case
      by (subst p_string.simps) (auto simp: sum_bind_eq_Inl split: option.splits prod.splits)
  qed
  show "separator c s \<noteq> Inl RecursionError" "colon s \<noteq> Inl RecursionError" "p_key s \<noteq> Inl RecursionError"
    using str by (auto simp: separator_def colon_def p_key_def split: list.splits)
  show "hooks_flat rd \<Longrightarrow> p_word rd s \<noteq> Inl RecursionError"
    by (auto simp: p_word_def p_number_def hooks_flat_def Let_def sum_bind_eq_Inl
        split: option.splits prod.splits)
qed

lemma p_recursion:
  assumes "hooks_flat rd"
  shows "p_value rd d n s = Inl RecursionError \<Longrightarrow> d < openers s"
    and "p_elems rd d n s = Inl RecursionError \<Longrightarrow> d < openers s"
    and "p_members rd d n s = Inl RecursionError \<Longrightarrow> d < openers s"
proof (induction n arbitrary: d s)
  case 0
  { case 1 then show ?case by simp }
  { case 2 then show ?case by simp }
  { case 3 then show ?case by simp }
next
  case (Suc n)
  have obj: "object_pairs_hook rd kvs \<noteq> Inl RecursionError" for kvs
    using assms by (simp add: hooks_flat_def)
  { case 1
    then obtain c r where s: "s = c # r" by (cases s) auto
    show ?case
    proof (cases "(c = 91 \<or> c = 123) \<and> 0 < d")
      case True
      then have "p_elems rd (d - 1) n (skip_ws r) = Inl RecursionError \<or>
          p_members rd (d - 1) n (skip_ws r) = Inl RecursionError"
        using 1 obj unfolding s by (auto simp: sum_bind_eq_Inl split: if_splits)
      then have "d - 1 < openers (skip_ws r)" using Suc.IH(2,3) by blast
      with True show ?thesis by (auto simp: s)
    next
      case False
      then show ?thesis
        using 1 scalar_flat(1) scalar_flat(5) [OF assms] unfolding s
        by (auto simp: sum_bind_eq_Inl split: if_splits)
    qed }
  { case 2
    then show ?case
      using scalar_flat by (auto simp: sum_bind_eq_Inl split: if_splits
          dest: Suc.IH(1,2) dest!: openers_item) }
  { case 3
    then show ?case
      using scalar_flat by (auto simp: sum_bind_eq_Inl split: if_splits
          dest: Suc.IH(1,3) dest!: openers_item) }
qed

lemma json_loads_recursion:
  "hooks_flat rd \<Longrightarrow> json_loads rd s = Inl RecursionError \<Longrightarrow> reader_levels rd < openers s"
  using p_recursion(1) [of rd "reader_levels rd" _ "skip_ws s"]
  by (auto simp: json_loads_def sum_bind_eq_Inl simp del: p_value.simps split: if_splits)

text \<open>What was decoded nests no deeper than the text has brackets.\<close>

lemma p_within_openers:
  assumes "strict_reader rd"
  shows "p_value rd d n s = Inr (j, r) \<Longrightarrow> json_within (openers s) j"
    and "p_elems rd d n s = Inr (js, r) \<Longrightarrow> list_all (json_within (openers s)) js"
    and "p_members rd d n s = Inr (kvs, r) \<Longrightarrow> list_all (\<lambda>kv. json_within (openers s) (snd kv)) kvs"
proof (induction n arbitrary: d s j r js kvs)
  case 0
  { case 1 then show ?case by simp }
  { case 2 then show ?case by simp }
  { case 3 then show ?case by simp }
next
  case (Suc n)
  have obj: "j = JObj kvs" if "object_pairs_hook rd kvs = Inr j" for kvs j
    using that assms unfolding strict_reader_def by blast
  have later: "list_all (json_within (openers s)) js" if "list_all (json_within (openers r)) js"
    "openers r \<le> openers s" for js r s
    using that json_within_mono unfolding list_all_iff by blast
  have later': "list_all (\<lambda>kv. json_within (openers s) (snd kv)) kvs"
    if "list_all (\<lambda>kv. json_within (openers r) (snd kv)) kvs" "openers r \<le> openers s" for kvs r s
    using that json_within_mono unfolding list_all_iff by blast
  { case 1
    then obtain c r0 where s: "s = c # r0" by (cases s) auto
    from 1 show ?case
      unfolding s using p_word_within [OF assms]
      by (auto split: if_splits dest!: obj dest: Suc.IH(2,3)) }
  { case 2
    then obtain v r1 b r2 where v: "p_value rd d n s = Inr (v, r1)" "separator 93 r1 = Inr (b, r2)"
      and js: "js = [v] \<or> (\<exists>vs. p_elems rd d n r2 = Inr (vs, r) \<and> js = v # vs)"
      by (auto split: if_splits)
    have "openers r2 \<le> openers s" using v by (meson openers_item le_trans)
    with js show ?case using Suc.IH(1) [OF v(1)] later [OF Suc.IH(2)] by auto }
  { case 3
    then obtain k r1 r2 v r3 b r4 where v: "p_key s = Inr (k, r1)" "colon r1 = Inr r2"
      "p_value rd d n r2 = Inr (v, r3)" "separator 125 r3 = Inr (b, r4)"
      and kvs: "kvs = [(k, v)] \<or> (\<exists>ys. p_members rd d n r4 = Inr (ys, r) \<and> kvs = (k, v) # ys)"
      by (auto split: if_splits)
    have "openers r2 \<le> openers s" using v by (meson openers_item le_trans)
    moreover have "openers r4 \<le> openers s" using v by (meson openers_item le_trans)
    ultimately show ?case
      using kvs Suc.IH(1) [OF v(3)] Suc.IH(3) later' json_within_mono by fastforce }
qed

lemma json_loads_within:
  "strict_reader rd \<Longrightarrow> json_loads rd s = Inr j \<Longrightarrow> json_within (openers s) j"
  using p_within_openers(1) [of rd "reader_levels rd" _ "skip_ws s"]
  by (auto simp: json_loads_def simp del: p_value.simps split: if_splits)

section \<open>Errors behind a prefix\<close>

text \<open>A container that is open: its earlier items, and the key of the current one.\<close>

datatype frame = InArray "json list" | InObject "(str \<times> json) list" str

fun frame_text :: "frame \<Rightarrow> str" where
  "frame_text (InArray js) = 91 # concat (map (\<lambda>j. json_text j @ [44]) js)"
| "frame_text (InObject kvs k) =
     123 # concat (map (\<lambda>kv. member_text (fst kv, json_text (snd kv)) @ [44]) kvs) @ json_str k @ [58]"

text \<open>The earlier items are without floats and fit the levels that are left.\<close>

fun frame_ok :: "nat \<Rightarrow> frame \<Rightarrow> bool" where
  "frame_ok d (InArray js) = list_all (\<lambda>j. plain j \<and> json_within d j) js"
| "frame_ok d (InObject kvs k) = list_all (\<lambda>kv. plain (snd kv) \<and> json_within d (snd kv)) kvs"

fun frames_ok :: "nat \<Rightarrow> frame list \<Rightarrow> bool" where
  "frames_ok d [] = True"
| "frames_ok d (f # fs) = (d = 0 \<or> frame_ok (d - 1) f \<and> frames_ok (d - 1) fs)"

text \<open>A text at which an item begins.\<close>

definition begins :: "str \<Rightarrow> bool" where
  "begins s \<longleftrightarrow> skip_ws s = s \<and> take 1 s \<noteq> [93]"

definition fails_with :: "json_reader \<Rightarrow> nat \<Rightarrow> str \<Rightarrow> exn \<Rightarrow> bool" where
  "fails_with rd d s e \<longleftrightarrow> (\<forall>n > 2 * length s. p_value rd d n s = Inl e)"

lemma begins_frame [simp]: "begins (frame_text f @ s)"
  by (cases f) (simp_all add: begins_def skip_ws_def is_ws_def)

lemma begins_frames: "begins s \<Longrightarrow> begins (concat (map frame_text fs) @ s)"
  by (cases fs) simp_all

lemma begins_items:
  "begins s \<Longrightarrow> list_all plain js \<Longrightarrow> begins (concat (map (\<lambda>j. json_text j @ [44]) js) @ s)"
  using json_text_hd [of "hd js"] by (cases js) (auto simp: begins_def skip_ws_def)

lemma members_skip:
  "skip_ws (concat (map (\<lambda>kv. member_text (fst kv, t kv) @ [44]) kvs) @ json_str k @ s) =
    concat (map (\<lambda>kv. member_text (fst kv, t kv) @ [44]) kvs) @ json_str k @ s"
  by (cases kvs) (simp_all add: member_text_def)

lemma p_elems_fails:
  assumes "builds_objects rd" and "fails_with rd d s e" and "begins s"
  shows "frame_ok d (InArray js) \<Longrightarrow> 2 * length (concat (map (\<lambda>j. json_text j @ [44]) js) @ s) + 1 < n \<Longrightarrow>
    p_elems rd d n (concat (map (\<lambda>j. json_text j @ [44]) js) @ s) = Inl e"
proof (induction js arbitrary: n)
  case Nil
  then show ?case using assms(2) by (cases n) (auto simp: fails_with_def)
next
  case (Cons j js)
  let ?rest = "concat (map (\<lambda>j. json_text j @ [44]) js) @ s"
  obtain m where n: "n = Suc m" using Cons.prems by (cases n) auto
  have "p_value rd d m (json_text j @ 44 # ?rest) = Inr (json_norm j, 44 # ?rest)"
    using reads_back_plain [OF assms(1)] Cons.prems n by (auto simp: reads_back_def)
  moreover have "skip_ws ?rest = ?rest"
    using begins_items [OF assms(3), of js] Cons.prems by (simp add: begins_def list_all_iff)
  ultimately show ?case using Cons n by simp
qed

lemma p_members_fails:
  assumes "builds_objects rd" and "fails_with rd d s e" and "begins s"
  shows "frame_ok d (InObject kvs k) \<Longrightarrow>
    2 * length (concat (map (\<lambda>kv. member_text (fst kv, json_text (snd kv)) @ [44]) kvs) @ json_str k @ 58 # s) < n \<Longrightarrow>
    p_members rd d n (concat (map (\<lambda>kv. member_text (fst kv, json_text (snd kv)) @ [44]) kvs) @ json_str k @ 58 # s) = Inl e"
proof (induction kvs arbitrary: n)
  case Nil
  then obtain m where n: "n = Suc m" by (cases n) auto
  have "p_value rd d m s = Inl e" using assms(2) Nil n by (simp add: fails_with_def)
  then show ?case using assms(3) n by (simp add: begins_def)
next
  case (Cons kv kvs)
  let ?rest = "concat (map (\<lambda>kv. member_text (fst kv, json_text (snd kv)) @ [44]) kvs) @ json_str k @ 58 # s"
  obtain m where n: "n = Suc m" using Cons.prems by (cases n) auto
  have "p_value rd d m (json_text (snd kv) @ 44 # ?rest) = Inr (json_norm (snd kv), 44 # ?rest)"
    using reads_back_plain [OF assms(1)] Cons.prems n by (auto simp: reads_back_def member_text_def)
  moreover have "skip_ws ?rest = ?rest" by (rule members_skip)
  ultimately show ?case
    using Cons n by (simp add: member_text_def)
qed

lemma frame_fails:
  assumes "builds_objects rd" and "fails_with rd (d - 1) s e" and "begins s" and "frame_ok (d - 1) f" and "0 < d"
  shows "fails_with rd d (frame_text f @ s) e"
  unfolding fails_with_def
proof (intro allI impI)
  fix n
  assume n: "n > 2 * length (frame_text f @ s)"
  then obtain m where m: "n = Suc m" by (cases n) auto
  show "p_value rd d n (frame_text f @ s) = Inl e"
  proof (cases f)
    case (InArray js)
    let ?s = "concat (map (\<lambda>j. json_text j @ [44]) js) @ s"
    have "begins ?s" using begins_items [OF assms(3)] assms(4) by (simp add: InArray list_all_iff)
    moreover have "p_elems rd (d - 1) m ?s = Inl e"
      using assms(4) n by (intro p_elems_fails [OF assms(1-3)]) (simp_all add: InArray m)
    ultimately show ?thesis using assms(5) by (simp add: InArray m begins_def)
  next
    case (InObject kvs k)
    let ?s = "concat (map (\<lambda>kv. member_text (fst kv, json_text (snd kv)) @ [44]) kvs) @ json_str k @ 58 # s"
    have "p_members rd (d - 1) m ?s = Inl e"
      using assms(4) n by (intro p_members_fails [OF assms(1-3)]) (simp_all add: InObject m)
    moreover have "skip_ws ?s = ?s" by (rule members_skip)
    moreover have "take 1 ?s = [34]" by (cases kvs) (simp_all add: member_text_def json_str_def)
    ultimately show ?thesis using assms(5) by (simp add: InObject m)
  qed
qed

lemma frames_fail:
  assumes "builds_objects rd" and "begins s"
  shows "frames_ok d fs \<Longrightarrow> length fs \<le> d \<Longrightarrow> fails_with rd (d - length fs) s e \<Longrightarrow>
    fails_with rd d (concat (map frame_text fs) @ s) e"
proof (induction fs arbitrary: d)
  case (Cons f fs)
  then obtain d' where d: "d = Suc d'" by (cases d) auto
  have "fails_with rd d' (concat (map frame_text fs) @ s) e"
    using Cons.prems by (intro Cons.IH) (simp_all add: d)
  then have "fails_with rd d (frame_text f @ concat (map frame_text fs) @ s) e"
    using Cons.prems by (intro frame_fails assms(1) begins_frames assms(2)) (simp_all add: d)
  then show ?case by simp
qed simp

lemma json_loads_fails:
  assumes "begins s" and "fails_with rd (reader_levels rd) s e"
  shows "json_loads rd s = Inl e"
  using assms by (simp add: json_loads_def begins_def fails_with_def del: p_value.simps)

text \<open>One container more than there are levels.\<close>

theorem json_loads_deep:
  assumes "builds_objects rd" and "frames_ok (reader_levels rd) fs" and "reader_levels rd < length fs"
  shows "json_loads rd (concat (map frame_text fs) @ s) = Inl RecursionError"
proof -
  let ?d = "reader_levels rd"
  obtain f more where fs: "fs = take ?d fs @ f # more"
    using assms(3) by (metis id_take_nth_drop)
  let ?s = "frame_text f @ concat (map frame_text more) @ s"
  have whole: "concat (map frame_text fs) @ s = concat (map frame_text (take ?d fs)) @ ?s"
    by (subst fs) simp
  have take: "frames_ok d fs \<Longrightarrow> frames_ok d (take k fs)" for d k
    by (induction d fs arbitrary: k rule: frames_ok.induct) (auto simp: take_Cons split: nat.splits)
  have "p_value rd 0 n ?s = Inl RecursionError" if "0 < n" for n
    using that by (cases n; cases f) auto
  then have "fails_with rd (?d - length (take ?d fs)) ?s RecursionError"
    using assms(3) by (auto simp: fails_with_def)
  then have "fails_with rd ?d (concat (map frame_text (take ?d fs)) @ ?s) RecursionError"
    using assms take by (intro frames_fail) auto
  then show ?thesis
    unfolding whole by (intro json_loads_fails begins_frames begins_frame)
qed

text \<open>An integer literal beyond the digit limit.\<close>

definition long_literal :: "str \<Rightarrow> bool" where
  "long_literal ds \<longleftrightarrow> list_all is_digit ds \<and> hd ds \<noteq> 48 \<and> max_str_digits < length ds"

definition ends_number :: "str \<Rightarrow> bool" where
  "ends_number s \<longleftrightarrow> (case s of [] \<Rightarrow> True | c # _ \<Rightarrow> \<not> is_digit c \<and> c \<noteq> 46 \<and> c \<noteq> 101 \<and> c \<noteq> 69)"

lemma p_number_long:
  assumes "sg = [] \<or> sg = [45]" and "long_literal ds" and "ends_number s"
  shows "p_number rd (sg @ ds @ s) = Inl ValueError"
proof -
  obtain c cs where c: "ds = c # cs" "is_digit c" "c \<noteq> 48" "list_all is_digit cs"
    using assms(2) by (cases ds) (auto simp: long_literal_def)
  have all: "\<forall>x \<in> set ds. is_digit x" using assms(2) by (simp add: long_literal_def list_all_iff)
  have "takeWhile is_digit s = []" "dropWhile is_digit s = s"
    using assms(3) by (cases s; simp add: ends_number_def)+
  then have "takeWhile is_digit (ds @ s) = ds" "dropWhile is_digit (ds @ s) = s"
    using all by (simp_all add: takeWhile_append2 dropWhile_append2)
  then have int: "number_int (ds @ s) = Some (ds, s)"
    using c by (simp add: number_int_def)
  have rest: "number_frac s = ([], s)" "number_exp s = ([], s)"
    using assms(3) by (auto simp: ends_number_def number_frac_def number_exp_def split: list.splits)
  have "c \<noteq> 45" using c(2) by (auto simp: is_digit_def)
  then have sign: "(case sg @ ds @ s of c # _ \<Rightarrow> if c = 45 then [45] else [] | [] \<Rightarrow> []) = sg"
    using assms(1) c(1) by auto
  show ?thesis
    unfolding p_number_def Let_def sign
    using assms(2) by (simp add: int rest long_literal_def)
qed

theorem json_loads_long:
  assumes "builds_objects rd" and "frames_ok (reader_levels rd) fs" and "length fs \<le> reader_levels rd"
    and "sg = [] \<or> sg = [45]" and "long_literal ds" and "ends_number s"
  shows "json_loads rd (concat (map frame_text fs) @ sg @ ds @ s) = Inl ValueError"
proof -
  obtain c cs where c: "sg @ ds @ s = c # cs" "c = 45 \<or> is_digit c"
    using assms(4,5) by (cases ds) (auto simp: long_literal_def)
  then have ws: "\<not> is_ws c" "c \<noteq> 93" "c \<noteq> 34" "c \<noteq> 123" "c \<noteq> 91"
    by (auto simp: is_ws_def is_digit_def)
  have "p_word rd (sg @ ds @ s) = p_number rd (sg @ ds @ s)"
    using c by (auto simp: p_word_def is_digit_def)
  then have "p_value rd d (Suc n) (sg @ ds @ s) = Inl ValueError" for d n
    using p_number_long [OF assms(4-6)] c ws by simp
  then have "fails_with rd d (sg @ ds @ s) ValueError" for d
    unfolding fails_with_def by (metis gr0_implies_Suc less_zeroE not_gr_zero)
  moreover have "begins (sg @ ds @ s)"
    using c ws by (simp add: begins_def skip_ws_def)
  ultimately show ?thesis
    using assms by (intro json_loads_fails begins_frames frames_fail) auto
qed

end
