(* ===== verification/StateErrors.thy ===== *)
theory StateErrors
  imports DecoderLimits
begin

text \<open>
  What the state codec raises. Every rejection of a payload is a
  \<open>StateSerializationError\<close>; two exceptions leave the decoder as they are, a bare
  \<open>ValueError\<close> at an integer literal beyond the interpreter's digit limit
  (\<open>state_load_long\<close>) and a \<open>RecursionError\<close> at nesting beyond its levels
  (\<open>state_load_deep\<close>).
\<close>

section \<open>What can be raised\<close>

text \<open>\<open>raises_only P m\<close>: if \<open>m\<close> raises at all, the exception satisfies \<open>P\<close>.\<close>

definition raises_only :: "(exn \<Rightarrow> bool) \<Rightarrow> 'a res \<Rightarrow> bool" where
  "raises_only P m \<longleftrightarrow> (\<forall>e. m = Inl e \<longrightarrow> P e)"

lemma raises_only_simps [simp]:
  "raises_only P (Inr x)"
  "raises_only P (Inl e) \<longleftrightarrow> P e"
  by (auto simp: raises_only_def)

lemma raises_only_bind:
  "raises_only P m \<Longrightarrow> (\<And>x. m = Inr x \<Longrightarrow> raises_only P (f x)) \<Longrightarrow> raises_only P (sum_bind m f)"
  by (auto simp: raises_only_def sum_bind_eq_Inl)

lemma raises_only_catching:
  "raises_only Q m \<Longrightarrow> (\<And>e. Q e \<Longrightarrow> \<not> caught e \<Longrightarrow> P e) \<Longrightarrow> P e' \<Longrightarrow> raises_only P (catching caught e' m)"
  by (auto simp: raises_only_def catching_def split: sum.splits)

lemma raises_only_if:
  "(b \<Longrightarrow> raises_only P m) \<Longrightarrow> (\<not> b \<Longrightarrow> raises_only P m') \<Longrightarrow> raises_only P (if b then m else m')"
  by simp

lemma raises_only_mono: "raises_only P m \<Longrightarrow> (\<And>e. P e \<Longrightarrow> Q e) \<Longrightarrow> raises_only Q m"
  by (auto simp: raises_only_def)

text \<open>The decoder, from what its hooks raise.\<close>

definition decoder_error :: "(exn \<Rightarrow> bool) \<Rightarrow> exn \<Rightarrow> bool" where
  "decoder_error H e \<longleftrightarrow> e = JSONDecodeError \<or> e = ValueError \<or> e = RecursionError \<or> e = FuelExhausted \<or> H e"

lemma decoder_error_simps [simp]:
  "decoder_error H JSONDecodeError" "decoder_error H ValueError" "decoder_error H RecursionError"
  "decoder_error H FuelExhausted"
  by (simp_all add: decoder_error_def)

lemma p_string_raises: "raises_only (decoder_error H) (p_string s)"
proof (induction s rule: p_string.induct)
  case (1 s)
  show ?case
    by (subst p_string.simps) (auto intro!: raises_only_bind 1 split: option.splits)
qed

definition hooks_raise :: "(exn \<Rightarrow> bool) \<Rightarrow> json_reader \<Rightarrow> bool" where
  "hooks_raise H rd \<longleftrightarrow>
     (\<forall>kvs. raises_only H (object_pairs_hook rd kvs)) \<and> (\<forall>t. raises_only H (parse_constant rd t))"

lemma hook_raises:
  assumes "hooks_raise H rd"
  shows "raises_only (decoder_error H) (object_pairs_hook rd kvs)"
    and "raises_only (decoder_error H) (parse_constant rd t)"
  using assms by (simp_all add: hooks_raise_def decoder_error_def raises_only_def)

lemma p_word_raises:
  "hooks_raise H rd \<Longrightarrow> raises_only (decoder_error H) (p_word rd s)"
  by (auto simp: p_word_def p_number_def Let_def intro!: raises_only_bind hook_raises split: option.splits prod.splits)

lemma item_raises:
  "raises_only (decoder_error H) (separator c s)" "raises_only (decoder_error H) (colon s)"
  "raises_only (decoder_error H) (p_key s)"
  by (auto simp: separator_def colon_def p_key_def p_string_raises split: list.splits)

lemma p_raises:
  assumes "hooks_raise H rd"
  shows "raises_only (decoder_error H) (p_value rd d n s)"
    and "raises_only (decoder_error H) (p_elems rd d n s)"
    and "raises_only (decoder_error H) (p_members rd d n s)"
proof (induction n arbitrary: d s)
  case 0
  { case 1 then show ?case by simp }
  { case 2 then show ?case by simp }
  { case 3 then show ?case by simp }
next
  case (Suc n)
  { case 1 show ?case
      by (cases s) (auto intro!: raises_only_bind hook_raises [OF assms] Suc.IH p_string_raises p_word_raises [OF assms]) }
  { case 2 show ?case
      by (auto intro!: raises_only_bind Suc.IH item_raises) }
  { case 3 show ?case
      by (auto intro!: raises_only_bind Suc.IH item_raises) }
qed

lemma json_loads_raises:
  assumes "hooks_raise H rd" and "hooks_terminate rd" and "hooks_flat rd"
  shows "raises_only (\<lambda>e. e = JSONDecodeError \<or> e = ValueError \<or>
    e = RecursionError \<and> reader_levels rd < openers s \<or> H e) (json_loads rd s)"
proof -
  have "raises_only (decoder_error H) (json_loads rd s)"
    unfolding json_loads_def by (auto intro!: raises_only_bind p_raises [OF assms(1)] simp del: p_value.simps)
  then show ?thesis
    using json_loads_no_fuel [OF assms(2), of s] json_loads_recursion [OF assms(3), of s]
    by (auto simp: raises_only_def decoder_error_def)
qed

lemma utf8_decode_raises: "raises_only (\<lambda>e. e = UnicodeDecodeError) (utf8_decode b)"
proof (induction b rule: utf8_decode.induct)
  case (1 bs)
  show ?case
    by (subst utf8_decode.simps) (auto intro!: raises_only_bind 1 split: option.splits)
qed

lemma build_object_raises: "raises_only (\<lambda>e. e = dup) (build_object dup kvs)"
  using build_object_Inl by (auto simp: raises_only_def)

text \<open>
  Bytes that are text with more opening brackets than there are levels, and what the codec can
  raise on bytes: its typed error, a bare \<open>ValueError\<close>, or a \<open>RecursionError\<close> on such bytes.
\<close>

definition nested_beyond :: "nat \<Rightarrow> bytes \<Rightarrow> bool" where
  "nested_beyond d b = (case utf8_decode b of Inl e \<Rightarrow> False | Inr t \<Rightarrow> d < openers t)"

definition codec_levels :: "interpreter \<Rightarrow> nat" where
  "codec_levels py = min (decoder_levels py) (encoder_levels py)"

definition codec_error :: "interpreter \<Rightarrow> bytes \<Rightarrow> exn \<Rightarrow> bool" where
  "codec_error py b e \<longleftrightarrow> e = StateSerializationError \<or> e = ValueError \<or>
     e = RecursionError \<and> nested_beyond (codec_levels py) b"

lemma codec_error_simps [simp]: "codec_error py b StateSerializationError" "codec_error py b ValueError"
  by (simp_all add: codec_error_def)

lemma state_reader_flat [simp]: "hooks_flat (state_reader py)"
  by (auto simp: hooks_flat_def state_reader_def duplicate_rejecting_object_def
      reject_json_constant_def dest!: build_object_Inl)

lemma state_dump_within_Inl:
  "state_dump_within d v = Inl e \<Longrightarrow> e = StateSerializationError \<or> e = RecursionError \<and> \<not> json_within d v"
  (is "_ \<Longrightarrow> ?thesis")
proof -
  have enc: "utf8_encode t = Inl x \<Longrightarrow> x = UnicodeEncodeError" for t x
    by (induction t) (auto simp: sum_bind_eq_Inl split: option.splits)
  assume "state_dump_within d v = Inl e"
  then show ?thesis
    by (auto simp: state_dump_within_def catching_def is_type_or_value_error_def sum_bind_eq_Inl
        split: sum.splits if_splits dest!: json_dumps_within_Inl enc)
qed

lemma state_load_raises: "raises_only (codec_error py b) (state_load py b)"
proof -
  have hooks: "hooks_raise (\<lambda>e. e = StateSerializationError) (state_reader py)"
    using build_object_raises [of StateSerializationError]
    by (simp add: hooks_raise_def state_reader_def duplicate_rejecting_object_def reject_json_constant_def)
  have loads: "raises_only (\<lambda>e. e = JSONDecodeError \<or> codec_error py b e) (json_loads (state_reader py) t)"
    if "utf8_decode b = Inr t" for t
    by (rule raises_only_mono [OF json_loads_raises [OF hooks state_reader_terminates state_reader_flat]])
      (auto simp: codec_error_def nested_beyond_def codec_levels_def that)
  have "raises_only (\<lambda>e. e = UnicodeDecodeError \<or> e = JSONDecodeError \<or> codec_error py b e)
      (sum_bind (utf8_decode b) (json_loads (state_reader py)))"
    by (intro raises_only_bind raises_only_mono [OF utf8_decode_raises] raises_only_mono [OF loads]; simp)
  then have "raises_only (codec_error py b)
      (catching (\<lambda>e. e = UnicodeDecodeError \<or> e = JSONDecodeError) StateSerializationError
        (sum_bind (utf8_decode b) (json_loads (state_reader py))))"
    by (rule raises_only_catching) auto
  moreover have "raises_only (codec_error py b) (state_dump_within (encoder_levels py) v)"
    if "utf8_decode b = Inr t" "json_loads (state_reader py) t = Inr v" for t v
  proof -
    have "json_within (openers t) v" using that(2) by (rule json_loads_within [OF state_reader_strict])
    then have "encoder_levels py < openers t" if "\<not> json_within (encoder_levels py) v"
      using that json_within_mono not_le by blast
    then show ?thesis
      using that(1) by (auto simp: raises_only_def codec_error_def nested_beyond_def codec_levels_def
          dest!: state_dump_within_Inl)
  qed
  ultimately show ?thesis
    unfolding state_load_def
    by (intro raises_only_bind) (auto intro!: raises_only_bind split: json.splits)
qed

section \<open>The payload readers\<close>

lemma object_fields_Inr: "object_fields v keys = Inr p \<longleftrightarrow> v = JObj p \<and> fst ` set p = set keys"
  by (auto simp: object_fields_def split: json.splits)

lemma object_fields_raises: "raises_only (\<lambda>e. e = StateSerializationError) (object_fields v keys)"
  by (auto simp: object_fields_def split: json.splits)

lemma field_present:
  assumes "fst ` set p = set keys" and "lit k \<in> set keys"
  shows "raises_only P (field p k)"
proof -
  have "lit k \<in> fst ` set p" using assms by simp
  then obtain v where "map_of p (lit k) = Some v"
    by (metis map_of_eq_None_iff not_None_eq)
  then show ?thesis by (simp add: field_def)
qed

lemma typed_raises:
  "raises_only (\<lambda>e. e = StateSerializationError) (text_value v)"
  "raises_only (\<lambda>e. e = StateSerializationError) (integer_value v)"
  "raises_only (\<lambda>e. e = StateSerializationError) (optional_text v)"
  by (auto simp: text_value_def integer_value_def optional_text_def split: json.splits)

lemma constructors_raise:
  "raises_only is_type_or_value_error (new_RunId t)" "raises_only is_type_or_value_error (new_ContractId t)"
  "raises_only is_type_or_value_error (new_ContractVersion t)" "raises_only is_type_or_value_error (new_ContractHash t)"
  "raises_only is_type_or_value_error (new_BaselineSha t)" "raises_only is_type_or_value_error (new_PolicyHash t)"
  "raises_only is_type_or_value_error (new_LifecycleState t)" "raises_only is_type_or_value_error (new_LifecycleActor t)"
  "raises_only is_type_or_value_error (new_RunIdentity a1 a2 a3 a4 a5 a6 a7)"
  "raises_only is_type_or_value_error (new_RunLifecycle FS b1 b2 b3 b4 b5)"
  "raises_only is_type_or_value_error (new_RunCheckpoint c1 c2)"
  "raises_only is_type_or_value_error (new_LifecycleTransition FS d1 d2 d3 d4 d5 d6 d7)"
  by (auto simp: new_wrapper_defs require_text_def require_pattern_def new_LifecycleState_def
      new_LifecycleActor_def new_RunIdentity_def new_RunLifecycle_def new_RunCheckpoint_def
      new_LifecycleTransition_def require_revision_def require_utc_def require_final_state_def check_final_def
      is_type_or_value_error_def intro!: raises_only_bind split: option.splits)

lemma sse_ordinary [simp]: "is_type_or_value_error StateSerializationError" "is_type_or_value_error ValueError"
  by (simp_all add: is_type_or_value_error_def)

lemma leaves_raise:
  "raises_only is_type_or_value_error (text_value v)"
  "raises_only is_type_or_value_error (integer_value v)"
  "raises_only is_type_or_value_error (optional_text v)"
  "raises_only is_type_or_value_error (parse_timestamp v)"
  by (auto simp: text_value_def integer_value_def optional_text_def parse_timestamp_def timestamp_def Let_def
      intro!: raises_only_bind split: json.splits option.splits)

lemma check_header_raises:
  assumes "fst ` set p = set keys" and "lit ''format'' \<in> set keys" and "lit ''version'' \<in> set keys"
  shows "raises_only (\<lambda>e. e = StateSerializationError) (check_header p fmt)"
  unfolding check_header_def
  by (auto intro!: raises_only_bind field_present [OF assms(1,2)] field_present [OF assms(1,3)] typed_raises)

text \<open>
  A payload reader checks the fields, then the header, and turns what its body raises into
  \<open>StateSerializationError\<close>.
\<close>

lemma payload_raises:
  assumes "lit ''format'' \<in> set keys" and "lit ''version'' \<in> set keys"
    and "\<And>p. fst ` set p = set keys \<Longrightarrow> raises_only is_type_or_value_error (body p)"
  shows "raises_only (\<lambda>e. e = StateSerializationError)
    (sum_bind (object_fields v keys) (\<lambda>p. sum_bind (check_header p fmt) (\<lambda>_.
      catching is_type_or_value_error StateSerializationError (body p))))"
proof (rule raises_only_bind [OF object_fields_raises])
  fix p
  assume "object_fields v keys = Inr p"
  then have p: "fst ` set p = set keys" by (simp add: object_fields_Inr)
  show "raises_only (\<lambda>e. e = StateSerializationError) (sum_bind (check_header p fmt) (\<lambda>_.
      catching is_type_or_value_error StateSerializationError (body p)))"
    by (rule raises_only_bind [OF check_header_raises [OF p assms(1,2)]])
      (rule raises_only_catching [OF assms(3) [OF p]]; simp)
qed

lemma text_at_raises:
  "fst ` set p = set keys \<Longrightarrow> lit k \<in> set keys \<Longrightarrow> raises_only is_type_or_value_error (text_at p k)"
  unfolding text_at_def by (intro raises_only_bind field_present leaves_raise)

lemma keys_members:
  "lit ''format'' \<in> set IDENTITY_KEYS" "lit ''version'' \<in> set IDENTITY_KEYS"
  "lit ''format'' \<in> set CHECKPOINT_KEYS" "lit ''version'' \<in> set CHECKPOINT_KEYS"
  "lit ''format'' \<in> set TRANSITION_KEYS" "lit ''version'' \<in> set TRANSITION_KEYS"
  by (simp_all add: IDENTITY_KEYS_def CHECKPOINT_KEYS_def TRANSITION_KEYS_def del: lit_simps)

lemma identity_payload_raises: "raises_only (\<lambda>e. e = StateSerializationError) (identity_from_payload v)"
  unfolding identity_from_payload_def
  by (rule payload_raises, rule keys_members, rule keys_members,
      intro raises_only_bind text_at_raises field_present constructors_raise leaves_raise)
    (assumption | simp add: IDENTITY_KEYS_def del: lit_simps)+

lemma transition_payload_raises: "raises_only (\<lambda>e. e = StateSerializationError) (transition_from_payload FS v)"
  unfolding transition_from_payload_def
  by (rule payload_raises, rule keys_members, rule keys_members,
      intro raises_only_bind text_at_raises field_present constructors_raise leaves_raise)
    (assumption | simp add: TRANSITION_KEYS_def del: lit_simps)+

lemma checkpoint_payload_raises: "raises_only (\<lambda>e. e = StateSerializationError) (checkpoint_from_payload FS v)"
proof -
  have i: "raises_only is_type_or_value_error (identity_from_payload iv)" for iv
    by (rule raises_only_mono [OF identity_payload_raises]) simp
  show ?thesis
    unfolding checkpoint_from_payload_def
    by (rule payload_raises, rule keys_members, rule keys_members,
        intro raises_only_bind text_at_raises field_present constructors_raise leaves_raise i)
      (assumption | simp add: CHECKPOINT_KEYS_def del: lit_simps)+
qed

lemma deserialize_raises:
  "raises_only (codec_error py b) (deserialize_run_identity py b)"
  "raises_only (codec_error py b) (deserialize_checkpoint py FS b)"
  "raises_only (codec_error py b) (deserialize_transition py FS b)"
  unfolding deserialize_run_identity_def deserialize_checkpoint_def deserialize_transition_def
  by (intro raises_only_bind state_load_raises raises_only_mono [OF identity_payload_raises]
      raises_only_mono [OF checkpoint_payload_raises] raises_only_mono [OF transition_payload_raises]; simp)+

section \<open>The limits of the decoder\<close>

lemma state_load_error:
  assumes "utf8_decode b = Inr t" and "json_loads (state_reader py) t = Inl e" and "e \<noteq> JSONDecodeError"
    and "e \<noteq> UnicodeDecodeError"
  shows "state_load py b = Inl e"
  using assms by (simp add: state_load_def)

lemma state_load_long:
  assumes "utf8_decode b = Inr (concat (map frame_text fs) @ sg @ ds @ s)"
    and "frames_ok (decoder_levels py) fs" and "length fs \<le> decoder_levels py"
    and "sg = [] \<or> sg = [45]" and "long_literal ds" and "ends_number s"
  shows "state_load py b = Inl ValueError"
  using assms by (intro state_load_error [OF assms(1)] json_loads_long) simp_all

lemma state_load_deep:
  assumes "utf8_decode b = Inr (concat (map frame_text fs) @ s)"
    and "frames_ok (decoder_levels py) fs" and "decoder_levels py < length fs"
  shows "state_load py b = Inl RecursionError"
  using assms by (intro state_load_error [OF assms(1)] json_loads_deep) simp_all

end
