(* ===== verification/ContractBinding.thy ===== *)
theory ContractBinding
  imports Sha256 StateErrors
begin

text \<open>
  \<open>domain/contract_binding.py\<close> and \<open>application/contract_binding.py\<close>: the binding between
  exact contract bytes and the canonical contract. The contract model belongs to the schemas
  package, which is not part of the repository: its validator, its constructor from a decoded
  document and the two attributes the program reads are a parameter, the record
  \<open>contract_package\<close>.
\<close>

record 'c contract_package =
  pkg_validate :: "json \<Rightarrow> str list res"
  pkg_from_dict :: "json \<Rightarrow> 'c res"
  pkg_id :: "'c \<Rightarrow> str"
  pkg_version :: "'c \<Rightarrow> str"

section \<open>Decoding\<close>

definition object_without_duplicates :: "(str \<times> json) list \<Rightarrow> json res" where
  "object_without_duplicates pairs = build_object DuplicateKeyError pairs"

definition reject_nonfinite_number :: "str \<Rightarrow> json res" where
  "reject_nonfinite_number v = Inl ValueError"

definition contract_reader :: "interpreter \<Rightarrow> json_reader" where
  "contract_reader py = \<lparr>parse_float = float_text py, object_pairs_hook = object_without_duplicates,
     parse_constant = reject_nonfinite_number, spare_levels = spare_decoder_levels py\<rparr>"

text \<open>\<open>except (KeyError, TypeError, ValueError)\<close>\<close>

definition is_document_error :: "exn \<Rightarrow> bool" where
  "is_document_error e \<longleftrightarrow> e = KeyError \<or> is_type_or_value_error e"

definition parse_contract ::
  "interpreter \<Rightarrow> 'c contract_package \<Rightarrow> bytes \<Rightarrow> 'c res" where
  "parse_contract py pkg source =
    sum_bind (catching (\<lambda>e. e = UnicodeDecodeError) (ContractBindingError CB_INVALID_UTF8)
        (utf8_decode source)) (\<lambda>t.
    sum_bind (catching is_ValueError (ContractBindingError CB_INVALID_JSON)
        (json_loads (contract_reader py) t)) (\<lambda>decoded.
    case decoded of
      JObj document \<Rightarrow>
        sum_bind (catching is_document_error (ContractBindingError CB_INVALID_CONTRACT)
            (pkg_validate pkg decoded)) (\<lambda>errors.
        if errors \<noteq> [] then Inl (ContractBindingError CB_INVALID_CONTRACT)
        else catching is_document_error (ContractBindingError CB_INVALID_CONTRACT)
          (pkg_from_dict pkg decoded))
    | _ \<Rightarrow> Inl (ContractBindingError CB_INVALID_DOCUMENT)))"

definition hash_contract :: "bytes \<Rightarrow> contract_hash res" where
  "hash_contract source = new_ContractHash (sha256_hexdigest source)"

section \<open>Bound contracts\<close>

record 'c bound_contract =
  bc_contract :: 'c
  bc_hash :: contract_hash
  bc_source :: bytes

text \<open>The constructor parses and hashes the bytes again.\<close>

definition new_BoundContract ::
  "interpreter \<Rightarrow> 'c contract_package \<Rightarrow> 'c \<Rightarrow> contract_hash \<Rightarrow> bytes \<Rightarrow> 'c bound_contract res" where
  "new_BoundContract py pkg contract chash source =
    sum_bind (parse_contract py pkg source) (\<lambda>parsed.
    sum_bind (hash_contract source) (\<lambda>expected.
    if parsed \<noteq> contract \<or> expected \<noteq> chash then Inl (ContractBindingError CB_BINDING_MISMATCH)
    else Inr \<lparr>bc_contract = contract, bc_hash = chash, bc_source = source\<rparr>))"

definition bound_from_json_bytes ::
  "interpreter \<Rightarrow> 'c contract_package \<Rightarrow> bytes \<Rightarrow> 'c bound_contract res" where
  "bound_from_json_bytes py pkg source =
    sum_bind (parse_contract py pkg source) (\<lambda>contract.
    sum_bind (hash_contract source) (\<lambda>chash. new_BoundContract py pkg contract chash source))"

definition bind_contract ::
  "interpreter \<Rightarrow> 'c contract_package \<Rightarrow> bytes \<Rightarrow> 'c bound_contract res" where
  "bind_contract py pkg source = bound_from_json_bytes py pkg source"

section \<open>What a binding proves\<close>

lemma hash_contract_Inr: "hash_contract source = Inr (ContractHash (sha256_hexdigest source))"
  using sha256_format by (simp add: hash_contract_def new_ContractHash_Inr SHA256_PATTERN_def)

lemma new_BoundContract_Inr:
  "new_BoundContract py pkg contract chash source = Inr b \<longleftrightarrow>
     parse_contract py pkg source = Inr contract \<and> chash = ContractHash (sha256_hexdigest source) \<and>
     b = \<lparr>bc_contract = contract, bc_hash = chash, bc_source = source\<rparr>"
  by (auto simp: new_BoundContract_def hash_contract_Inr)

lemma bind_contract_exact:
  "bind_contract py pkg source = sum_bind (parse_contract py pkg source) (\<lambda>contract.
     Inr \<lparr>bc_contract = contract, bc_hash = ContractHash (sha256_hexdigest source), bc_source = source\<rparr>)"
  by (cases "parse_contract py pkg source")
    (simp_all add: bind_contract_def bound_from_json_bytes_def hash_contract_Inr new_BoundContract_def)

text \<open>Accepted bytes are UTF-8 JSON whose objects have no key twice.\<close>

lemma contract_reader_strict: "strict_reader (contract_reader py)"
  by (simp add: strict_reader_def contract_reader_def object_without_duplicates_def
      reject_nonfinite_number_def build_object_Inr)

lemma case_object_Inr:
  "(case v of JObj kvs \<Rightarrow> f kvs | _ \<Rightarrow> Inl e) = Inr c \<longleftrightarrow> (\<exists>kvs. v = JObj kvs \<and> f kvs = Inr c)"
  by (cases v) auto

lemma parse_contract_Inr:
  "parse_contract py pkg source = Inr c \<longleftrightarrow>
     (\<exists>t kvs. utf8_decode source = Inr t \<and> json_loads (contract_reader py) t = Inr (JObj kvs) \<and>
        pkg_validate pkg (JObj kvs) = Inr [] \<and> pkg_from_dict pkg (JObj kvs) = Inr c)"
  by (auto simp: parse_contract_def case_object_Inr split: if_splits)

lemma parse_contract_distinct:
  "utf8_decode source = Inr t \<Longrightarrow> json_loads (contract_reader py) t = Inr v \<Longrightarrow> keys_distinct v"
  using json_loads_decoded(1) contract_reader_strict by blast

text \<open>
  A failure is a \<open>ContractBindingError\<close>, the \<open>RecursionError\<close> of a text nested too deep, or an
  exception of the package that the caller does not expect of it.
\<close>

definition is_binding_error :: "exn \<Rightarrow> bool" where
  "is_binding_error e \<longleftrightarrow> (\<exists>c. e = ContractBindingError c)"

definition package_raises :: "'c contract_package \<Rightarrow> exn \<Rightarrow> bool" where
  "package_raises pkg e \<longleftrightarrow> (\<exists>v. pkg_validate pkg v = Inl e \<or> pkg_from_dict pkg v = Inl e)"

lemma contract_reader_hooks:
  "hooks_raise is_ValueError (contract_reader py)" "hooks_terminate (contract_reader py)"
  "hooks_flat (contract_reader py)" "builds_objects (contract_reader py)"
  "reader_levels (contract_reader py) = decoder_levels py"
  by (auto simp: hooks_raise_def hooks_terminate_def hooks_flat_def builds_objects_def reader_levels_def
      decoder_levels_def contract_reader_def object_without_duplicates_def reject_nonfinite_number_def
      build_object_Inr raises_only_def dest!: build_object_Inl)

lemma contract_loads_Inl:
  assumes "json_loads (contract_reader py) t = Inl e"
  shows "is_ValueError e \<or> e = RecursionError \<and> decoder_levels py < openers t"
  using json_loads_raises [OF contract_reader_hooks(1-3), of py t] assms
  by (auto simp: raises_only_def contract_reader_hooks(5))

lemma parse_contract_Inl:
  assumes "parse_contract py pkg source = Inl e"
  shows "is_binding_error e \<or> e = RecursionError \<and> nested_beyond (decoder_levels py) source \<or>
    \<not> is_document_error e \<and> package_raises pkg e"
proof -
  let ?text = "catching (\<lambda>e. e = UnicodeDecodeError) (ContractBindingError CB_INVALID_UTF8) (utf8_decode source)"
  consider (utf8) "?text = Inl e"
    | (json) t x where "utf8_decode source = Inr t" "json_loads (contract_reader py) t = Inl x"
        "e = (if is_ValueError x then ContractBindingError CB_INVALID_JSON else x)"
    | (document) v where "(case v of
        JObj document \<Rightarrow>
          sum_bind (catching is_document_error (ContractBindingError CB_INVALID_CONTRACT)
              (pkg_validate pkg v)) (\<lambda>errors.
          if errors \<noteq> [] then Inl (ContractBindingError CB_INVALID_CONTRACT)
          else catching is_document_error (ContractBindingError CB_INVALID_CONTRACT) (pkg_from_dict pkg v))
      | _ \<Rightarrow> Inl (ContractBindingError CB_INVALID_DOCUMENT)) = Inl e"
    using assms by (fastforce simp: parse_contract_def sum_bind_eq_Inl catching_def split: sum.splits)
  then show ?thesis
  proof cases
    case utf8
    then show ?thesis
      using utf8_decode_raises [of source]
      by (auto simp: raises_only_def catching_def is_binding_error_def split: sum.splits)
  next
    case json
    then show ?thesis
      using contract_loads_Inl by (force simp: is_binding_error_def nested_beyond_def)
  next
    case document
    then show ?thesis
      by (auto simp: sum_bind_eq_Inl catching_def is_binding_error_def package_raises_def
          split: json.splits sum.splits if_splits)
  qed
qed

lemma parse_contract_deep:
  assumes "utf8_decode b = Inr (concat (map frame_text fs) @ s)"
    and "frames_ok (decoder_levels py) fs" and "decoder_levels py < length fs"
  shows "parse_contract py pkg b = Inl RecursionError"
  using json_loads_deep [of "contract_reader py" fs s] assms
  by (simp add: parse_contract_def contract_reader_hooks)

end
