(* ===== verification/SqliteEngine.thy ===== *)
theory SqliteEngine
  imports StateCodec
begin

text \<open>
  The part of the \<open>sqlite3\<close> module the state store relies on. A database is a schema
  version and two tables, absent until they are created. A connection (\<open>session\<close>) sees the
  durable database, or the working copy of an open transaction, which becomes durable at
  \<open>COMMIT\<close> and is dropped when the connection closes. What the world does to the
  connection is a list of events, one per executed statement: the statement runs (\<open>Quiet\<close>),
  raises \<open>sqlite3.Error\<close> (\<open>Fails\<close>), or runs after another connection has committed a
  database (\<open>Overtaken\<close>), which \<open>BEGIN IMMEDIATE\<close> rules out until the transaction ends.
  A list that has run out means \<open>Quiet\<close>.
\<close>

section \<open>Values, rows and tables\<close>

datatype sqlval = SqlNull | SqlInteger int | SqlReal str | SqlText str | SqlBlob bytes

text \<open>\<open>ORDER BY\<close>: NULL, then numbers, then text, then blobs; the order of reals is not needed.\<close>

fun sql_order :: "sqlval \<Rightarrow> int list" where
  "sql_order SqlNull = [0]"
| "sql_order (SqlInteger i) = [1, i]"
| "sql_order (SqlReal t) = 2 # map int t"
| "sql_order (SqlText t) = 3 # map int t"
| "sql_order (SqlBlob b) = 4 # map uint b"

record run_row =
  row_run_id :: str
  row_identity :: sqlval
  row_checkpoint :: sqlval

record transition_row =
  tr_run_id :: str
  tr_revision :: sqlval
  tr_transition :: sqlval

record database =
  db_version :: int
  db_runs :: "run_row list option"
  db_transitions :: "transition_row list option"

text \<open>A new database file.\<close>

definition empty_database :: database where
  "empty_database = \<lparr>db_version = 0, db_runs = None, db_transitions = None\<rparr>"

text \<open>A missing table is an error of the statement.\<close>

definition table :: "'a list option \<Rightarrow> 'a list res" where
  "table t = (case t of None \<Rightarrow> Inl SqliteError | Some rows \<Rightarrow> Inr rows)"

section \<open>Statements of the store\<close>

definition sql_create_runs :: "database \<Rightarrow> database res" where
  "sql_create_runs db = (if db_runs db \<noteq> None then Inl SqliteError else Inr (db\<lparr>db_runs := Some []\<rparr>))"

definition sql_create_transitions :: "database \<Rightarrow> database res" where
  "sql_create_transitions db =
    (if db_transitions db \<noteq> None then Inl SqliteError else Inr (db\<lparr>db_transitions := Some []\<rparr>))"

definition sql_set_version :: "int \<Rightarrow> database \<Rightarrow> database res" where
  "sql_set_version v db = Inr (db\<lparr>db_version := v\<rparr>)"

definition sql_select_run :: "str \<Rightarrow> database \<Rightarrow> run_row option res" where
  "sql_select_run k db = sum_bind (table (db_runs db)) (\<lambda>rows. Inr (find (\<lambda>r. row_run_id r = k) rows))"

definition sql_select_transitions :: "str \<Rightarrow> database \<Rightarrow> transition_row list res" where
  "sql_select_transitions k db = sum_bind (table (db_transitions db)) (\<lambda>rows.
     Inr (sort_key (\<lambda>r. sql_order (tr_revision r)) (filter (\<lambda>r. tr_run_id r = k) rows)))"

text \<open>\<open>INSERT INTO alicerce_runs\<close>: the primary key must be new.\<close>

definition sql_insert_run :: "str \<Rightarrow> bytes \<Rightarrow> bytes \<Rightarrow> database \<Rightarrow> database res" where
  "sql_insert_run k ib cb db = sum_bind (table (db_runs db)) (\<lambda>rows.
     if k \<in> row_run_id ` set rows then Inl SqliteError
     else Inr (db\<lparr>db_runs := Some (rows @
       [\<lparr>row_run_id = k, row_identity = SqlBlob ib, row_checkpoint = SqlBlob cb\<rparr>])\<rparr>))"

text \<open>
  \<open>INSERT INTO alicerce_transitions\<close>: a 64-bit revision above 0, a new primary key and an
  existing run. The adapter raises \<open>OverflowError\<close> for an integer SQLite cannot hold; it is
  not an \<open>sqlite3.Error\<close>.
\<close>

definition sql_insert_transition :: "str \<Rightarrow> int \<Rightarrow> bytes \<Rightarrow> database \<Rightarrow> database res" where
  "sql_insert_transition k rvn tb db =
    (if 2 ^ 63 \<le> rvn \<or> rvn < - (2 ^ 63) then Inl OverflowError
     else sum_bind (table (db_runs db)) (\<lambda>runs. sum_bind (table (db_transitions db)) (\<lambda>rows.
       if rvn \<le> 0 \<or> k \<notin> row_run_id ` set runs \<or>
          (\<exists>r \<in> set rows. tr_run_id r = k \<and> tr_revision r = SqlInteger rvn)
       then Inl SqliteError
       else Inr (db\<lparr>db_transitions := Some (rows @
         [\<lparr>tr_run_id = k, tr_revision = SqlInteger rvn, tr_transition = SqlBlob tb\<rparr>])\<rparr>))))"

text \<open>\<open>UPDATE alicerce_runs SET checkpoint = ? WHERE run_id = ? AND checkpoint = ?\<close> and its row count.\<close>

definition update_matches :: "str \<Rightarrow> bytes \<Rightarrow> run_row \<Rightarrow> bool" where
  "update_matches k old r \<longleftrightarrow> row_run_id r = k \<and> row_checkpoint r = SqlBlob old"

definition sql_update_checkpoint :: "str \<Rightarrow> bytes \<Rightarrow> bytes \<Rightarrow> database \<Rightarrow> (nat \<times> database) res" where
  "sql_update_checkpoint k old new db = sum_bind (table (db_runs db)) (\<lambda>rows.
     Inr (length (filter (update_matches k old) rows),
          db\<lparr>db_runs := Some (map (\<lambda>r. if update_matches k old r
            then r\<lparr>row_checkpoint := SqlBlob new\<rparr> else r) rows)\<rparr>))"

section \<open>Connections\<close>

datatype event = Quiet | Fails | Overtaken database

record session =
  ses_durable :: database
  ses_working :: "database option"
  ses_events :: "event list"

type_synonym 'a sql = "session \<Rightarrow> 'a res \<times> session"

definition sql_return :: "'a \<Rightarrow> 'a sql" where
  "sql_return x s = (Inr x, s)"

definition sql_lift :: "'a res \<Rightarrow> 'a sql" where
  "sql_lift m s = (m, s)"

definition sql_bind :: "'a sql \<Rightarrow> ('a \<Rightarrow> 'b sql) \<Rightarrow> 'b sql" where
  "sql_bind m f s = (case m s of (Inl e, s') \<Rightarrow> (Inl e, s') | (Inr x, s') \<Rightarrow> f x s')"

definition sql_catching :: "(exn \<Rightarrow> bool) \<Rightarrow> exn \<Rightarrow> 'a sql \<Rightarrow> 'a sql" where
  "sql_catching caught e m s = (case m s of (r, s') \<Rightarrow> (catching caught e r, s'))"

text \<open>Executing any statement meets the next event.\<close>

definition statement :: "unit sql" where
  "statement s = (case ses_events s of
      [] \<Rightarrow> (Inr (), s)
    | ev # evs \<Rightarrow>
        let s' = s\<lparr>ses_events := evs\<rparr> in
        (case ev of
           Quiet \<Rightarrow> (Inr (), s')
         | Fails \<Rightarrow> (Inl SqliteError, s')
         | Overtaken db \<Rightarrow> (Inr (), if ses_working s = None then s'\<lparr>ses_durable := db\<rparr> else s')))"

definition visible :: "session \<Rightarrow> database" where
  "visible s = (case ses_working s of None \<Rightarrow> ses_durable s | Some db \<Rightarrow> db)"

definition query :: "(database \<Rightarrow> 'a res) \<Rightarrow> 'a sql" where
  "query f = sql_bind statement (\<lambda>_ s. (f (visible s), s))"

text \<open>A statement that writes: into the working copy, or durably outside a transaction.\<close>

definition execute_returning :: "(database \<Rightarrow> ('a \<times> database) res) \<Rightarrow> 'a sql" where
  "execute_returning f = sql_bind statement (\<lambda>_ s. case f (visible s) of
      Inl e \<Rightarrow> (Inl e, s)
    | Inr (x, db) \<Rightarrow> (Inr x, if ses_working s = None then s\<lparr>ses_durable := db\<rparr>
                            else s\<lparr>ses_working := Some db\<rparr>))"

definition execute_write :: "(database \<Rightarrow> database res) \<Rightarrow> unit sql" where
  "execute_write f = execute_returning (\<lambda>db. sum_bind (f db) (\<lambda>db'. Inr ((), db')))"

definition begin_immediate :: "unit sql" where
  "begin_immediate = sql_bind statement (\<lambda>_ s. (Inr (), s\<lparr>ses_working := Some (ses_durable s)\<rparr>))"

text \<open>\<open>commit()\<close> and \<open>rollback()\<close> do nothing outside a transaction.\<close>

definition commit :: "unit sql" where
  "commit s = (case ses_working s of
      None \<Rightarrow> (Inr (), s)
    | Some db \<Rightarrow> sql_bind statement
        (\<lambda>_ s'. (Inr (), s'\<lparr>ses_durable := db, ses_working := None\<rparr>)) s)"

definition rollback :: "unit sql" where
  "rollback s = (case ses_working s of
      None \<Rightarrow> (Inr (), s)
    | Some db \<Rightarrow> sql_bind statement (\<lambda>_ s'. (Inr (), s'\<lparr>ses_working := None\<rparr>)) s)"

definition close :: "session \<Rightarrow> session" where
  "close s = s\<lparr>ses_working := None\<rparr>"

definition open_session :: "event list \<Rightarrow> database \<Rightarrow> session" where
  "open_session evs db = \<lparr>ses_durable = db, ses_working = None, ses_events = evs\<rparr>"

text \<open>Opening the file and \<open>PRAGMA foreign_keys = ON\<close>.\<close>

definition connect :: "unit sql" where
  "connect = sql_bind statement (\<lambda>_. statement)"

section \<open>What a session keeps\<close>

lemma sql_bind_cases:
  "sql_bind m f s = (r, s') \<longleftrightarrow>
     (\<exists>e. m s = (Inl e, s') \<and> r = Inl e) \<or> (\<exists>x t. m s = (Inr x, t) \<and> f x t = (r, s'))"
  by (auto simp: sql_bind_def split: prod.splits sum.splits)

lemma sql_bind_return [simp]: "sql_bind (sql_return x) f = f x"
  by (rule ext) (simp add: sql_bind_def sql_return_def)

lemma sql_bind_lift: "sql_bind (sql_lift m) f = (case m of Inl e \<Rightarrow> sql_lift (Inl e) | Inr x \<Rightarrow> f x)"
  by (rule ext) (simp add: sql_bind_def sql_lift_def split: sum.splits)

end
