(* ===== verification/SqliteStateStore.thy ===== *)
theory SqliteStateStore
  imports SqliteEngine
begin

text \<open>
  \<open>adapters/local/sqlite_state_store.py\<close>: the durable state store. Each operation opens a
  connection, runs its statements, maps \<open>sqlite3.Error\<close> to a storage failure, rolls an open
  transaction back and closes. An operation takes the events of its connection and the
  durable database and gives its outcome and the durable database it leaves.
  \<open>validated_run\<close> replays the journal through \<open>advance_lifecycle\<close> before anything is returned.
\<close>

section \<open>Schema\<close>

definition SCHEMA_VERSION :: int where "SCHEMA_VERSION = 1"

text \<open>
  The \<open>except\<close> and \<open>finally\<close> clauses of the operations that open a transaction, and of
  those that only read.
\<close>

definition store_write :: "'a sql \<Rightarrow> 'a sql" where
  "store_write body s = (case body s of
      (Inr x, s') \<Rightarrow> (Inr x, close s')
    | (Inl e, s') \<Rightarrow>
        if is_StateStoreError e then
          (case rollback s' of (Inr _, t) \<Rightarrow> (Inl e, close t) | (Inl e', t) \<Rightarrow> (Inl e', close t))
        else if e = SqliteError then
          (case rollback s' of
             (Inr _, t) \<Rightarrow> (Inl (StateStoreError SS_STORAGE_FAILURE), close t)
           | (Inl e', t) \<Rightarrow> (Inl e', close t))
        else (Inl e, close s'))"

definition store_read :: "'a sql \<Rightarrow> 'a sql" where
  "store_read body s = (case body s of (r, s') \<Rightarrow>
     (catching (\<lambda>e. e = SqliteError) (StateStoreError SS_STORAGE_FAILURE) r, close s'))"

text \<open>Run one operation on a database.\<close>

definition perform :: "'a sql \<Rightarrow> event list \<Rightarrow> database \<Rightarrow> 'a res \<times> database" where
  "perform m evs db = (case m (open_session evs db) of (r, s) \<Rightarrow> (r, ses_durable s))"

definition schema_statements :: "unit sql" where
  "schema_statements =
    sql_bind (execute_write sql_create_runs) (\<lambda>_.
    sql_bind (execute_write sql_create_transitions) (\<lambda>_.
      execute_write (sql_set_version 1)))"

definition initialize_schema :: "unit sql" where
  "initialize_schema = store_write (
    sql_bind connect (\<lambda>_.
    sql_bind begin_immediate (\<lambda>_.
    sql_bind (query (\<lambda>db. Inr (db_version db))) (\<lambda>version.
    sql_bind
      (if version = 0 then schema_statements
       else if version \<noteq> SCHEMA_VERSION then sql_lift (Inl (StateStoreError SS_CORRUPT))
       else sql_return ()) (\<lambda>_.
    commit)))))"

section \<open>Validation\<close>

definition corrupt :: "'a res" where
  "corrupt = Inl (StateStoreError SS_CORRUPT)"

definition blob :: "sqlval \<Rightarrow> bytes res" where
  "blob v = (case v of SqlBlob b \<Rightarrow> Inr b | _ \<Rightarrow> corrupt)"

text \<open>The identity and the checkpoint of a row, and the initial checkpoint the replay starts from.\<close>

definition stored_run ::
  "interpreter \<Rightarrow> str list \<Rightarrow> run_id \<Rightarrow> run_row \<Rightarrow>
   (run_identity \<times> run_checkpoint \<times> run_checkpoint) res" where
  "stored_run py FS rid row =
    sum_bind (blob (row_identity row)) (\<lambda>ib. sum_bind (deserialize_run_identity py ib) (\<lambda>ident.
    sum_bind (blob (row_checkpoint row)) (\<lambda>cb. sum_bind (deserialize_checkpoint py FS cb) (\<lambda>stored.
    if ident \<noteq> cp_identity stored \<or> ri_run_id ident \<noteq> rid then corrupt
    else sum_bind (create_initial_checkpoint FS ident) (\<lambda>initial. Inr (ident, stored, initial))))))"

fun replay ::
  "interpreter \<Rightarrow> str list \<Rightarrow> run_identity \<Rightarrow> int \<Rightarrow> run_checkpoint \<Rightarrow> lifecycle_transition list \<Rightarrow>
   transition_row list \<Rightarrow> (run_checkpoint \<times> lifecycle_transition list) res" where
  "replay py FS ident expected cp events [] = Inr (cp, events)"
| "replay py FS ident expected cp events (row # rows) =
    (if tr_revision row \<noteq> SqlInteger expected then corrupt
     else sum_bind (blob (tr_transition row)) (\<lambda>tb. sum_bind (deserialize_transition py FS tb) (\<lambda>event.
       sum_bind (advance_lifecycle FS (cp_lifecycle cp) (ev_to_state event) (ev_occurred_at event)
           (ev_actor event) (ev_final_state event)) (\<lambda>generated.
       if adv_transition generated \<noteq> event then corrupt
       else sum_bind (new_RunCheckpoint ident (adv_lifecycle generated)) (\<lambda>cp'.
         replay py FS ident (expected + 1) cp' (events @ [event]) rows)))))"

definition replayed_run ::
  "interpreter \<Rightarrow> str list \<Rightarrow> run_identity \<Rightarrow> run_checkpoint \<Rightarrow> run_checkpoint \<Rightarrow>
   transition_row list \<Rightarrow> (run_checkpoint \<times> lifecycle_transition list) res" where
  "replayed_run py FS ident stored initial rows =
    sum_bind (replay py FS ident 1 initial [] rows) (\<lambda>(cp, events).
      if cp \<noteq> stored then corrupt else Inr (cp, events))"

definition validated_run ::
  "interpreter \<Rightarrow> str list \<Rightarrow> run_id \<Rightarrow> (run_checkpoint \<times> lifecycle_transition list) option sql" where
  "validated_run py FS rid =
    sql_bind (query (sql_select_run (run_id_value rid))) (\<lambda>row.
    case row of
      None \<Rightarrow> sql_return None
    | Some r \<Rightarrow>
        sql_catching is_type_or_value_error (StateStoreError SS_CORRUPT) (
          sql_bind (sql_lift (stored_run py FS rid r)) (\<lambda>(ident, stored, initial).
          sql_bind (query (sql_select_transitions (run_id_value rid))) (\<lambda>rows.
          sql_bind (sql_lift (replayed_run py FS ident stored initial rows)) (\<lambda>run.
          sql_return (Some run))))))"

section \<open>Operations\<close>

definition initialize_body :: "run_checkpoint \<Rightarrow> unit sql" where
  "initialize_body cp =
    (let key = run_id_value (ri_run_id (cp_identity cp)) in
     sql_bind (query (sql_select_run key)) (\<lambda>existing.
     if existing \<noteq> None then sql_lift (Inl (StateStoreError SS_ALREADY_EXISTS))
     else
       sql_bind (sql_lift (serialize_run_identity (cp_identity cp))) (\<lambda>ib.
       sql_bind (sql_lift (serialize_checkpoint cp)) (\<lambda>cb.
         execute_write (sql_insert_run key ib cb)))))"

definition store_initialize :: "str list \<Rightarrow> run_checkpoint \<Rightarrow> unit sql" where
  "store_initialize FS cp =
    sql_bind (sql_lift (create_initial_checkpoint FS (cp_identity cp))) (\<lambda>initial.
    if cp \<noteq> initial then sql_lift (Inl (StateStoreError SS_CONFLICT))
    else store_write (
      sql_bind connect (\<lambda>_. sql_bind begin_immediate (\<lambda>_. sql_bind (initialize_body cp) (\<lambda>_. commit)))))"

definition store_load :: "interpreter \<Rightarrow> str list \<Rightarrow> run_id \<Rightarrow> run_checkpoint option sql" where
  "store_load py FS rid = store_read (
    sql_bind connect (\<lambda>_. sql_bind (validated_run py FS rid) (\<lambda>validated.
      sql_return (map_option fst validated))))"

definition append_body ::
  "interpreter \<Rightarrow> str list \<Rightarrow> state_update \<Rightarrow> run_checkpoint sql" where
  "append_body py FS u =
    (let expected = up_expected u;
         rid = ri_run_id (cp_identity expected);
         key = run_id_value rid;
         event = adv_transition (up_advance u) in
     sql_bind (validated_run py FS rid) (\<lambda>validated.
     case validated of
       None \<Rightarrow> sql_lift (Inl (StateStoreError SS_NOT_FOUND))
     | Some (current, _) \<Rightarrow>
         if current \<noteq> expected then sql_lift (Inl (StateStoreError SS_CONFLICT))
         else
           sql_bind (sql_lift (serialize_checkpoint expected)) (\<lambda>expected_bytes.
           sql_bind (sql_lift (next_checkpoint u)) (\<lambda>next.
           sql_bind (sql_lift (serialize_transition event)) (\<lambda>tb.
           sql_bind (execute_write (sql_insert_transition key (ev_revision event) tb)) (\<lambda>_.
           sql_bind (sql_lift (serialize_checkpoint next)) (\<lambda>cb.
           sql_bind (execute_returning (sql_update_checkpoint key expected_bytes cb)) (\<lambda>rowcount.
           if rowcount \<noteq> 1 then sql_lift (Inl (StateStoreError SS_CONFLICT))
           else sql_return next))))))))"

definition store_compare_and_append ::
  "interpreter \<Rightarrow> str list \<Rightarrow> state_update \<Rightarrow> run_checkpoint sql" where
  "store_compare_and_append py FS u = store_write (
    sql_bind connect (\<lambda>_. sql_bind begin_immediate (\<lambda>_. sql_bind (append_body py FS u) (\<lambda>next.
      sql_bind commit (\<lambda>_. sql_return next)))))"

definition store_history ::
  "interpreter \<Rightarrow> str list \<Rightarrow> run_id \<Rightarrow> lifecycle_transition list sql" where
  "store_history py FS rid = store_read (
    sql_bind connect (\<lambda>_. sql_bind (validated_run py FS rid) (\<lambda>validated.
      case validated of
        None \<Rightarrow> sql_lift (Inl (StateStoreError SS_NOT_FOUND))
      | Some (_, events) \<Rightarrow> sql_return events)))"

end
