(* ===== verification/StoreTransactions.thy ===== *)
theory StoreTransactions
  imports SqliteStateStore
begin

text \<open>
  What a store operation does to the database, whatever happens to its statements. Inside a
  transaction a body follows a pure function on the database or stops at a failing statement
  (\<open>runs_as\<close>, closed under the combinators). A whole write operation is atomic
  (\<open>write_transaction_atomic\<close>): it applies that function to one database it found under the
  lock, or leaves that database as it was.
\<close>

section \<open>Transactions as pure functions\<close>

text \<open>
  \<open>runs_as m g\<close>: inside a transaction \<open>m\<close> does to the working copy what \<open>g\<close> says, or a
  statement fails; the durable database is not touched. Without failing statements the
  outcome is that of \<open>g\<close>.
\<close>

definition follows :: "session \<Rightarrow> ('a \<times> database) res \<Rightarrow> 'a res \<Rightarrow> session \<Rightarrow> bool" where
  "follows s expected r t \<longleftrightarrow>
     ses_durable t = ses_durable s \<and> set (ses_events t) \<subseteq> set (ses_events s) \<and>
     (case r of
        Inr x \<Rightarrow> \<exists>db'. expected = Inr (x, db') \<and> ses_working t = Some db'
      | Inl e \<Rightarrow> ses_working t \<noteq> None \<and> (expected = Inl e \<or> e = SqliteError \<and> Fails \<in> set (ses_events s)))"

definition runs_as :: "'a sql \<Rightarrow> (database \<Rightarrow> ('a \<times> database) res) \<Rightarrow> bool" where
  "runs_as m g \<longleftrightarrow> (\<forall>s db r t. ses_working s = Some db \<longrightarrow> m s = (r, t) \<longrightarrow> follows s (g db) r t)"

lemma follows_simps [simp]:
  "follows s ex (Inr x) t \<longleftrightarrow> ses_durable t = ses_durable s \<and> set (ses_events t) \<subseteq> set (ses_events s) \<and>
     (\<exists>db'. ex = Inr (x, db') \<and> ses_working t = Some db')"
  "follows s ex (Inl e) t \<longleftrightarrow> ses_durable t = ses_durable s \<and> set (ses_events t) \<subseteq> set (ses_events s) \<and>
     ses_working t \<noteq> None \<and> (ex = Inl e \<or> e = SqliteError \<and> Fails \<in> set (ses_events s))"
  by (simp_all add: follows_def)

lemma runs_asD: "runs_as m g \<Longrightarrow> ses_working s = Some db \<Longrightarrow> m s = (r, t) \<Longrightarrow> follows s (g db) r t"
  unfolding runs_as_def by blast

lemma runs_asI: "(\<And>s db r t. ses_working s = Some db \<Longrightarrow> m s = (r, t) \<Longrightarrow> follows s (g db) r t) \<Longrightarrow> runs_as m g"
  unfolding runs_as_def by blast

lemma statement_in_transaction:
  assumes "ses_working s = Some db" and "statement s = (r, t)"
  shows "ses_durable t = ses_durable s" and "ses_working t = Some db"
    and "set (ses_events t) \<subseteq> set (ses_events s)"
    and "r = Inr () \<or> r = Inl SqliteError \<and> Fails \<in> set (ses_events s)"
  using assms by (auto simp: statement_def Let_def split: list.splits event.splits)

lemma runs_as_lift: "runs_as (sql_lift m) (\<lambda>db. sum_bind m (\<lambda>x. Inr (x, db)))"
  by (rule runs_asI, cases m) (auto simp: sql_lift_def)

lemma runs_as_return: "runs_as (sql_return x) (\<lambda>db. Inr (x, db))"
  by (rule runs_asI) (auto simp: sql_return_def)

lemma runs_as_bind:
  assumes m: "runs_as m g" and f: "\<And>x. runs_as (f x) (h x)"
  shows "runs_as (sql_bind m f) (\<lambda>db. sum_bind (g db) (\<lambda>(x, db'). h x db'))"
proof (rule runs_asI)
  fix s db r t
  assume w: "ses_working s = Some db" and run: "sql_bind m f s = (r, t)"
  obtain r1 t1 where m1: "m s = (r1, t1)" by fastforce
  note M = runs_asD [OF m w m1]
  show "follows s (sum_bind (g db) (\<lambda>(x, db'). h x db')) r t"
  proof (cases r1)
    case (Inl e)
    with run m1 have "r = Inl e" "t = t1" by (simp_all add: sql_bind_def)
    with M Inl show ?thesis by auto
  next
    case (Inr x)
    then obtain db1 where g: "g db = Inr (x, db1)" and w1: "ses_working t1 = Some db1"
      using M by auto
    have fx: "f x t1 = (r, t)" using run m1 Inr by (simp add: sql_bind_def)
    have "follows t1 (h x db1) r t" by (rule runs_asD [OF f w1 fx])
    with M Inr g show ?thesis
      by (cases r) (simp_all, blast+)
  qed
qed

lemma runs_as_returning: "runs_as (execute_returning f) f"
proof (rule runs_asI)
  fix s db r t
  assume w: "ses_working s = Some db" and run: "execute_returning f s = (r, t)"
  obtain r1 t1 where m1: "statement s = (r1, t1)" by fastforce
  note M = statement_in_transaction [OF w m1]
  from M(4) show "follows s (f db) r t"
  proof
    assume "r1 = Inr ()"
    with run m1 M(1-3) show ?thesis
      by (cases "f db") (auto simp: execute_returning_def sql_bind_def visible_def)
  next
    assume "r1 = Inl SqliteError \<and> Fails \<in> set (ses_events s)"
    with run m1 M(1-3) show ?thesis by (auto simp: execute_returning_def sql_bind_def)
  qed
qed

lemma query_returning: 
  assumes "ses_working s = Some db"
  shows "query f s = execute_returning (\<lambda>db. sum_bind (f db) (\<lambda>x. Inr (x, db))) s"
proof -
  obtain r1 t1 where m1: "statement s = (r1, t1)" by fastforce
  have "ses_working t1 = Some db" by (rule statement_in_transaction [OF assms m1])
  then show ?thesis
    by (cases "f db"; cases r1)
      (simp_all add: query_def execute_returning_def sql_bind_def visible_def m1)
qed

lemma runs_as_query: "runs_as (query f) (\<lambda>db. sum_bind (f db) (\<lambda>x. Inr (x, db)))"
  using runs_as_returning by (simp add: runs_as_def query_returning)

lemma runs_as_catching:
  assumes "runs_as m g" and "\<not> caught SqliteError"
  shows "runs_as (sql_catching caught e' m) (\<lambda>db. catching caught e' (g db))"
proof (rule runs_asI)
  fix s db r t
  assume w: "ses_working s = Some db" and run: "sql_catching caught e' m s = (r, t)"
  obtain r1 t1 where m1: "m s = (r1, t1)" by fastforce
  have "r = catching caught e' r1" "t = t1" using run m1 by (simp_all add: sql_catching_def)
  with runs_asD [OF assms(1) w m1] assms(2) show "follows s (catching caught e' (g db)) r t"
    by (cases r1) auto
qed

lemma runs_as_cong: "runs_as m g \<Longrightarrow> (\<And>db. g db = g' db) \<Longrightarrow> runs_as m g'"
  by (simp add: runs_as_def)


section \<open>Whole write operations\<close>

definition write_transaction :: "'a sql \<Rightarrow> 'a sql" where
  "write_transaction body = store_write (
    sql_bind connect (\<lambda>_. sql_bind begin_immediate (\<lambda>_. sql_bind body (\<lambda>x.
      sql_bind commit (\<lambda>_. sql_return x)))))"

text \<open>The databases a connection can find: the one it opened and those others committed since.\<close>

definition worlds :: "event list \<Rightarrow> database \<Rightarrow> database set" where
  "worlds evs db = insert db {d. Overtaken d \<in> set evs}"

text \<open>How an exception leaves an operation.\<close>

definition reported :: "exn \<Rightarrow> exn" where
  "reported e = (if e = SqliteError then StateStoreError SS_STORAGE_FAILURE else e)"

lemma worlds_trans:
  "d \<in> worlds evs' db' \<Longrightarrow> db' \<in> worlds evs db \<Longrightarrow> set evs' \<subseteq> set evs \<Longrightarrow> d \<in> worlds evs db"
  by (auto simp: worlds_def)

text \<open>What a statement outside a transaction may change.\<close>

definition drifts :: "session \<Rightarrow> unit res \<Rightarrow> session \<Rightarrow> bool" where
  "drifts s r t \<longleftrightarrow>
     ses_durable t \<in> worlds (ses_events s) (ses_durable s) \<and> set (ses_events t) \<subseteq> set (ses_events s) \<and>
     (r = Inr () \<or> r = Inl SqliteError \<and> Fails \<in> set (ses_events s))"

lemma statement_outside:
  assumes "ses_working s = None" and "statement s = (r, t)"
  shows "drifts s r t \<and> ses_working t = None"
  using assms by (auto simp: statement_def worlds_def drifts_def Let_def split: list.splits event.splits)

lemma connect_outside:
  assumes "ses_working s = None" and "connect s = (r, t)"
  shows "drifts s r t \<and> ses_working t = None"
proof -
  obtain r1 t1 where s1: "statement s = (r1, t1)" by fastforce
  note A = statement_outside [OF assms(1) s1]
  then consider "r1 = Inl SqliteError" "r = r1" "t = t1" | "r1 = Inr ()" "statement t1 = (r, t)"
    using assms(2) s1 by (auto simp: connect_def sql_bind_def drifts_def)
  then show ?thesis
  proof cases
    case 1
    with A show ?thesis by simp
  next
    case 2
    then have "drifts t1 r t \<and> ses_working t = None"
      using A statement_outside by blast
    with A show ?thesis
      unfolding drifts_def using worlds_trans by blast
  qed
qed

lemma begin_outside:
  assumes "ses_working s = None" and "begin_immediate s = (r, t)"
  shows "drifts s r t \<and> ses_working t = (if r = Inr () then Some (ses_durable t) else None)"
proof -
  obtain r1 t1 where s1: "statement s = (r1, t1)" by fastforce
  note A = statement_outside [OF assms(1) s1]
  then have "r1 = Inr () \<or> r1 = Inl SqliteError" by (auto simp: drifts_def)
  then show ?thesis
    using A assms(2) s1 by (elim disjE) (simp_all add: begin_immediate_def sql_bind_def drifts_def, auto)
qed

text \<open>Rolling back after a failure: the durable database stays, the error is reported.\<close>

lemma rollback_follows:
  assumes "rollback s = (r, t)"
  shows "ses_durable t = ses_durable s \<and> (r = Inr () \<or> r = Inl SqliteError \<and> Fails \<in> set (ses_events s))"
proof (cases "ses_working s")
  case None
  with assms show ?thesis by (auto simp: rollback_def)
next
  case (Some db)
  obtain r2 t2 where s2: "statement s = (r2, t2)" by fastforce
  show ?thesis
    using statement_in_transaction [OF Some s2] assms s2 Some by (auto simp: rollback_def sql_bind_def)
qed

lemma store_write_failed:
  assumes "body s = (Inl e, t)" and "store_write body s = (r, u)"
  shows "ses_durable u = ses_durable t \<and>
    (r = Inl (reported e) \<or> r = Inl SqliteError \<and> Fails \<in> set (ses_events t))"
proof -
  obtain r1 t1 where rb: "rollback t = (r1, t1)" by fastforce
  from rollback_follows [OF rb] rb assms show ?thesis
    by (auto simp: store_write_def close_def reported_def is_StateStoreError_iff split: if_splits)
qed

text \<open>
  An operation either does exactly what its body does to one of the databases it can find,
  or leaves that database alone and reports the error of the body or a failing statement.
\<close>

definition atomic_outcome ::
  "event list \<Rightarrow> (database \<Rightarrow> ('a \<times> database) res) \<Rightarrow> 'a res \<Rightarrow> database \<Rightarrow> database \<Rightarrow> bool" where
  "atomic_outcome evs g r db0 db' \<longleftrightarrow>
     (case r of
        Inr x \<Rightarrow> g db0 = Inr (x, db')
      | Inl e \<Rightarrow> db' = db0 \<and>
          ((\<exists>e0. g db0 = Inl e0 \<and> e = reported e0) \<or>
           Fails \<in> set evs \<and> (e = SqliteError \<or> e = StateStoreError SS_STORAGE_FAILURE)))"

lemma write_transaction_atomic:
  assumes body: "runs_as body g" and run: "perform (write_transaction body) evs db = (r, db')"
  shows "\<exists>db0 \<in> worlds evs db. atomic_outcome evs g r db0 db'"
proof -
  let ?s = "open_session evs db"
  let ?all = "sql_bind connect (\<lambda>_. sql_bind begin_immediate (\<lambda>_. sql_bind body (\<lambda>x.
      sql_bind commit (\<lambda>_. sql_return x))))"
  obtain r1 t1 where c: "connect ?s = (r1, t1)" by fastforce
  have C: "drifts ?s r1 t1 \<and> ses_working t1 = None"
    using connect_outside [OF _ c] by (simp add: open_session_def)
  obtain u where u: "store_write ?all ?s = (r, u)" "db' = ses_durable u"
    using run by (auto simp: perform_def write_transaction_def split: prod.splits)
  have fail: ?thesis
    if "?all ?s = (Inl e, t)" "ses_durable t \<in> worlds evs db" "set (ses_events t) \<subseteq> set evs"
      "g (ses_durable t) = Inl e \<or> e = SqliteError \<and> Fails \<in> set evs" for e t
    using store_write_failed [OF that(1) u(1)] that(2-4) u(2)
    by (intro bexI [of _ "ses_durable t"]) (auto simp: atomic_outcome_def reported_def)
  show ?thesis
  proof (cases r1)
    case (Inl e)
    with C c show ?thesis
      by (intro fail [of e t1]) (auto simp: sql_bind_def drifts_def open_session_def)
  next
    case (Inr x1)
    obtain r2 t2 where b: "begin_immediate t1 = (r2, t2)" by fastforce
    have B: "drifts t1 r2 t2 \<and> ses_working t2 = (if r2 = Inr () then Some (ses_durable t2) else None)"
      using C b begin_outside by blast
    then have t2: "ses_durable t2 \<in> worlds evs db" "set (ses_events t2) \<subseteq> set evs"
      using C worlds_trans by (auto simp: drifts_def open_session_def)
    show ?thesis
    proof (cases r2)
      case r2: (Inl e)
      with B have "e = SqliteError \<and> Fails \<in> set (ses_events t1)" by (simp add: drifts_def)
      with C have "e = SqliteError \<and> Fails \<in> set evs" by (auto simp: drifts_def open_session_def)
      with r2 c Inr b t2 show ?thesis
        by (intro fail [of e t2]) (auto simp: sql_bind_def)
    next
      case r2: (Inr x2)
      with B have w2: "ses_working t2 = Some (ses_durable t2)" by simp
      obtain r3 t3 where m: "body t2 = (r3, t3)" by fastforce
      note M = runs_asD [OF body w2 m]
      show ?thesis
      proof (cases r3)
        case r3: (Inl e)
        with M t2 have "ses_durable t3 = ses_durable t2"
          "g (ses_durable t3) = Inl e \<or> e = SqliteError \<and> Fails \<in> set evs" by auto
        with M r3 c Inr b r2 m t2 show ?thesis
          by (intro fail [of e t3]) (auto simp: sql_bind_def)
      next
        case r3: (Inr y)
        with M obtain db1 where g: "g (ses_durable t2) = Inr (y, db1)" and w3: "ses_working t3 = Some db1"
          and t3: "ses_durable t3 = ses_durable t2" "set (ses_events t3) \<subseteq> set (ses_events t2)" by auto
        obtain r4 t4 where k: "statement t3 = (r4, t4)" by fastforce
        note K = statement_in_transaction [OF w3 k]
        from K(4) show ?thesis
        proof
          assume r4: "r4 = Inr ()"
          then have "?all ?s = (Inr y, t4\<lparr>ses_durable := db1, ses_working := None\<rparr>)"
            using c Inr b r2 m r3 k w3 by (simp add: sql_bind_def commit_def sql_return_def)
          with u have "r = Inr y \<and> db' = db1"
            by (auto simp: store_write_def close_def)
          with g t2(1) show ?thesis by (auto simp: atomic_outcome_def)
        next
          assume "r4 = Inl SqliteError \<and> Fails \<in> set (ses_events t3)"
          with c Inr b r2 m r3 k w3 t2 t3 K show ?thesis
            by (intro fail [of SqliteError t4]) (auto simp: sql_bind_def commit_def)
        qed
      qed
    qed
  qed
qed

section \<open>The bodies of the operations\<close>

text \<open>What validation finds when its two queries see \<open>db1\<close> and \<open>db2\<close>.\<close>

definition run_view ::
  "interpreter \<Rightarrow> str list \<Rightarrow> run_id \<Rightarrow> database \<Rightarrow> database \<Rightarrow>
   (run_checkpoint \<times> lifecycle_transition list) option res" where
  "run_view py FS rid db1 db2 =
    sum_bind (sql_select_run (run_id_value rid) db1) (\<lambda>row.
    case row of
      None \<Rightarrow> Inr None
    | Some r \<Rightarrow> catching is_type_or_value_error (StateStoreError SS_CORRUPT) (
        sum_bind (stored_run py FS rid r) (\<lambda>(ident, stored, initial).
        sum_bind (sql_select_transitions (run_id_value rid) db2) (\<lambda>rows.
        sum_bind (replayed_run py FS ident stored initial rows) (\<lambda>run. Inr (Some run))))))"

abbreviation run_of ::
  "interpreter \<Rightarrow> str list \<Rightarrow> database \<Rightarrow> run_id \<Rightarrow>
   (run_checkpoint \<times> lifecycle_transition list) option res" where
  "run_of py FS db rid \<equiv> run_view py FS rid db db"

definition initialize_effect :: "run_checkpoint \<Rightarrow> database \<Rightarrow> (unit \<times> database) res" where
  "initialize_effect cp db =
    (let key = run_id_value (ri_run_id (cp_identity cp)) in
     sum_bind (sql_select_run key db) (\<lambda>existing.
     if existing \<noteq> None then Inl (StateStoreError SS_ALREADY_EXISTS)
     else sum_bind (serialize_run_identity (cp_identity cp)) (\<lambda>ib.
       sum_bind (serialize_checkpoint cp) (\<lambda>cb.
       sum_bind (sql_insert_run key ib cb db) (\<lambda>db'. Inr ((), db'))))))"

definition append_effect ::
  "interpreter \<Rightarrow> str list \<Rightarrow> state_update \<Rightarrow> database \<Rightarrow> (run_checkpoint \<times> database) res" where
  "append_effect py FS u db =
    (let rid = ri_run_id (cp_identity (up_expected u));
         key = run_id_value rid;
         event = adv_transition (up_advance u) in
     sum_bind (run_of py FS db rid) (\<lambda>validated.
     case validated of
       None \<Rightarrow> Inl (StateStoreError SS_NOT_FOUND)
     | Some (current, _) \<Rightarrow>
         if current \<noteq> up_expected u then Inl (StateStoreError SS_CONFLICT)
         else
           sum_bind (serialize_checkpoint (up_expected u)) (\<lambda>old.
           sum_bind (next_checkpoint u) (\<lambda>next.
           sum_bind (serialize_transition event) (\<lambda>tb.
           sum_bind (sql_insert_transition key (ev_revision event) tb db) (\<lambda>db1.
           sum_bind (serialize_checkpoint next) (\<lambda>new.
           sum_bind (sql_update_checkpoint key old new db1) (\<lambda>(n, db2).
           if n \<noteq> 1 then Inl (StateStoreError SS_CONFLICT) else Inr (next, db2)))))))))"

definition schema_effect :: "database \<Rightarrow> (unit \<times> database) res" where
  "schema_effect db =
    (if db_version db = 0 then
       sum_bind (sql_create_runs db) (\<lambda>db1. sum_bind (sql_create_transitions db1) (\<lambda>db2.
       sum_bind (sql_set_version 1 db2) (\<lambda>db3. Inr ((), db3))))
     else if db_version db \<noteq> SCHEMA_VERSION then Inl (StateStoreError SS_CORRUPT)
     else Inr ((), db))"

lemma runs_as_bind':
  assumes "runs_as m (\<lambda>db. sum_bind (a db) (\<lambda>x. Inr (x, db)))" and "\<And>x. runs_as (f x) (h x)"
  shows "runs_as (sql_bind m f) (\<lambda>db. sum_bind (a db) (\<lambda>x. h x db))"
proof -
  have eq: "sum_bind (sum_bind (a db) (\<lambda>x. Inr (x, db))) (\<lambda>(x, db'). h x db') = sum_bind (a db) (\<lambda>x. h x db)" for db
    by (cases "a db") simp_all
  show ?thesis by (rule runs_as_cong [OF runs_as_bind [OF assms] eq])
qed

lemma runs_as_write: "runs_as (execute_write f) (\<lambda>db. sum_bind (f db) (\<lambda>db'. Inr ((), db')))"
  unfolding execute_write_def by (rule runs_as_returning)

lemma runs_as_bind_write:
  assumes "\<And>x. runs_as (f x) (h x)"
  shows "runs_as (sql_bind (execute_write w) f) (\<lambda>db. sum_bind (w db) (\<lambda>db'. h () db'))"
proof -
  have eq: "sum_bind (sum_bind (w db) (\<lambda>db'. Inr ((), db'))) (\<lambda>(x, db'). h x db') = sum_bind (w db) (\<lambda>db'. h () db')" for db
    by (cases "w db") simp_all
  show ?thesis by (rule runs_as_cong [OF runs_as_bind [OF runs_as_write assms] eq])
qed

lemma runs_as_if:
  "(b \<Longrightarrow> runs_as m g) \<Longrightarrow> (\<not> b \<Longrightarrow> runs_as m' g') \<Longrightarrow>
   runs_as (if b then m else m') (\<lambda>db. if b then g db else g' db)"
  by simp

lemma runs_as_raise: "runs_as (sql_lift (Inl e)) (\<lambda>db. Inl e)"
  using runs_as_lift [of "Inl e"] by simp

lemma runs_as_option:
  assumes "runs_as m g" and "\<And>x. runs_as (f x) (h x)"
  shows "runs_as (case v of None \<Rightarrow> m | Some x \<Rightarrow> f x) (\<lambda>db. case v of None \<Rightarrow> g db | Some x \<Rightarrow> h x db)"
  using assms by (cases v) simp_all

lemma runs_as_pair:
  assumes "\<And>x y. runs_as (f x y) (h x y)"
  shows "runs_as (case p of (x, y) \<Rightarrow> f x y) (\<lambda>db. case p of (x, y) \<Rightarrow> h x y db)"
  using assms by (cases p) simp

lemma is_type_or_value_SqliteError [simp]: "\<not> is_type_or_value_error SqliteError"
  by (simp add: is_type_or_value_error_def)

lemmas runs_as_intros = runs_as_bind' [OF runs_as_query] runs_as_bind' [OF runs_as_lift] runs_as_bind_write
  runs_as_write runs_as_if runs_as_raise runs_as_option runs_as_pair runs_as_return

lemma validated_run_runs_as:
  "runs_as (validated_run py FS rid) (\<lambda>db. sum_bind (run_of py FS db rid) (\<lambda>x. Inr (x, db)))"
proof (rule runs_as_cong)
  show "runs_as (validated_run py FS rid) (\<lambda>db.
    sum_bind (sql_select_run (run_id_value rid) db) (\<lambda>row.
    case row of
      None \<Rightarrow> Inr (None, db)
    | Some r \<Rightarrow> catching is_type_or_value_error (StateStoreError SS_CORRUPT) (
        sum_bind (stored_run py FS rid r) (\<lambda>p. case p of (ident, q) \<Rightarrow> case q of (stored, initial) \<Rightarrow>
        sum_bind (sql_select_transitions (run_id_value rid) db) (\<lambda>rows.
        sum_bind (replayed_run py FS ident stored initial rows) (\<lambda>run. Inr (Some run, db)))))))"
    unfolding validated_run_def
    by (intro runs_as_intros runs_as_catching) simp_all
next
  fix db :: database
  have c: "catching p e (sum_bind m (\<lambda>x. Inr (Some x, db))) = 
      sum_bind (catching p e (sum_bind m (\<lambda>x. Inr (Some x)))) (\<lambda>x. Inr (x, db))" for p e and m :: "'x res"
    by (cases m) simp_all
  show "sum_bind (sql_select_run (run_id_value rid) db) (\<lambda>row.
    case row of
      None \<Rightarrow> Inr (None, db)
    | Some r \<Rightarrow> catching is_type_or_value_error (StateStoreError SS_CORRUPT) (
        sum_bind (stored_run py FS rid r) (\<lambda>p. case p of (ident, q) \<Rightarrow> case q of (stored, initial) \<Rightarrow>
        sum_bind (sql_select_transitions (run_id_value rid) db) (\<lambda>rows.
        sum_bind (replayed_run py FS ident stored initial rows) (\<lambda>run. Inr (Some run, db)))))) =
    sum_bind (run_of py FS db rid) (\<lambda>x. Inr (x, db))"
    unfolding run_view_def
    by (cases "sql_select_run (run_id_value rid) db") (auto simp: sum_bind_def catching_def split: sum.splits option.splits)
qed

lemma initialize_runs_as: "runs_as (initialize_body cp) (initialize_effect cp)"
  unfolding initialize_body_def initialize_effect_def Let_def
  by (intro runs_as_intros)

lemma append_runs_as: "runs_as (append_body py FS u) (append_effect py FS u)"
  unfolding append_body_def append_effect_def Let_def
  by (intro runs_as_intros runs_as_bind' [OF validated_run_runs_as] runs_as_bind [OF runs_as_returning])

lemma schema_runs_as:
  "runs_as (sql_bind (query (\<lambda>db. Inr (db_version db))) (\<lambda>version.
      if version = 0 then schema_statements
      else if version \<noteq> SCHEMA_VERSION then sql_lift (Inl (StateStoreError SS_CORRUPT))
      else sql_return ())) schema_effect"
proof (rule runs_as_cong)
  show "runs_as (sql_bind (query (\<lambda>db. Inr (db_version db))) (\<lambda>version.
      if version = 0 then schema_statements
      else if version \<noteq> SCHEMA_VERSION then sql_lift (Inl (StateStoreError SS_CORRUPT))
      else sql_return ())) (\<lambda>db. sum_bind (Inr (db_version db)) (\<lambda>version.
        if version = 0 then sum_bind (sql_create_runs db) (\<lambda>db1. sum_bind (sql_create_transitions db1) (\<lambda>db2.
          sum_bind (sql_set_version 1 db2) (\<lambda>db3. Inr ((), db3))))
        else if version \<noteq> SCHEMA_VERSION then Inl (StateStoreError SS_CORRUPT) else Inr ((), db)))"
    unfolding schema_statements_def by (intro runs_as_intros)
qed (simp add: schema_effect_def)

end
