(* ===== verification/StoreHistory.thy ===== *)
theory StoreHistory
  imports StoreTransactions
begin

text \<open>
  What the validation of a run accepts, on any database: the bytes of a well-formed
  checkpoint, and a journal whose rows are the encodings of the events of one accepted
  history that ends in it (\<open>run_view_valid\<close>). Then how the writes of the store change what
  validation finds.
\<close>

section \<open>What validation accepts\<close>

text \<open>A checkpoint with the journal that leads to it from the initial one of its identity.\<close>

definition valid_run :: "str list \<Rightarrow> run_checkpoint \<Rightarrow> lifecycle_transition list \<Rightarrow> bool" where
  "valid_run FS cp es \<longleftrightarrow> wf_checkpoint FS cp \<and>
     (\<exists>cp0. create_initial_checkpoint FS (cp_identity cp) = Inr cp0 \<and>
        lifecycle_path FS (cp_lifecycle cp0) es (cp_lifecycle cp))"

text \<open>Rows that hold the events from revision \<open>n\<close> on.\<close>

fun journal_rows :: "int \<Rightarrow> transition_row list \<Rightarrow> lifecycle_transition list \<Rightarrow> bool" where
  "journal_rows n [] [] = True"
| "journal_rows n (row # rows) (e # es) =
    (tr_revision row = SqlInteger n \<and>
     (case tr_transition row of SqlBlob b \<Rightarrow> serialize_transition e = Inr b | _ \<Rightarrow> False) \<and>
     journal_rows (n + 1) rows es)"
| "journal_rows n _ _ = False"

lemma blob_iff [simp]: "blob v = Inr b \<longleftrightarrow> v = SqlBlob b"
  by (cases v) (auto simp: blob_def corrupt_def)

lemma blob_SqlBlob [simp]: "blob (SqlBlob b) = Inr b"
  by (simp add: blob_def)

lemma corrupt_neq [simp]: "corrupt \<noteq> Inr x" "Inr x \<noteq> corrupt" "sum_bind corrupt f = corrupt"
  by (simp_all add: corrupt_def)

lemma journal_rows_length: "journal_rows n rows es \<Longrightarrow> length rows = length es"
  by (induction n rows es rule: journal_rows.induct) auto

lemma journal_rows_revision:
  "journal_rows n rows es \<Longrightarrow> row \<in> set rows \<Longrightarrow> \<exists>i. tr_revision row = SqlInteger i \<and> i < n + int (length rows)"
  by (induction n rows es rule: journal_rows.induct) force+

lemma replay_append:
  "replay py FS ident n cp ev (rows @ rows') =
    sum_bind (replay py FS ident n cp ev rows) (\<lambda>(cp', ev').
      replay py FS ident (n + int (length rows)) cp' ev' rows')"
proof (induction rows arbitrary: n cp ev)
  case Nil
  then show ?case by simp
next
  case (Cons row rows)
  have n: "n + 1 + int (length rows) = n + int (length (row # rows))" by simp
  show ?case
    by (auto simp: sum_bind_def Cons [of "n + 1", unfolded n] corrupt_def simp del: length_Cons blob_iff
        split: sum.splits)
qed

text \<open>One journal row: it is accepted exactly when it is the encoding of the next event.\<close>

lemma replay_one:
  assumes cp: "wf_checkpoint FS cp" "cp_identity cp = ident"
  shows "replay py FS ident n cp ev [row] = Inr (cp', ev') \<longleftrightarrow>
    (\<exists>e b a. tr_revision row = SqlInteger n \<and> tr_transition row = SqlBlob b \<and>
       wf_transition FS e \<and> serialize_transition e = Inr b \<and> ev' = ev @ [e] \<and>
       advance_lifecycle FS (cp_lifecycle cp) (ev_to_state e) (ev_occurred_at e) (ev_actor e)
         (ev_final_state e) = Inr a \<and> adv_transition a = e \<and>
       cp' = \<lparr>cp_identity = ident, cp_lifecycle = adv_lifecycle a\<rparr> \<and> wf_checkpoint FS cp')"
proof -
  have wf: "new_RunCheckpoint ident (adv_lifecycle a) = Inr cp' \<longleftrightarrow>
      cp' = \<lparr>cp_identity = ident, cp_lifecycle = adv_lifecycle a\<rparr> \<and> wf_checkpoint FS cp'"
    if "wf_transition FS (adv_transition a)" "advance_lifecycle FS (cp_lifecycle cp)
      (ev_to_state (adv_transition a)) (ev_occurred_at (adv_transition a)) (ev_actor (adv_transition a))
      (ev_final_state (adv_transition a)) = Inr a" for a
  proof -
    have "wf_lifecycle FS (adv_lifecycle a)"
      using advance_wf(1) [OF _ _ _ that(2)] cp(1) that(1) by (simp add: wf_defs wf_instant_def)
    then show ?thesis
      using cp by (auto simp: wf_checkpoint_new new_RunCheckpoint_Inr)
  qed
  show ?thesis
    by (simp add: transition_codec) (auto simp: wf split: if_splits; use wf in force)
qed

lemma replay_sound:
  assumes "replay py FS ident n cp ev rows = Inr (cp', ev')"
    and "wf_checkpoint FS cp" and "cp_identity cp = ident"
    and "lifecycle_path FS lc0 ev (cp_lifecycle cp)"
  shows "wf_checkpoint FS cp' \<and> cp_identity cp' = ident \<and> lifecycle_path FS lc0 ev' (cp_lifecycle cp') \<and>
    (\<exists>es. ev' = ev @ es \<and> journal_rows n rows es)"
  using assms
proof (induction rows arbitrary: n cp ev)
  case Nil
  then show ?case by simp
next
  case (Cons row rows)
  have "replay py FS ident n cp ev (row # rows) =
      sum_bind (replay py FS ident n cp ev [row]) (\<lambda>(cp1, ev1). replay py FS ident (n + 1) cp1 ev1 rows)"
    using replay_append [of py FS ident n cp ev "[row]" rows] by (simp del: replay.simps)
  from Cons.prems(1) [unfolded this] obtain cp1 ev1 where one: "replay py FS ident n cp ev [row] = Inr (cp1, ev1)"
    and rest: "replay py FS ident (n + 1) cp1 ev1 rows = Inr (cp', ev')"
    by (auto simp del: replay.simps)
  from one obtain e b a where e: "tr_revision row = SqlInteger n" "tr_transition row = SqlBlob b"
    "wf_transition FS e" "serialize_transition e = Inr b" "ev1 = ev @ [e]"
    "advance_lifecycle FS (cp_lifecycle cp) (ev_to_state e) (ev_occurred_at e) (ev_actor e) (ev_final_state e) = Inr a"
    "adv_transition a = e" "cp1 = \<lparr>cp_identity = ident, cp_lifecycle = adv_lifecycle a\<rparr>" "wf_checkpoint FS cp1"
    unfolding replay_one [OF Cons.prems(2,3)] by blast
  have "lifecycle_path FS lc0 ev1 (cp_lifecycle cp1)"
    using path_step [OF Cons.prems(4) _ _ e(6)] e(3,5,7,8) by (simp add: wf_defs wf_instant_def)
  with Cons.IH [OF rest e(9)] e show ?case by auto
qed

lemma replayed_run_Inr:
  "replayed_run py FS ident stored initial rows = Inr (cp, es) \<longleftrightarrow>
     replay py FS ident 1 initial [] rows = Inr (cp, es) \<and> cp = stored"
  by (auto simp: replayed_run_def split: if_splits)

lemma stored_run_Inr:
  "stored_run py FS rid row = Inr (ident, stored, initial) \<longleftrightarrow>
     (\<exists>ib cb. row_identity row = SqlBlob ib \<and> row_checkpoint row = SqlBlob cb \<and>
        serialize_run_identity ident = Inr ib \<and> serialize_checkpoint stored = Inr cb) \<and>
     wf_checkpoint FS stored \<and> ident = cp_identity stored \<and> ri_run_id ident = rid \<and>
     create_initial_checkpoint FS ident = Inr initial"
  by (auto simp: stored_run_def identity_codec checkpoint_codec wf_checkpoint_new split: if_splits)

lemma run_view_Some:
  "run_view py FS rid db1 db2 = Inr (Some (cp, es)) \<longleftrightarrow>
    (\<exists>row rows initial ib cb.
       sql_select_run (run_id_value rid) db1 = Inr (Some row) \<and>
       sql_select_transitions (run_id_value rid) db2 = Inr rows \<and>
       row_identity row = SqlBlob ib \<and> row_checkpoint row = SqlBlob cb \<and>
       serialize_run_identity (cp_identity cp) = Inr ib \<and> serialize_checkpoint cp = Inr cb \<and>
       wf_checkpoint FS cp \<and> ri_run_id (cp_identity cp) = rid \<and>
       create_initial_checkpoint FS (cp_identity cp) = Inr initial \<and>
       replay py FS (cp_identity cp) 1 initial [] rows = Inr (cp, es))"
  by (auto simp: run_view_def stored_run_Inr replayed_run_Inr split: option.splits)

lemma run_view_valid:
  assumes "run_view py FS rid db1 db2 = Inr (Some (cp, es))"
  shows "valid_run FS cp es" and "ri_run_id (cp_identity cp) = rid"
    and "\<exists>rows. sql_select_transitions (run_id_value rid) db2 = Inr rows \<and> journal_rows 1 rows es"
proof -
  from assms obtain rows initial where rows: "sql_select_transitions (run_id_value rid) db2 = Inr rows"
    and cp: "wf_checkpoint FS cp" and rid: "ri_run_id (cp_identity cp) = rid"
    and initial: "create_initial_checkpoint FS (cp_identity cp) = Inr initial"
    and rp: "replay py FS (cp_identity cp) 1 initial [] rows = Inr (cp, es)"
    unfolding run_view_Some by blast
  have wf0: "wf_checkpoint FS initial" "cp_identity initial = cp_identity cp"
    using create_initial_checkpoint_wf [of "cp_identity cp" FS] cp initial by (auto simp: wf_checkpoint_new)
  have "lifecycle_path FS (cp_lifecycle initial) es (cp_lifecycle cp) \<and> journal_rows 1 rows es"
    using replay_sound [OF rp wf0 path_start] by auto
  with cp initial rows show "valid_run FS cp es"
    and "\<exists>rows. sql_select_transitions (run_id_value rid) db2 = Inr rows \<and> journal_rows 1 rows es"
    by (auto simp: valid_run_def)
  show "ri_run_id (cp_identity cp) = rid" by (rule rid)
qed

lemma valid_run_shape:
  assumes "valid_run FS cp es"
  shows "lc_revision (cp_lifecycle cp) = int (length es)" and "length es \<le> 6"
    and "list_all (wf_transition FS) es"
proof -
  obtain lc0 where start: "start_lifecycle FS (cp_identity cp) = Inr lc0"
    and path: "lifecycle_path FS lc0 es (cp_lifecycle cp)" and wfi: "wf_run_identity (cp_identity cp)"
    using assms create_initial_checkpoint_wf [of "cp_identity cp" FS]
    by (auto simp: valid_run_def wf_checkpoint_new)
  have wf: "wf_lifecycle FS lc0" by (rule start_wf [OF wfi start])
  show "length es \<le> 6" by (rule path_bounded [OF path wf])
  show "list_all (wf_transition FS) es" using path_wf [OF path wf] by simp
  show "lc_revision (cp_lifecycle cp) = int (length es)"
    using path_shape [OF path wf] start wfi by (auto simp: journal_shape_def wf_start)
qed

section \<open>What the writes change\<close>

lemma insort_key_snoc: "f x \<le> f y \<Longrightarrow> insort_key f x (zs @ [y]) = insort_key f x zs @ [y]"
  by (induction zs) simp_all

lemma sort_key_snoc:
  "\<forall>x \<in> set xs. f x \<le> f y \<Longrightarrow> sort_key f (xs @ [y]) = sort_key f xs @ [y]"
  by (induction xs) (simp_all add: insort_key_snoc)

lemma find_map_same:
  "(\<And>r. P (f r) = P r) \<Longrightarrow> find P (map f rows) = map_option f (find P rows)"
  by (induction rows) simp_all

lemma find_append: "find P (xs @ ys) = (case find P xs of Some x \<Rightarrow> Some x | None \<Rightarrow> find P ys)"
  by (induction xs) simp_all

lemma insert_transition_Inr:
  "sql_insert_transition k rvn tb db = Inr db' \<longleftrightarrow>
     0 < rvn \<and> rvn < 2 ^ 63 \<and>
     (\<exists>runs rows. db_runs db = Some runs \<and> db_transitions db = Some rows \<and> k \<in> row_run_id ` set runs \<and>
        (\<forall>r \<in> set rows. tr_run_id r = k \<longrightarrow> tr_revision r \<noteq> SqlInteger rvn) \<and>
        db' = db\<lparr>db_transitions := Some (rows @
          [\<lparr>tr_run_id = k, tr_revision = SqlInteger rvn, tr_transition = SqlBlob tb\<rparr>])\<rparr>)"
  by (auto simp: sql_insert_transition_def table_def split: option.splits if_splits)

lemma update_checkpoint_Inr:
  "sql_update_checkpoint k old new db = Inr (n, db') \<longleftrightarrow>
     (\<exists>rows. db_runs db = Some rows \<and> n = length (filter (update_matches k old) rows) \<and>
        db' = db\<lparr>db_runs := Some (map (\<lambda>r. if update_matches k old r
          then r\<lparr>row_checkpoint := SqlBlob new\<rparr> else r) rows)\<rparr>)"
  by (auto simp: sql_update_checkpoint_def table_def split: option.splits)

lemma insert_run_Inr:
  "sql_insert_run k ib cb db = Inr db' \<longleftrightarrow>
     (\<exists>rows. db_runs db = Some rows \<and> k \<notin> row_run_id ` set rows \<and>
        db' = db\<lparr>db_runs := Some (rows @
          [\<lparr>row_run_id = k, row_identity = SqlBlob ib, row_checkpoint = SqlBlob cb\<rparr>])\<rparr>)"
  by (auto simp: sql_insert_run_def table_def split: option.splits if_splits)

lemma select_run_after_update:
  assumes "sql_update_checkpoint k old new db = Inr (n, db')"
  shows "sql_select_run k' db' = sum_bind (sql_select_run k' db) (\<lambda>row. Inr (map_option
      (\<lambda>r. if update_matches k old r then r\<lparr>row_checkpoint := SqlBlob new\<rparr> else r) row))"
    and "sql_select_transitions k' db' = sql_select_transitions k' db"
  using assms
  by (auto simp: update_checkpoint_Inr sql_select_run_def sql_select_transitions_def table_def
      intro!: find_map_same)

lemma select_after_insert_transition:
  assumes "sql_insert_transition k rvn tb db = Inr db'"
  shows "sql_select_run k' db' = sql_select_run k' db"
    and "k' \<noteq> k \<Longrightarrow> sql_select_transitions k' db' = sql_select_transitions k' db"
  using assms
  by (auto simp: insert_transition_Inr sql_select_run_def sql_select_transitions_def table_def)

lemma sql_order_integer: "sql_order (SqlInteger i) \<le> sql_order (SqlInteger j) \<longleftrightarrow> i \<le> j"
  by auto

lemma select_transitions_append:
  assumes "sql_insert_transition k rvn tb db = Inr db'"
    and "sql_select_transitions k db = Inr rows" and "journal_rows 1 rows es" and "int (length es) < rvn"
  shows "sql_select_transitions k db' =
    Inr (rows @ [\<lparr>tr_run_id = k, tr_revision = SqlInteger rvn, tr_transition = SqlBlob tb\<rparr>])"
proof -
  let ?new = "\<lparr>tr_run_id = k, tr_revision = SqlInteger rvn, tr_transition = SqlBlob tb\<rparr>"
  let ?f = "\<lambda>r. sql_order (tr_revision r)"
  from assms(1) obtain all where all: "db_transitions db = Some all" "db_transitions db' = Some (all @ [?new])"
    by (auto simp: insert_transition_Inr)
  let ?mine = "filter (\<lambda>r. tr_run_id r = k) all"
  have rows: "rows = sort_key ?f ?mine"
    using assms(2) all(1) by (simp add: sql_select_transitions_def table_def)
  have "\<forall>r \<in> set ?mine. ?f r \<le> ?f ?new"
  proof
    fix r assume "r \<in> set ?mine"
    then have "r \<in> set rows" by (simp add: rows)
    then obtain i where i: "tr_revision r = SqlInteger i" "i < 1 + int (length rows)"
      using journal_rows_revision [OF assms(3)] by blast
    with assms(4) journal_rows_length [OF assms(3)] have "i \<le> rvn" by simp
    with i(1) show "?f r \<le> ?f ?new" by (simp only: sql_order_integer transition_row.select_convs)
  qed
  then have "sort_key ?f (?mine @ [?new]) = sort_key ?f ?mine @ [?new]"
    by (rule sort_key_snoc)
  then show ?thesis
    by (simp add: sql_select_transitions_def table_def all(2) rows)
qed

text \<open>
  An append that went through, on a run that was valid: the other runs are as they were, and
  this run is valid with one more event exactly when the lifecycle policy allows the advance.
\<close>

lemma append_effect_Inr:
  assumes "append_effect py FS u db = Inr (nx, db')"
  obtains es where
    "run_of py FS db (ri_run_id (cp_identity (up_expected u))) = Inr (Some (up_expected u, es))"
    "next_checkpoint u = Inr nx"
  using assms by (auto simp: append_effect_def Let_def split: option.splits if_splits prod.splits)

lemma append_effect_others:
  assumes "append_effect py FS u db = Inr (nx, db')"
    and "run_id_value rid \<noteq> run_id_value (ri_run_id (cp_identity (up_expected u)))"
  shows "run_of py FS db' rid = run_of py FS db rid"
proof -
  let ?key = "run_id_value (ri_run_id (cp_identity (up_expected u)))"
  from assms(1) obtain old tb new db1 n where
    i: "sql_insert_transition ?key (ev_revision (adv_transition (up_advance u))) tb db = Inr db1"
    and p: "sql_update_checkpoint ?key old new db1 = Inr (n, db')"
    by (auto simp: append_effect_def Let_def split: option.splits if_splits prod.splits)
  have "sql_select_run (run_id_value rid) db' = sql_select_run (run_id_value rid) db"
  proof -
    have f: "(if update_matches ?key old r then r\<lparr>row_checkpoint := SqlBlob new\<rparr> else r) = r"
      if "row_run_id r = run_id_value rid" for r
      using assms(2) that by (auto simp: update_matches_def)
    have "sum_bind (sql_select_run (run_id_value rid) db) (\<lambda>row. Inr (map_option
      (\<lambda>r. if update_matches ?key old r then r\<lparr>row_checkpoint := SqlBlob new\<rparr> else r) row))
      = sql_select_run (run_id_value rid) db"
    proof (cases "sql_select_run (run_id_value rid) db")
      case (Inr row)
      moreover have "row_run_id r = run_id_value rid" if "row = Some r" for r
        using Inr that by (auto simp: sql_select_run_def find_Some_iff)
      ultimately show ?thesis using f by (cases row) simp_all
    qed simp
    then show ?thesis
      using select_run_after_update(1) [OF p] select_after_insert_transition(1) [OF i] by simp
  qed
  moreover have "sql_select_transitions (run_id_value rid) db' = sql_select_transitions (run_id_value rid) db"
    using select_run_after_update(2) [OF p] select_after_insert_transition(2) [OF i] assms(2) by simp
  ultimately show ?thesis by (simp add: run_view_def cong: option.case_cong)
qed


text \<open>An advance the policy allows with the data of an update is the update's.\<close>

lemma advance_determined:
  assumes "advance_lifecycle FS (cp_lifecycle (up_expected u)) (lc_state (adv_lifecycle (up_advance u)))
      (lc_updated_at (adv_lifecycle (up_advance u))) (ev_actor (adv_transition (up_advance u)))
      (lc_final_state (adv_lifecycle (up_advance u))) = Inr a"
    and "wf_update FS u"
  shows "a = up_advance u"
proof -
  have "0 \<le> lc_revision (cp_lifecycle (up_expected u))"
    using assms(2) by (simp add: wf_defs)
  with assms show ?thesis
    by (cases "up_advance u")
      (auto simp: advance_lifecycle_Inr wf_update_new new_StateUpdate_Inr next_lifecycle_def)
qed

lemma wf_update_event:
  assumes "wf_update FS u"
  shows "ev_revision (adv_transition (up_advance u)) = lc_revision (cp_lifecycle (up_expected u)) + 1"
    and "ev_to_state (adv_transition (up_advance u)) = lc_state (adv_lifecycle (up_advance u))"
    and "ev_occurred_at (adv_transition (up_advance u)) = lc_updated_at (adv_lifecycle (up_advance u))"
    and "ev_final_state (adv_transition (up_advance u)) = lc_final_state (adv_lifecycle (up_advance u))"
    and "wf_transition FS (adv_transition (up_advance u))"
  using assms by (simp_all add: wf_update_new new_StateUpdate_def Let_def split: if_splits)

text \<open>The run that was appended to, from the rows on.\<close>

lemma append_effect_same:
  assumes eff: "append_effect py FS u db = Inr (nx, db')"
    and u: "wf_update FS u"
    and run: "run_of py FS db (ri_run_id (cp_identity (up_expected u))) = Inr (Some (up_expected u, es))"
  shows "run_of py FS db' (ri_run_id (cp_identity (up_expected u))) =
    (if advance_lifecycle FS (cp_lifecycle (up_expected u)) (lc_state (adv_lifecycle (up_advance u)))
          (lc_updated_at (adv_lifecycle (up_advance u))) (ev_actor (adv_transition (up_advance u)))
          (lc_final_state (adv_lifecycle (up_advance u))) = Inr (up_advance u)
     then Inr (Some (nx, es @ [adv_transition (up_advance u)]))
     else Inl (StateStoreError SS_CORRUPT))"
proof -
  let ?cp = "up_expected u" and ?e = "adv_transition (up_advance u)"
  let ?rid = "ri_run_id (cp_identity ?cp)"
  let ?key = "run_id_value ?rid"
  obtain row rows initial ib cb where sel: "sql_select_run ?key db = Inr (Some row)"
    and trs: "sql_select_transitions ?key db = Inr rows"
    and row: "row_identity row = SqlBlob ib" "row_checkpoint row = SqlBlob cb"
    and ser: "serialize_run_identity (cp_identity ?cp) = Inr ib" "serialize_checkpoint ?cp = Inr cb"
    and wf: "wf_checkpoint FS ?cp" and initial: "create_initial_checkpoint FS (cp_identity ?cp) = Inr initial"
    and rp: "replay py FS (cp_identity ?cp) 1 initial [] rows = Inr (?cp, es)"
    using run unfolding run_view_Some by blast
  from eff obtain old tb new db1 n where old: "serialize_checkpoint ?cp = Inr old"
    and nx: "next_checkpoint u = Inr nx" and tb: "serialize_transition ?e = Inr tb"
    and ins: "sql_insert_transition ?key (ev_revision ?e) tb db = Inr db1"
    and new: "serialize_checkpoint nx = Inr new"
    and upd: "sql_update_checkpoint ?key old new db1 = Inr (n, db')"
    by (auto simp: append_effect_def Let_def split: option.splits if_splits prod.splits)
  have jr: "journal_rows 1 rows es"
    using run_view_valid(3) [OF run] trs by auto
  have rev: "ev_revision ?e = int (length es) + 1"
    using wf_update_event(1) [OF u] valid_run_shape(1) [OF run_view_valid(1) [OF run]] by simp
  let ?new = "\<lparr>tr_run_id = ?key, tr_revision = SqlInteger (ev_revision ?e), tr_transition = SqlBlob tb\<rparr>"
  have trs': "sql_select_transitions ?key db' = Inr (rows @ [?new])"
    using select_transitions_append [OF ins trs jr] rev select_run_after_update(2) [OF upd] by simp
  have "row_run_id row = ?key"
    using sel by (auto simp: sql_select_run_def find_Some_iff)
  then have sel': "sql_select_run ?key db' = Inr (Some (row\<lparr>row_checkpoint := SqlBlob new\<rparr>))"
    using select_run_after_update(1) [OF upd] select_after_insert_transition(1) [OF ins] sel row ser old
    by (simp add: update_matches_def)
  have nx_wf: "nx = \<lparr>cp_identity = cp_identity ?cp, cp_lifecycle = adv_lifecycle (up_advance u)\<rparr>"
    "wf_checkpoint FS nx"
    using next_checkpoint_wf [OF u] nx by simp_all
  have stored: "stored_run py FS ?rid (row\<lparr>row_checkpoint := SqlBlob new\<rparr>) = Inr (cp_identity ?cp, nx, initial)"
    using nx_wf row ser new initial by (auto simp: stored_run_Inr)
  have view: "run_of py FS db' ?rid = catching is_type_or_value_error (StateStoreError SS_CORRUPT)
      (sum_bind (replayed_run py FS (cp_identity ?cp) nx initial (rows @ [?new])) (\<lambda>run. Inr (Some run)))"
    by (simp add: run_view_def sel' trs' stored)
  have one: "replayed_run py FS (cp_identity ?cp) nx initial (rows @ [?new]) =
    sum_bind (replay py FS (cp_identity ?cp) (1 + int (length rows)) ?cp es [?new]) (\<lambda>(cp, events).
      if cp \<noteq> nx then corrupt else Inr (cp, events))"
    unfolding replayed_run_def replay_append rp by simp
  note shape = wf_update_event(2-5) [OF u]
  have de: "deserialize_transition py FS tb = Inr ?e"
    using tb shape(4) by (simp add: transition_codec)
  have rvn: "tr_revision ?new = SqlInteger (1 + int (length rows))"
    using rev journal_rows_length [OF jr] by simp
  let ?adv = "advance_lifecycle FS (cp_lifecycle ?cp) (lc_state (adv_lifecycle (up_advance u)))
    (lc_updated_at (adv_lifecycle (up_advance u))) (ev_actor ?e) (lc_final_state (adv_lifecycle (up_advance u)))"
  show ?thesis
  proof (cases ?adv)
    case (Inl err)
    have "0 \<le> lc_revision (cp_lifecycle ?cp)"
      using wf by (simp add: wf_defs)
    then have "is_type_or_value_error err"
      using advance_rejects [OF _ Inl] by (auto simp: is_type_or_value_error_def)
    then show ?thesis
      using Inl rvn unfolding view one by (simp add: de shape(1-3))
  next
    case (Inr a)
    then have a: "a = up_advance u"
      using u by (rule advance_determined)
    have "new_RunCheckpoint (cp_identity ?cp) (adv_lifecycle (up_advance u)) = Inr nx"
      using nx by (simp add: next_checkpoint_def)
    then show ?thesis
      using Inr rvn unfolding a view one by (simp add: de shape(1-3))
  qed
qed

end
