(* ===== verification/StoreSchema.thy ===== *)
theory StoreSchema
  imports StoreHistory
begin

text \<open>
  The databases the schema's constraints allow (\<open>schema_ok\<close>), that the writes keep them, and
  when the writes go through: a new run whose identity can be encoded, and an update of the
  current checkpoint of a valid run. No constraint is violated on the way and the guarded
  \<open>UPDATE\<close> hits exactly one row.
\<close>

section \<open>Databases the store works on\<close>

text \<open>What the schema keeps: both tables, one row per run, no event without its run.\<close>

definition schema_ok :: "database \<Rightarrow> bool" where
  "schema_ok db \<longleftrightarrow> db_version db = SCHEMA_VERSION \<and>
     (\<exists>runs rows. db_runs db = Some runs \<and> db_transitions db = Some rows \<and>
        distinct (map row_run_id runs) \<and> tr_run_id ` set rows \<subseteq> row_run_id ` set runs)"

lemma find_SomeD: "find P xs = Some y \<Longrightarrow> y \<in> set xs \<and> P y"
  by (induction xs) (auto split: if_splits)

lemma schema_ok_initialize:
  assumes "initialize_effect cp db = Inr (x, db')" and "schema_ok db"
  shows "schema_ok db'"
  using assms by (auto simp: initialize_effect_def Let_def insert_run_Inr schema_ok_def split: if_splits)
    (blast dest: subsetD)

lemma map_update_key:
  "map row_run_id (map (\<lambda>r. if P r then r\<lparr>row_checkpoint := v\<rparr> else r) rows) = map row_run_id rows"
  by (induction rows) simp_all

lemma schema_ok_append:
  assumes "append_effect py FS u db = Inr (nx, db')" and "schema_ok db"
  shows "schema_ok db'"
proof -
  let ?key = "run_id_value (ri_run_id (cp_identity (up_expected u)))"
  from assms(1) obtain old tb new db1 n where
    i: "sql_insert_transition ?key (ev_revision (adv_transition (up_advance u))) tb db = Inr db1"
    and p: "sql_update_checkpoint ?key old new db1 = Inr (n, db')"
    by (auto simp: append_effect_def Let_def split: option.splits if_splits prod.splits)
  from i assms(2) have "schema_ok db1"
    by (auto simp: insert_transition_Inr schema_ok_def)
  then obtain runs rows where r: "db_runs db1 = Some runs" "db_transitions db1 = Some rows"
    "distinct (map row_run_id runs)" "tr_run_id ` set rows \<subseteq> set (map row_run_id runs)" "db_version db1 = SCHEMA_VERSION"
    by (auto simp: schema_ok_def)
  from p r(1) have "db_runs db' = Some (map (\<lambda>r. if update_matches ?key old r
      then r\<lparr>row_checkpoint := SqlBlob new\<rparr> else r) runs)"
    "db_transitions db' = db_transitions db1" "db_version db' = db_version db1"
    by (auto simp: update_checkpoint_Inr)
  moreover have "map row_run_id (map (\<lambda>r. if update_matches ?key old r
      then r\<lparr>row_checkpoint := SqlBlob new\<rparr> else r) runs) = map row_run_id runs"
    by (rule map_update_key)
  ultimately have "\<exists>runs'. db_runs db' = Some runs' \<and> map row_run_id runs' = map row_run_id runs"
    "db_transitions db' = Some rows" "db_version db' = SCHEMA_VERSION"
    using r(2,5) by auto
  with r(3,4) show ?thesis
    unfolding schema_ok_def by (metis list.set_map)
qed

lemma initialize_effect_others:
  assumes "initialize_effect cp db = Inr (x, db')"
    and "run_id_value rid \<noteq> run_id_value (ri_run_id (cp_identity cp))"
  shows "run_of py FS db' rid = run_of py FS db rid"
proof -
  have "sql_select_run (run_id_value rid) db' = sql_select_run (run_id_value rid) db"
    "sql_select_transitions (run_id_value rid) db' = sql_select_transitions (run_id_value rid) db"
    using assms by (auto simp: initialize_effect_def Let_def insert_run_Inr sql_select_run_def
        sql_select_transitions_def table_def find_append split: if_splits option.splits)
  then show ?thesis by (simp add: run_view_def cong: option.case_cong)
qed

lemma select_transitions_absent:
  assumes "schema_ok db" and "sql_select_run k db = Inr None"
  shows "sql_select_transitions k db = Inr []"
proof -
  obtain runs rows where "db_runs db = Some runs" "db_transitions db = Some rows"
    "tr_run_id ` set rows \<subseteq> row_run_id ` set runs"
    using assms(1) by (auto simp: schema_ok_def)
  moreover from this assms(2) have "k \<notin> row_run_id ` set runs"
    by (auto simp: sql_select_run_def table_def find_None_iff)
  ultimately have "filter (\<lambda>r. tr_run_id r = k) rows = []"
    by (auto simp: filter_empty_conv)
  with \<open>db_transitions db = Some rows\<close> show ?thesis
    by (simp add: sql_select_transitions_def table_def)
qed

lemma initialize_effect_same:
  assumes eff: "initialize_effect cp db = Inr (x, db')" and ok: "schema_ok db"
    and cp: "wf_checkpoint FS cp" "create_initial_checkpoint FS (cp_identity cp) = Inr cp"
  shows "run_of py FS db' (ri_run_id (cp_identity cp)) = Inr (Some (cp, []))"
proof -
  let ?key = "run_id_value (ri_run_id (cp_identity cp))"
  obtain ib cb where none: "sql_select_run ?key db = Inr None"
    and ser: "serialize_run_identity (cp_identity cp) = Inr ib" "serialize_checkpoint cp = Inr cb"
    and ins: "sql_insert_run ?key ib cb db = Inr db'"
    using eff by (auto simp: initialize_effect_def Let_def split: if_splits)
  have "sql_select_run ?key db' =
      Inr (Some \<lparr>row_run_id = ?key, row_identity = SqlBlob ib, row_checkpoint = SqlBlob cb\<rparr>)"
    using ins none by (auto simp: insert_run_Inr sql_select_run_def table_def find_append)
  moreover have "sql_select_transitions ?key db' = Inr []"
    using ins select_transitions_absent [OF ok none]
    by (auto simp: insert_run_Inr sql_select_transitions_def table_def)
  ultimately show ?thesis
    using ser cp by (simp add: run_view_Some)
qed

section \<open>When the writes go through\<close>

lemma initialize_effect_total:
  assumes "schema_ok db" and "wf_checkpoint FS cp" and "sql_select_run (run_id_value (ri_run_id (cp_identity cp))) db = Inr None"
    and "lc_revision (cp_lifecycle cp) = 0" and "lc_final_state (cp_lifecycle cp) = None"
    and "encodable_identity (cp_identity cp)"
  shows "\<exists>db'. initialize_effect cp db = Inr ((), db')"
proof -
  obtain ib where ib: "serialize_run_identity (cp_identity cp) = Inr ib"
    using assms serialize_identity_total by (auto simp: wf_checkpoint_new)
  obtain cb where cb: "serialize_checkpoint cp = Inr cb"
    using assms serialize_checkpoint_total [OF assms(2)] int_ok_small [of 0] by auto
  from assms(1,3) have "\<exists>db'. sql_insert_run (run_id_value (ri_run_id (cp_identity cp))) ib cb db = Inr db'"
    by (fastforce simp: insert_run_Inr schema_ok_def sql_select_run_def table_def find_None_iff)
  with assms(3) ib cb show ?thesis by (auto simp: initialize_effect_def Let_def)
qed

lemma filter_one:
  assumes "distinct (map f xs)" and "find (\<lambda>x. f x = k) xs = Some y" and "P y"
    and "\<And>x. P x \<Longrightarrow> f x = k"
  shows "length (filter P xs) = 1"
  using assms(1,2)
proof (induction xs)
  case Nil
  then show ?case by simp
next
  case (Cons a xs)
  show ?case
  proof (cases "f a = k")
    case True
    then have "a = y" using Cons.prems(2) by simp
    moreover have "filter P xs = []"
      using Cons.prems(1) True assms(4) by (auto simp: filter_empty_conv image_iff)
    ultimately show ?thesis using assms(3) by simp
  next
    case False
    then show ?thesis using Cons assms(4) by auto
  qed
qed

lemma append_effect_total:
  assumes ok: "schema_ok db" and u: "wf_update FS u" and FS: "list_all encodable FS"
    and run: "run_of py FS db (ri_run_id (cp_identity (up_expected u))) = Inr (Some (up_expected u, es))"
  shows "\<exists>nx db'. append_effect py FS u db = Inr (nx, db')"
proof -
  let ?cp = "up_expected u" and ?e = "adv_transition (up_advance u)"
  let ?key = "run_id_value (ri_run_id (cp_identity ?cp))"
  obtain row rows ib old where sel: "sql_select_run ?key db = Inr (Some row)"
    and trs: "sql_select_transitions ?key db = Inr rows" and row: "row_checkpoint row = SqlBlob old"
    and ser: "serialize_run_identity (cp_identity ?cp) = Inr ib" "serialize_checkpoint ?cp = Inr old"
    and wf: "wf_checkpoint FS ?cp"
    using run unfolding run_view_Some by blast
  note valid = run_view_valid [OF run]
  have jr: "journal_rows 1 rows es" using valid(3) trs by auto
  have rvn: "ev_revision ?e = int (length es) + 1" "length es \<le> 6"
    using wf_update_event(1) [OF u] valid_run_shape(1,2) [OF valid(1)] by simp_all
  define nx where "nx = \<lparr>cp_identity = cp_identity ?cp, cp_lifecycle = adv_lifecycle (up_advance u)\<rparr>"
  have nx: "next_checkpoint u = Inr nx" "wf_checkpoint FS nx"
    using next_checkpoint_wf [OF u] by (simp_all add: nx_def)
  have fin: "encodable f" if "lc_final_state (adv_lifecycle (up_advance u)) = Some f" for f
    using u FS that by (auto simp: wf_defs wf_final_def list_all_iff)
  obtain tb where tb: "serialize_transition ?e = Inr tb"
    using serialize_transition_total [OF wf_update_event(5) [OF u]] wf_update_event(4) [OF u] fin
      int_ok_small [of "ev_revision ?e"] rvn by auto
  have "encodable_identity (cp_identity ?cp)"
    using ser(1) serialize_identity_total wf by (auto simp: wf_checkpoint_new)
  moreover have "lc_revision (adv_lifecycle (up_advance u)) = int (length es) + 1"
    using u rvn(1) by (auto simp: wf_update_new new_StateUpdate_def Let_def split: if_splits)
  ultimately obtain new where new: "serialize_checkpoint nx = Inr new"
    using serialize_checkpoint_total [OF nx(2)] fin int_ok_small rvn(2) by (auto simp: nx_def)
  obtain runs all where db: "db_runs db = Some runs" "db_transitions db = Some all" "distinct (map row_run_id runs)"
    using ok by (auto simp: schema_ok_def)
  have find: "find (\<lambda>r. row_run_id r = ?key) runs = Some row"
    using sel db(1) by (simp add: sql_select_run_def table_def)
  have "tr_revision r \<noteq> SqlInteger (ev_revision ?e)" if "r \<in> set all" "tr_run_id r = ?key" for r
  proof -
    have "r \<in> set rows" using trs db(2) that by (auto simp: sql_select_transitions_def table_def)
    then show ?thesis
      using journal_rows_revision [OF jr] rvn(1) journal_rows_length [OF jr] by fastforce
  qed
  moreover have "?key \<in> row_run_id ` set runs"
    using find_SomeD [OF find] by (metis imageI)
  ultimately have ins: "sql_insert_transition ?key (ev_revision ?e) tb db =
      Inr (db\<lparr>db_transitions := Some (all @ [\<lparr>tr_run_id = ?key, tr_revision = SqlInteger (ev_revision ?e),
        tr_transition = SqlBlob tb\<rparr>])\<rparr>)"
    using db rvn by (auto simp: insert_transition_Inr)
  have "row_run_id row = ?key" using find_SomeD [OF find] by simp
  then have "length (filter (update_matches ?key old) runs) = 1"
    using filter_one [OF db(3) find, of "update_matches ?key old"] row by (auto simp: update_matches_def)
  then have "append_effect py FS u db = Inr (nx, db\<lparr>db_transitions := Some (all @ [\<lparr>tr_run_id = ?key,
        tr_revision = SqlInteger (ev_revision ?e), tr_transition = SqlBlob tb\<rparr>]),
      db_runs := Some (map (\<lambda>r. if update_matches ?key old r
          then r\<lparr>row_checkpoint := SqlBlob new\<rparr> else r) runs)\<rparr>)"
    using run ser(2) nx(1) tb ins new db(1)
    by (simp add: append_effect_def Let_def sql_update_checkpoint_def table_def)
  then show ?thesis by blast
qed

end
