(* ===== verification/StateStorePort.thy ===== *)
theory StateStorePort
  imports RunState
begin

text \<open>
  \<open>ports/state_store.py\<close>: the contract of a state store, as laws over what it holds.
  \<open>runs s rid\<close> is the checkpoint and the journal held for a run; \<open>initial\<close> and \<open>update\<close> are the
  checkpoints and updates the program hands over. An operation gives its outcome and the
  store it leaves. The lemmas are what a client may rely on.
\<close>

abbreviation checkpoint_run :: "run_checkpoint \<Rightarrow> run_id" where
  "checkpoint_run cp \<equiv> ri_run_id (cp_identity cp)"

datatype store_command = Initialize run_checkpoint | Append state_update

text \<open>A sequence of writes, whatever their outcomes.\<close>

fun run_commands ::
  "(run_checkpoint \<Rightarrow> 's \<Rightarrow> unit res \<times> 's) \<Rightarrow> (state_update \<Rightarrow> 's \<Rightarrow> run_checkpoint res \<times> 's) \<Rightarrow>
   store_command list \<Rightarrow> 's \<Rightarrow> 's" where
  "run_commands ini app [] s = s"
| "run_commands ini app (Initialize cp # cs) s = run_commands ini app cs (snd (ini cp s))"
| "run_commands ini app (Append u # cs) s = run_commands ini app cs (snd (app u s))"

fun command_ok :: "(run_checkpoint \<Rightarrow> bool) \<Rightarrow> (state_update \<Rightarrow> bool) \<Rightarrow> store_command \<Rightarrow> bool" where
  "command_ok initial update (Initialize cp) = initial cp"
| "command_ok initial update (Append u) = update u"

locale state_store =
  fixes runs :: "'s \<Rightarrow> run_id \<Rightarrow> (run_checkpoint \<times> lifecycle_transition list) option"
    and ok :: "'s \<Rightarrow> bool"
    and initial :: "run_checkpoint \<Rightarrow> bool"
    and update :: "state_update \<Rightarrow> bool"
    and do_initialize :: "run_checkpoint \<Rightarrow> 's \<Rightarrow> unit res \<times> 's"
    and do_load :: "run_id \<Rightarrow> 's \<Rightarrow> run_checkpoint option res \<times> 's"
    and do_append :: "state_update \<Rightarrow> 's \<Rightarrow> run_checkpoint res \<times> 's"
    and do_history :: "run_id \<Rightarrow> 's \<Rightarrow> lifecycle_transition list res \<times> 's"
  assumes update_moves: "update u \<Longrightarrow> next_checkpoint u = Inr nx \<Longrightarrow>
      nx \<noteq> up_expected u \<and> checkpoint_run nx = checkpoint_run (up_expected u)"
    and held: "ok s \<Longrightarrow> runs s rid = Some (cp, es) \<Longrightarrow> checkpoint_run cp = rid"
    and initialize_new: "ok s \<Longrightarrow> initial cp \<Longrightarrow> runs s (checkpoint_run cp) = None \<Longrightarrow>
      \<exists>s'. do_initialize cp s = (Inr (), s') \<and> ok s' \<and> runs s' = (runs s)(checkpoint_run cp \<mapsto> (cp, []))"
    and initialize_old: "ok s \<Longrightarrow> initial cp \<Longrightarrow> runs s (checkpoint_run cp) \<noteq> None \<Longrightarrow>
      do_initialize cp s = (Inl (StateStoreError SS_ALREADY_EXISTS), s)"
    and load: "ok s \<Longrightarrow> do_load rid s = (Inr (map_option fst (runs s rid)), s)"
    and append_current: "ok s \<Longrightarrow> update u \<Longrightarrow> runs s (checkpoint_run (up_expected u)) = Some (up_expected u, es) \<Longrightarrow>
      \<exists>nx s'. next_checkpoint u = Inr nx \<and> do_append u s = (Inr nx, s') \<and> ok s' \<and>
        runs s' = (runs s)(checkpoint_run nx \<mapsto> (nx, es @ [adv_transition (up_advance u)]))"
    and append_stale: "ok s \<Longrightarrow> update u \<Longrightarrow> runs s (checkpoint_run (up_expected u)) = Some (cp, es) \<Longrightarrow>
      cp \<noteq> up_expected u \<Longrightarrow> do_append u s = (Inl (StateStoreError SS_CONFLICT), s)"
    and append_absent: "ok s \<Longrightarrow> update u \<Longrightarrow> runs s (checkpoint_run (up_expected u)) = None \<Longrightarrow>
      do_append u s = (Inl (StateStoreError SS_NOT_FOUND), s)"
    and history: "ok s \<Longrightarrow> do_history rid s =
      (case runs s rid of None \<Rightarrow> Inl (StateStoreError SS_NOT_FOUND) | Some (cp, es) \<Rightarrow> Inr es, s)"
begin

text \<open>Every outcome of an append, from what the store holds.\<close>

lemma append_cases:
  assumes "ok s" and "update u" and "do_append u s = (r, s')"
  obtains (absent) "runs s (checkpoint_run (up_expected u)) = None"
      "r = Inl (StateStoreError SS_NOT_FOUND)" "s' = s"
  | (stale) cp es where "runs s (checkpoint_run (up_expected u)) = Some (cp, es)" "cp \<noteq> up_expected u"
      "r = Inl (StateStoreError SS_CONFLICT)" "s' = s"
  | (current) es nx where "runs s (checkpoint_run (up_expected u)) = Some (up_expected u, es)"
      "next_checkpoint u = Inr nx" "r = Inr nx" "ok s'"
      "runs s' = (runs s)(checkpoint_run nx \<mapsto> (nx, es @ [adv_transition (up_advance u)]))"
proof (cases "runs s (checkpoint_run (up_expected u))")
  case None
  with assms append_absent show ?thesis by (intro absent) simp_all
next
  case (Some a)
  obtain cp es where a: "a = (cp, es)" by fastforce
  show ?thesis
  proof (cases "cp = up_expected u")
    case True
    with assms Some a append_current [of s u es] show ?thesis by (auto intro: current)
  next
    case False
    with assms Some a append_stale show ?thesis by (intro stale) simp_all
  qed
qed

lemma initialize_ok:
  assumes "ok s" and "initial cp"
  shows "ok (snd (do_initialize cp s))"
    and "runs (snd (do_initialize cp s)) = (if runs s (checkpoint_run cp) = None
      then (runs s)(checkpoint_run cp \<mapsto> (cp, [])) else runs s)"
  using initialize_new [OF assms] initialize_old [OF assms] assms(1)
  by (cases "runs s (checkpoint_run cp) = None"; force)+

lemma append_ok: "ok s \<Longrightarrow> update u \<Longrightarrow> ok (snd (do_append u s))"
  by (cases "do_append u s") (auto elim: append_cases)

text \<open>A second initialization of a run is refused, whatever was appended in between.\<close>

lemma load_initialized:
  assumes "ok s" and "initial cp" and "do_initialize cp s = (Inr (), s')"
  shows "do_load (checkpoint_run cp) s' = (Inr (Some cp), s')"
proof -
  have "runs s (checkpoint_run cp) = None"
    using initialize_old [OF assms(1,2)] assms(3) by fastforce
  with initialize_ok [OF assms(1,2)] assms(3) load [of s'] show ?thesis by simp
qed

text \<open>An accepted append is what the next load and the next history see.\<close>

lemma load_appended:
  assumes "ok s" and "update u" and "do_append u s = (Inr nx, s')"
  shows "do_load (checkpoint_run nx) s' = (Inr (Some nx), s')"
    and "\<exists>es. do_history (checkpoint_run nx) s = (Inr es, s) \<and>
      do_history (checkpoint_run nx) s' = (Inr (es @ [adv_transition (up_advance u)]), s')"
proof -
  from append_cases [OF assms] obtain es where
    es: "runs s (checkpoint_run (up_expected u)) = Some (up_expected u, es)" "next_checkpoint u = Inr nx" "ok s'"
    "runs s' = (runs s)(checkpoint_run nx \<mapsto> (nx, es @ [adv_transition (up_advance u)]))"
    by auto
  then show "do_load (checkpoint_run nx) s' = (Inr (Some nx), s')" by (simp add: load)
  have "checkpoint_run nx = checkpoint_run (up_expected u)"
    using update_moves [OF assms(2) es(2)] by simp
  with es assms(1) show "\<exists>es. do_history (checkpoint_run nx) s = (Inr es, s) \<and>
      do_history (checkpoint_run nx) s' = (Inr (es @ [adv_transition (up_advance u)]), s')"
    by (intro exI [of _ es]) (simp add: history)
qed

text \<open>Of two updates of one checkpoint at most one is accepted.\<close>

lemma one_winner:
  assumes "ok s" and "update u" and "update v" and "up_expected v = up_expected u"
    and "do_append u s = (Inr nx, s')"
  shows "do_append v s' = (Inl (StateStoreError SS_CONFLICT), s')"
proof -
  from append_cases [OF assms(1,2,5)] obtain es where
    es: "next_checkpoint u = Inr nx" "ok s'"
    "runs s' = (runs s)(checkpoint_run nx \<mapsto> (nx, es @ [adv_transition (up_advance u)]))"
    by auto
  have "nx \<noteq> up_expected u" "checkpoint_run nx = checkpoint_run (up_expected u)"
    using update_moves [OF assms(2) es(1)] by simp_all
  with es assms(3,4) show ?thesis
    by (intro append_stale [of s' v nx "es @ [adv_transition (up_advance u)]"]) simp_all
qed

text \<open>No sequence of writes shortens or rewrites a journal.\<close>

lemma commands_keep:
  assumes "list_all (command_ok initial update) cs" and "ok s" and "runs s rid = Some (cp, es)"
  shows "\<exists>cp' es'. runs (run_commands do_initialize do_append cs s) rid = Some (cp', es @ es') \<and>
    ok (run_commands do_initialize do_append cs s)"
  using assms
proof (induction cs arbitrary: s cp es)
  case Nil
  then show ?case by simp
next
  case (Cons c cs)
  show ?case
  proof (cases c)
    case (Initialize cp0)
    then have i: "initial cp0" using Cons.prems(1) by simp
    have "runs (snd (do_initialize cp0 s)) rid = Some (cp, es)"
      using initialize_ok(2) [OF Cons.prems(2) i] Cons.prems(3) by auto
    then show ?thesis
      using Cons.IH [OF _ initialize_ok(1) [OF Cons.prems(2) i]] Cons.prems(1) Initialize by simp
  next
    case (Append u)
    then have u: "update u" using Cons.prems(1) by simp
    obtain r s' where s': "do_append u s = (r, s')" by fastforce
    have ok': "ok s'" using append_ok [OF Cons.prems(2) u] s' by simp
    from Cons.prems(2) u s' have "\<exists>cp1 es1. runs s' rid = Some (cp1, es @ es1)"
    proof (cases rule: append_cases)
      case (current es1 nx)
      then have "checkpoint_run nx = checkpoint_run (up_expected u)"
        using update_moves [OF u] by blast
      with current Cons.prems(3) show ?thesis by (cases "rid = checkpoint_run nx") auto
    qed (use Cons.prems(3) in auto)
    then obtain cp1 es1 where "runs s' rid = Some (cp1, es @ es1)" by blast
    then show ?thesis
      using Cons.IH [OF _ ok'] Cons.prems(1) Append s' by fastforce
  qed
qed

end

end
