(* ===== verification/StoreRefinement.thy ===== *)
theory StoreRefinement
  imports StoreSchema StateStorePort
begin

text \<open>
  The SQLite store meets the contract of its port: on a database in which every run
  validates, with the checkpoints and updates the program builds and no disturbance, its four
  operations are those of a map from runs to checkpoint and journal
  (\<open>interpretation sqlite\<close>). The atomicity of the two writes, whatever their events, is
  \<open>initialize_atomic\<close> and \<open>append_atomic\<close>.
\<close>

section \<open>The operations as transactions\<close>

lemma sql_bind_assoc: "sql_bind (sql_bind m f) g = sql_bind m (\<lambda>x. sql_bind (f x) g)"
  by (rule ext) (auto simp: sql_bind_def split: prod.splits sum.splits)

lemma sql_bind_return_right [simp]: "sql_bind m sql_return = m"
  by (rule ext) (auto simp: sql_bind_def sql_return_def split: prod.splits sum.splits)

lemma commit_unit: "(\<lambda>_. commit) = (\<lambda>x :: unit. sql_bind commit (\<lambda>_. sql_return x))"
proof (rule ext)
  fix x :: unit
  have "(\<lambda>_. sql_return x) = (sql_return :: unit \<Rightarrow> unit sql)" by (rule ext) simp
  then show "commit = sql_bind commit (\<lambda>_. sql_return x)" by simp
qed

lemma store_initialize_transaction:
  assumes "create_initial_checkpoint FS (cp_identity cp) = Inr cp"
  shows "store_initialize FS cp = write_transaction (initialize_body cp)"
  using assms by (simp add: store_initialize_def write_transaction_def sql_bind_lift flip: commit_unit)

lemma store_append_transaction:
  "store_compare_and_append py FS u = write_transaction (append_body py FS u)"
  by (simp add: store_compare_and_append_def write_transaction_def)

lemma initialize_schema_transaction:
  "initialize_schema = write_transaction (sql_bind (query (\<lambda>db. Inr (db_version db))) (\<lambda>version.
      if version = 0 then schema_statements
      else if version \<noteq> SCHEMA_VERSION then sql_lift (Inl (StateStoreError SS_CORRUPT))
      else sql_return ()))"
  by (simp add: initialize_schema_def write_transaction_def sql_bind_assoc flip: commit_unit)

lemma append_atomic:
  "perform (store_compare_and_append py FS u) evs db = (r, db') \<Longrightarrow>
   \<exists>db0 \<in> worlds evs db. atomic_outcome evs (append_effect py FS u) r db0 db'"
  unfolding store_append_transaction by (rule write_transaction_atomic [OF append_runs_as])

lemma initialize_atomic:
  assumes "create_initial_checkpoint FS (cp_identity cp) = Inr cp"
    and "perform (store_initialize FS cp) evs db = (r, db')"
  shows "\<exists>db0 \<in> worlds evs db. atomic_outcome evs (initialize_effect cp) r db0 db'"
  using assms(2) unfolding store_initialize_transaction [OF assms(1)]
  by (rule write_transaction_atomic [OF initialize_runs_as])

lemma schema_atomic:
  "perform initialize_schema evs db = (r, db') \<Longrightarrow>
   \<exists>db0 \<in> worlds evs db. atomic_outcome evs schema_effect r db0 db'"
  unfolding initialize_schema_transaction by (rule write_transaction_atomic [OF schema_runs_as])

lemma worlds_Nil [simp]: "worlds [] db = {db}"
  by (simp add: worlds_def)

lemma atomic_outcome_quiet:
  "atomic_outcome [] g r db db' \<Longrightarrow>
   (r, db') = (case g db of Inr (x, d) \<Rightarrow> (Inr x, d) | Inl e \<Rightarrow> (Inl (reported e), db))"
  by (auto simp: atomic_outcome_def split: sum.splits)

lemma append_quiet:
  "perform (store_compare_and_append py FS u) [] db =
    (case append_effect py FS u db of Inr (x, d) \<Rightarrow> (Inr x, d) | Inl e \<Rightarrow> (Inl (reported e), db))"
  using append_atomic [of py FS u "[]" db] atomic_outcome_quiet
  by (cases "perform (store_compare_and_append py FS u) [] db") fastforce

lemma initialize_quiet:
  "create_initial_checkpoint FS (cp_identity cp) = Inr cp \<Longrightarrow> perform (store_initialize FS cp) [] db =
    (case initialize_effect cp db of Inr (x, d) \<Rightarrow> (Inr x, d) | Inl e \<Rightarrow> (Inl (reported e), db))"
  using initialize_atomic [of FS cp "[]" db] atomic_outcome_quiet
  by (cases "perform (store_initialize FS cp) [] db") fastforce

text \<open>A validation outside a transaction that nothing disturbs.\<close>

lemma quiet_statement [simp]: "ses_events s = [] \<Longrightarrow> statement s = (Inr (), s)"
  by (simp add: statement_def)

lemma quiet_query [simp]: "ses_events s = [] \<Longrightarrow> query f s = (f (visible s), s)"
  by (simp add: query_def sql_bind_def)

lemma quiet_connect [simp]: "ses_events s = [] \<Longrightarrow> connect s = (Inr (), s)"
  by (simp add: connect_def sql_bind_def)

lemma validated_run_quiet:
  "ses_events s = [] \<Longrightarrow> validated_run py FS rid s = (run_of py FS (visible s) rid, s)"
  by (auto simp: validated_run_def run_view_def sql_bind_def sql_lift_def sql_return_def sql_catching_def
      split: sum.splits option.splits prod.splits)

lemma load_quiet:
  "perform (store_load py FS rid) [] db =
    (catching (\<lambda>e. e = SqliteError) (StateStoreError SS_STORAGE_FAILURE)
       (sum_bind (run_of py FS db rid) (\<lambda>v. Inr (map_option fst v))), db)"
  by (cases "run_of py FS db rid")
    (simp_all add: perform_def store_load_def store_read_def open_session_def sql_bind_def
      validated_run_quiet visible_def sql_return_def close_def)

lemma history_quiet:
  "perform (store_history py FS rid) [] db =
    (catching (\<lambda>e. e = SqliteError) (StateStoreError SS_STORAGE_FAILURE)
       (sum_bind (run_of py FS db rid) (\<lambda>v. case v of
          None \<Rightarrow> Inl (StateStoreError SS_NOT_FOUND) | Some (_, es) \<Rightarrow> Inr es)), db)"
  by (cases "run_of py FS db rid")
    (auto simp: perform_def store_history_def store_read_def open_session_def sql_bind_def
      validated_run_quiet visible_def sql_return_def sql_lift_def close_def split: option.splits)

section \<open>The store meets the contract of its port\<close>

definition held_runs ::
  "interpreter \<Rightarrow> str list \<Rightarrow> database \<Rightarrow> run_id \<Rightarrow> (run_checkpoint \<times> lifecycle_transition list) option" where
  "held_runs py FS db rid = (case run_of py FS db rid of Inr v \<Rightarrow> v | Inl e \<Rightarrow> None)"

text \<open>No run of the database fails validation.\<close>

definition sound_database :: "interpreter \<Rightarrow> str list \<Rightarrow> database \<Rightarrow> bool" where
  "sound_database py FS db \<longleftrightarrow> schema_ok db \<and> (\<forall>rid. \<exists>v. run_of py FS db rid = Inr v)"

text \<open>What the program hands to the store.\<close>

definition initial_checkpoint :: "str list \<Rightarrow> run_checkpoint \<Rightarrow> bool" where
  "initial_checkpoint FS cp \<longleftrightarrow> wf_run_identity (cp_identity cp) \<and> encodable_identity (cp_identity cp) \<and>
     create_initial_checkpoint FS (cp_identity cp) = Inr cp"

definition prepared_update :: "str list \<Rightarrow> state_update \<Rightarrow> bool" where
  "prepared_update FS u \<longleftrightarrow> list_all encodable FS \<and>
     (\<exists>cp to_st occurred actor fin. wf_checkpoint FS cp \<and> wf_actor actor \<and> valid_datetime occurred \<and>
        prepare_state_update FS cp to_st occurred actor fin = Inr u)"

lemma initial_checkpoint_wf:
  assumes "initial_checkpoint FS cp"
  shows "wf_checkpoint FS cp" and "lc_revision (cp_lifecycle cp) = 0" and "lc_final_state (cp_lifecycle cp) = None"
proof -
  have wf: "wf_checkpoint FS cp" and "start_lifecycle FS (cp_identity cp) = Inr (cp_lifecycle cp)"
    and i: "wf_run_identity (cp_identity cp)"
    using create_initial_checkpoint_wf [of "cp_identity cp" FS] assms by (auto simp: initial_checkpoint_def)
  then have "cp_lifecycle cp = \<lparr>lc_run_id = checkpoint_run cp, lc_state = CONTRACT_BOUND, lc_revision = 0,
      lc_updated_at = ri_created_at (cp_identity cp), lc_final_state = None\<rparr>"
    by (simp add: wf_start)
  with wf show "wf_checkpoint FS cp" and "lc_revision (cp_lifecycle cp) = 0" and "lc_final_state (cp_lifecycle cp) = None"
    by simp_all
qed

lemma prepared_update_facts:
  assumes "prepared_update FS u"
  shows "wf_update FS u" and "list_all encodable FS"
    and "advance_lifecycle FS (cp_lifecycle (up_expected u)) (lc_state (adv_lifecycle (up_advance u)))
      (lc_updated_at (adv_lifecycle (up_advance u))) (ev_actor (adv_transition (up_advance u)))
      (lc_final_state (adv_lifecycle (up_advance u))) = Inr (up_advance u)"
proof -
  from assms obtain cp to_st occurred actor fin where cp: "wf_checkpoint FS cp" "wf_actor actor" "valid_datetime occurred"
    and p: "prepare_state_update FS cp to_st occurred actor fin = Inr u"
    unfolding prepared_update_def by blast
  show "wf_update FS u" by (rule prepared_update_wf(1) [OF cp p])
  show "list_all encodable FS" using assms by (simp add: prepared_update_def)
  have "0 \<le> lc_revision (cp_lifecycle cp)" using cp(1) by (simp add: wf_defs)
  then show "advance_lifecycle FS (cp_lifecycle (up_expected u)) (lc_state (adv_lifecycle (up_advance u)))
      (lc_updated_at (adv_lifecycle (up_advance u))) (ev_actor (adv_transition (up_advance u)))
      (lc_final_state (adv_lifecycle (up_advance u))) = Inr (up_advance u)"
    using p by (auto simp: prepare_state_update_Inr [OF cp(1)] advance_lifecycle_Inr next_lifecycle_def next_transition_def)
qed

lemma sound_held: "sound_database py FS db \<Longrightarrow> run_of py FS db rid = Inr (held_runs py FS db rid)"
  unfolding sound_database_def held_runs_def by (metis sum.case(2))

lemma held_valid:
  assumes "sound_database py FS db" and "held_runs py FS db rid = Some (cp, es)"
  shows "valid_run FS cp es" and "checkpoint_run cp = rid" and "wf_checkpoint FS cp"
proof -
  have "run_of py FS db rid = Inr (Some (cp, es))" using sound_held [OF assms(1)] assms(2) by simp
  then show v: "valid_run FS cp es" "checkpoint_run cp = rid" using run_view_valid(1,2) by blast+
  show "wf_checkpoint FS cp" using v(1) by (simp add: valid_run_def)
qed

lemma held_absent:
  assumes "sound_database py FS db" and "held_runs py FS db rid = None"
  shows "sql_select_run (run_id_value rid) db = Inr None"
  using sound_held [OF assms(1), of rid] assms(2)
  by (auto simp: run_view_def split: option.splits)

lemma run_id_value_inject: "run_id_value a = run_id_value b \<longleftrightarrow> a = b"
  by (cases a; cases b) simp

lemma sound_initialize:
  assumes ok: "sound_database py FS db" and cp: "initial_checkpoint FS cp"
    and eff: "initialize_effect cp db = Inr (x, db')"
  shows "sound_database py FS db'" and "held_runs py FS db' = (held_runs py FS db)(checkpoint_run cp \<mapsto> (cp, []))"
proof -
  have same: "run_of py FS db' (checkpoint_run cp) = Inr (Some (cp, []))"
    using initialize_effect_same [OF eff _ initial_checkpoint_wf(1) [OF cp]] ok cp
    by (simp add: sound_database_def initial_checkpoint_def)
  have other: "run_of py FS db' rid = run_of py FS db rid" if "rid \<noteq> checkpoint_run cp" for rid
    using initialize_effect_others [OF eff] that run_id_value_inject by blast
  show "held_runs py FS db' = (held_runs py FS db)(checkpoint_run cp \<mapsto> (cp, []))"
    using same other by (auto simp: held_runs_def fun_eq_iff)
  show "sound_database py FS db'"
    unfolding sound_database_def
    using ok same other schema_ok_initialize [OF eff] by (metis sound_database_def)
qed

lemma sound_append:
  assumes ok: "sound_database py FS db" and u: "prepared_update FS u"
    and eff: "append_effect py FS u db = Inr (nx, db')"
  obtains es where "held_runs py FS db (checkpoint_run (up_expected u)) = Some (up_expected u, es)"
    and "next_checkpoint u = Inr nx" and "checkpoint_run nx = checkpoint_run (up_expected u)"
    and "sound_database py FS db'"
    and "held_runs py FS db' = (held_runs py FS db)(checkpoint_run nx \<mapsto> (nx, es @ [adv_transition (up_advance u)]))"
proof -
  obtain es where run: "run_of py FS db (checkpoint_run (up_expected u)) = Inr (Some (up_expected u, es))"
    and nx: "next_checkpoint u = Inr nx"
    using append_effect_Inr [OF eff] by blast
  have rid: "checkpoint_run nx = checkpoint_run (up_expected u)"
    using next_checkpoint_wf [OF prepared_update_facts(1) [OF u]] nx by simp
  have same: "run_of py FS db' (checkpoint_run (up_expected u)) = Inr (Some (nx, es @ [adv_transition (up_advance u)]))"
    using append_effect_same [OF eff prepared_update_facts(1) [OF u] run] prepared_update_facts(3) [OF u] by simp
  have other: "run_of py FS db' r = run_of py FS db r" if "r \<noteq> checkpoint_run (up_expected u)" for r
    using append_effect_others [OF eff] that run_id_value_inject by blast
  have held: "held_runs py FS db (checkpoint_run (up_expected u)) = Some (up_expected u, es)"
    using run by (simp add: held_runs_def)
  have upd: "held_runs py FS db' = (held_runs py FS db)(checkpoint_run nx \<mapsto> (nx, es @ [adv_transition (up_advance u)]))"
    using same other rid by (auto simp: held_runs_def fun_eq_iff)
  have "sound_database py FS db'"
    unfolding sound_database_def
    using ok same other schema_ok_append [OF eff] by (metis sound_database_def)
  then show thesis using that [OF held nx rid _ upd] by blast
qed

interpretation sqlite: state_store
  "held_runs py FS" "sound_database py FS" "initial_checkpoint FS" "prepared_update FS"
  "\<lambda>cp. perform (store_initialize FS cp) []" "\<lambda>rid. perform (store_load py FS rid) []"
  "\<lambda>u. perform (store_compare_and_append py FS u) []" "\<lambda>rid. perform (store_history py FS rid) []"
  for py FS
proof
  fix u nx
  assume u: "prepared_update FS u" and nx: "next_checkpoint u = Inr nx"
  note wf = prepared_update_facts(1) [OF u]
  have "nx = \<lparr>cp_identity = cp_identity (up_expected u), cp_lifecycle = adv_lifecycle (up_advance u)\<rparr>"
    using next_checkpoint_wf [OF wf] nx by simp
  moreover have "lc_revision (adv_lifecycle (up_advance u)) = lc_revision (cp_lifecycle (up_expected u)) + 1"
    using wf by (simp add: wf_update_new new_StateUpdate_def Let_def split: if_splits)
  ultimately have "lc_revision (cp_lifecycle nx) \<noteq> lc_revision (cp_lifecycle (up_expected u))"
    and "checkpoint_run nx = checkpoint_run (up_expected u)" by simp_all
  then show "nx \<noteq> up_expected u \<and> checkpoint_run nx = checkpoint_run (up_expected u)" by auto
next
  fix s rid cp es
  assume "sound_database py FS s" "held_runs py FS s rid = Some (cp, es)"
  then have "run_of py FS s rid = Inr (Some (cp, es))" by (metis sound_held)
  then show "checkpoint_run cp = rid" by (rule run_view_valid)
next
  fix s cp
  assume ok: "sound_database py FS s" and cp: "initial_checkpoint FS cp"
    and none: "held_runs py FS s (checkpoint_run cp) = None"
  have "sql_select_run (run_id_value (checkpoint_run cp)) s = Inr None"
    by (rule held_absent [OF ok none])
  then obtain s' where eff: "initialize_effect cp s = Inr ((), s')"
    using initialize_effect_total [of s FS cp] ok cp initial_checkpoint_wf [OF cp]
    by (auto simp: sound_database_def initial_checkpoint_def)
  then show "\<exists>s'. perform (store_initialize FS cp) [] s = (Inr (), s') \<and> sound_database py FS s' \<and>
      held_runs py FS s' = (held_runs py FS s)(checkpoint_run cp \<mapsto> (cp, []))"
    using sound_initialize [OF ok cp eff] cp by (auto simp: initialize_quiet initial_checkpoint_def)
next
  fix s cp
  assume ok: "sound_database py FS s" and cp: "initial_checkpoint FS cp"
    and some: "held_runs py FS s (checkpoint_run cp) \<noteq> None"
  have "\<exists>row. sql_select_run (run_id_value (checkpoint_run cp)) s = Inr (Some row)"
    using sound_held [OF ok, of "checkpoint_run cp"] some by (auto simp: run_view_def split: option.splits)
  then show "perform (store_initialize FS cp) [] s = (Inl (StateStoreError SS_ALREADY_EXISTS), s)"
    using cp by (auto simp: initialize_quiet initial_checkpoint_def initialize_effect_def Let_def reported_def)
next
  fix s rid
  assume "sound_database py FS s"
  then show "perform (store_load py FS rid) [] s = (Inr (map_option fst (held_runs py FS s rid)), s)"
    by (simp add: load_quiet sound_held)
next
  fix s u es
  assume ok: "sound_database py FS s" and u: "prepared_update FS u"
    and cur: "held_runs py FS s (checkpoint_run (up_expected u)) = Some (up_expected u, es)"
  have "run_of py FS s (checkpoint_run (up_expected u)) = Inr (Some (up_expected u, es))"
    using sound_held [OF ok] cur by simp
  then obtain nx s' where eff: "append_effect py FS u s = Inr (nx, s')"
    using append_effect_total [of s FS u py es] ok prepared_update_facts [OF u] by (auto simp: sound_database_def)
  obtain es' where h: "held_runs py FS s (checkpoint_run (up_expected u)) = Some (up_expected u, es')"
    "next_checkpoint u = Inr nx" "sound_database py FS s'"
    "held_runs py FS s' = (held_runs py FS s)(checkpoint_run nx \<mapsto> (nx, es' @ [adv_transition (up_advance u)]))"
    by (rule sound_append [OF ok u eff]) blast
  then have "es' = es" using cur by simp
  moreover have "perform (store_compare_and_append py FS u) [] s = (Inr nx, s')"
    by (simp add: append_quiet eff)
  ultimately show "\<exists>nx s'. next_checkpoint u = Inr nx \<and>
      perform (store_compare_and_append py FS u) [] s = (Inr nx, s') \<and> sound_database py FS s' \<and>
      held_runs py FS s' = (held_runs py FS s)(checkpoint_run nx \<mapsto> (nx, es @ [adv_transition (up_advance u)]))"
    using h by blast
next
  fix s u cp es
  assume ok: "sound_database py FS s" and "prepared_update FS u"
    and "held_runs py FS s (checkpoint_run (up_expected u)) = Some (cp, es)" "cp \<noteq> up_expected u"
  then show "perform (store_compare_and_append py FS u) [] s = (Inl (StateStoreError SS_CONFLICT), s)"
    by (simp add: append_quiet append_effect_def Let_def sound_held reported_def)
next
  fix s u
  assume ok: "sound_database py FS s" and "prepared_update FS u"
    and "held_runs py FS s (checkpoint_run (up_expected u)) = None"
  then show "perform (store_compare_and_append py FS u) [] s = (Inl (StateStoreError SS_NOT_FOUND), s)"
    by (simp add: append_quiet append_effect_def Let_def sound_held reported_def)
next
  fix s rid
  assume "sound_database py FS s"
  then show "perform (store_history py FS rid) [] s =
    (case held_runs py FS s rid of None \<Rightarrow> Inl (StateStoreError SS_NOT_FOUND) | Some (cp, es) \<Rightarrow> Inr es, s)"
    by (simp add: history_quiet sound_held split: option.splits)
qed

end
