(* ===== verification/Resume.thy ===== *)
theory Resume
  imports ContractBinding StoreRefinement
begin

text \<open>
  \<open>application/resume.py\<close> and \<open>application/run_identity.py\<close>: the identity of a new run
  from its bound contract, and the checks that stand between a persisted run and its
  continuation. The clock and the id generator of the ports are arguments, and so is the
  load operation of the store; what the store's contract gives is proved in its locale.
\<close>

section \<open>Creating an identity\<close>

text \<open>The arguments of the constructor are evaluated in the order of the call.\<close>

definition create_run_identity ::
  "'c contract_package \<Rightarrow> 'c bound_contract \<Rightarrow> baseline_sha \<Rightarrow> policy_hash \<Rightarrow> datetime res \<Rightarrow> run_id res \<Rightarrow>
   run_identity res" where
  "create_run_identity pkg bound base pol now_utc new_run_id =
    sum_bind new_run_id (\<lambda>rid.
    sum_bind (new_ContractId (pkg_id pkg (bc_contract bound))) (\<lambda>cid.
    sum_bind (new_ContractVersion (pkg_version pkg (bc_contract bound))) (\<lambda>ver.
    sum_bind now_utc (\<lambda>created.
      new_RunIdentity rid cid ver (bc_hash bound) base pol created))))"

section \<open>Resuming\<close>

definition contract_matches :: "'c contract_package \<Rightarrow> 'c bound_contract \<Rightarrow> run_identity \<Rightarrow> bool res" where
  "contract_matches pkg bound i =
    sum_bind (new_ContractId (pkg_id pkg (bc_contract bound))) (\<lambda>cid.
    if ri_contract_id i \<noteq> cid then Inr False
    else sum_bind (new_ContractVersion (pkg_version pkg (bc_contract bound))) (\<lambda>ver.
      Inr (ri_contract_version i = ver \<and> ri_contract_hash i = bc_hash bound)))"

definition resume_checkpoint ::
  "'c contract_package \<Rightarrow> run_id \<Rightarrow> 'c bound_contract \<Rightarrow> baseline_sha \<Rightarrow> policy_hash \<Rightarrow>
   run_checkpoint option \<Rightarrow> run_checkpoint res" where
  "resume_checkpoint pkg rid bound base pol loaded = (case loaded of
      None \<Rightarrow> Inl (ResumeError RS_NOT_FOUND)
    | Some cp \<Rightarrow>
        let i = cp_identity cp in
        if ri_run_id i \<noteq> rid then Inl (ResumeError RS_RUN_MISMATCH)
        else sum_bind (contract_matches pkg bound i) (\<lambda>same.
          if \<not> same then Inl (ResumeError RS_CONTRACT_MISMATCH)
          else if ri_baseline_sha i \<noteq> base then Inl (ResumeError RS_BASELINE_MISMATCH)
          else if ri_policy_hash i \<noteq> pol then Inl (ResumeError RS_POLICY_MISMATCH)
          else if lc_state (cp_lifecycle cp) = COMPLETED then Inl (ResumeError RS_TERMINAL_RUN)
          else Inr cp))"

definition load_run_for_resume ::
  "(run_id \<Rightarrow> 's \<Rightarrow> run_checkpoint option res \<times> 's) \<Rightarrow> 'c contract_package \<Rightarrow> run_id \<Rightarrow> 'c bound_contract \<Rightarrow>
   baseline_sha \<Rightarrow> policy_hash \<Rightarrow> 's \<Rightarrow> run_checkpoint res \<times> 's" where
  "load_run_for_resume load pkg rid bound base pol s =
    (case load rid s of (r, s') \<Rightarrow> (sum_bind r (resume_checkpoint pkg rid bound base pol), s'))"

section \<open>What may resume\<close>

text \<open>The identity a run must have to continue under the given contract, baseline and policy.\<close>

definition bound_to :: "'c contract_package \<Rightarrow> 'c bound_contract \<Rightarrow> baseline_sha \<Rightarrow> policy_hash \<Rightarrow> run_identity \<Rightarrow> bool" where
  "bound_to pkg bound base pol i \<longleftrightarrow>
     contract_id_value (ri_contract_id i) = pkg_id pkg (bc_contract bound) \<and>
     contract_version_value (ri_contract_version i) = pkg_version pkg (bc_contract bound) \<and>
     ri_contract_hash i = bc_hash bound \<and> ri_baseline_sha i = base \<and> ri_policy_hash i = pol"

lemma contract_matches_iff:
  assumes "wf_run_identity i"
  shows "contract_matches pkg bound i = Inr True \<longleftrightarrow>
    contract_id_value (ri_contract_id i) = pkg_id pkg (bc_contract bound) \<and>
    contract_version_value (ri_contract_version i) = pkg_version pkg (bc_contract bound) \<and>
    ri_contract_hash i = bc_hash bound"
proof -
  have wf: "wf_contract_id (ri_contract_id i)" "wf_contract_version (ri_contract_version i)"
    using assms by (simp_all add: wf_run_identity_def)
  then show ?thesis
    by (auto simp: contract_matches_def new_wrapper_iff split: if_splits)
qed

lemma resume_checkpoint_Inr:
  assumes "wf_run_identity (cp_identity cp)"
  shows "resume_checkpoint pkg rid bound base pol (Some cp) = Inr cp' \<longleftrightarrow>
    cp' = cp \<and> ri_run_id (cp_identity cp) = rid \<and> bound_to pkg bound base pol (cp_identity cp) \<and>
    lc_state (cp_lifecycle cp) \<noteq> COMPLETED"
proof -
  have m: "(contract_matches pkg bound (cp_identity cp) = Inr x \<and> x) \<longleftrightarrow>
      contract_matches pkg bound (cp_identity cp) = Inr True \<and> x" for x by auto
  show ?thesis
    by (auto simp: resume_checkpoint_def Let_def bound_to_def contract_matches_iff [OF assms, symmetric]
        split: if_splits)
qed

context state_store
begin

text \<open>Against any store that keeps the contract of the port.\<close>

lemma resume_exact:
  assumes "ok s" and "\<And>cp es. runs s rid = Some (cp, es) \<Longrightarrow> wf_run_identity (cp_identity cp)"
  shows "load_run_for_resume do_load pkg rid bound base pol s = (Inr cp, s') \<longleftrightarrow>
    s' = s \<and> (\<exists>es. runs s rid = Some (cp, es)) \<and> bound_to pkg bound base pol (cp_identity cp) \<and>
    lc_state (cp_lifecycle cp) \<noteq> COMPLETED"
proof (cases "runs s rid")
  case None
  then show ?thesis
    using load [OF assms(1)] by (simp add: load_run_for_resume_def resume_checkpoint_def)
next
  case (Some a)
  obtain cp0 es where a: "a = (cp0, es)" by fastforce
  with Some have wf: "wf_run_identity (cp_identity cp0)" and rid: "ri_run_id (cp_identity cp0) = rid"
    using assms held by auto
  show ?thesis
    using load [OF assms(1)] Some a rid
    by (auto simp: load_run_for_resume_def resume_checkpoint_Inr [OF wf])
qed

lemma resume_absent:
  assumes "ok s" and "runs s rid = None"
  shows "load_run_for_resume do_load pkg rid bound base pol s = (Inl (ResumeError RS_NOT_FOUND), s)"
  using load [OF assms(1)] assms(2) by (simp add: load_run_for_resume_def resume_checkpoint_def)

end

end
