(* ===== verification/StoreReachability.thy ===== *)
theory StoreReachability
  imports StoreRefinement
begin

text \<open>
  The store among other connections and failing statements. Reads return only what some
  validation accepted; a database that initializations and prepared updates produced never holds
  a run that fails validation (\<open>reachable_sound\<close>). The last section has the two ways around
  this: a read that an append overtakes, and an update built by hand that its constructor
  accepts although the lifecycle policy does not.
\<close>

section \<open>Reads\<close>

lemma sql_bind_InrE:
  assumes "sql_bind m f s = (Inr v, t)"
  obtains x s' where "m s = (Inr x, s')" and "f x s' = (Inr v, t)"
  using assms by (auto simp: sql_bind_cases)

lemma sql_lift_InrE:
  assumes "sql_lift m s = (Inr x, t)"
  obtains "m = Inr x" and "t = s"
  using assms by (auto simp: sql_lift_def)

lemma statement_view:
  assumes "ses_working s = None"
  shows "\<exists>db ev. statement s = ((if ev then Inl SqliteError else Inr ()),
     s\<lparr>ses_durable := db, ses_events := tl (ses_events s)\<rparr>)"
proof (cases "ses_events s")
  case Nil
  then show ?thesis by (intro exI [of _ "ses_durable s"] exI [of _ False]) (simp add: statement_def)
next
  case (Cons e es)
  show ?thesis
  proof (cases e)
    case Quiet
    with Cons show ?thesis by (intro exI [of _ "ses_durable s"] exI [of _ False]) (simp add: statement_def)
  next
    case Fails
    with Cons show ?thesis by (intro exI [of _ "ses_durable s"] exI [of _ True]) (simp add: statement_def)
  next
    case (Overtaken db)
    with Cons assms show ?thesis by (intro exI [of _ db] exI [of _ False]) (simp add: statement_def)
  qed
qed

lemma query_view:
  assumes "ses_working s = None" and "query f s = (Inr x, t)"
  shows "\<exists>db. f db = Inr x \<and> ses_working t = None"
proof -
  obtain db ev where st: "statement s = ((if ev then Inl SqliteError else Inr ()),
      s\<lparr>ses_durable := db, ses_events := tl (ses_events s)\<rparr>)"
    using statement_view [OF assms(1)] by blast
  with assms show ?thesis
    by (auto simp: query_def sql_bind_def visible_def split: if_splits)
qed

text \<open>Whatever happens between its queries, what a validation returns is the view of two databases.\<close>

lemma validated_run_view:
  assumes "ses_working s = None" and "validated_run py FS rid s = (Inr v, t)"
  shows "\<exists>db1 db2. run_view py FS rid db1 db2 = Inr v"
proof -
  define F where "F = (\<lambda>row. case row of None \<Rightarrow> sql_return None | Some r \<Rightarrow>
      sql_catching is_type_or_value_error (StateStoreError SS_CORRUPT) (
        sql_bind (sql_lift (stored_run py FS rid r)) (\<lambda>(ident, stored, initial).
        sql_bind (query (sql_select_transitions (run_id_value rid))) (\<lambda>rows.
        sql_bind (sql_lift (replayed_run py FS ident stored initial rows)) (\<lambda>run.
        sql_return (Some run))))))"
  have "sql_bind (query (sql_select_run (run_id_value rid))) F s = (Inr v, t)"
    using assms(2) by (simp only: validated_run_def F_def)
  then obtain row s1 where q1: "query (sql_select_run (run_id_value rid)) s = (Inr row, s1)"
    and F: "F row s1 = (Inr v, t)"
    by (rule sql_bind_InrE)
  obtain db1 where db1: "sql_select_run (run_id_value rid) db1 = Inr row" and w1: "ses_working s1 = None"
    using query_view [OF assms(1) q1] by blast
  show ?thesis
  proof (cases row)
    case None
    with F have "v = None" by (simp add: F_def sql_return_def)
    moreover have "run_view py FS rid db1 db1 = Inr None"
      using db1 None by (simp add: run_view_def)
    ultimately show ?thesis by blast
  next
    case (Some r)
    let ?rest = "sql_bind (sql_lift (stored_run py FS rid r)) (\<lambda>(ident, stored, initial).
          sql_bind (query (sql_select_transitions (run_id_value rid))) (\<lambda>rows.
          sql_bind (sql_lift (replayed_run py FS ident stored initial rows)) (\<lambda>run.
          sql_return (Some run))))"
    have "?rest s1 = (Inr v, t)"
      using F Some by (auto simp: F_def sql_catching_def split: prod.splits)
    then obtain p s1' where p: "sql_lift (stored_run py FS rid r) s1 = (Inr p, s1')"
      and rest: "(case p of (ident, stored, initial) \<Rightarrow>
          sql_bind (query (sql_select_transitions (run_id_value rid))) (\<lambda>rows.
          sql_bind (sql_lift (replayed_run py FS ident stored initial rows)) (\<lambda>run.
          sql_return (Some run)))) s1' = (Inr v, t)"
      by (rule sql_bind_InrE)
    obtain ident stored initial where pp: "p = (ident, stored, initial)" by (cases p)
    from p have st: "stored_run py FS rid r = Inr (ident, stored, initial)" and s1': "s1' = s1"
      unfolding pp by (auto elim: sql_lift_InrE)
    have "sql_bind (query (sql_select_transitions (run_id_value rid))) (\<lambda>rows.
          sql_bind (sql_lift (replayed_run py FS ident stored initial rows)) (\<lambda>run.
          sql_return (Some run))) s1 = (Inr v, t)"
      using rest by (simp only: pp s1' prod.case)
    then obtain rows s2 where q2: "query (sql_select_transitions (run_id_value rid)) s1 = (Inr rows, s2)"
      and rest2: "sql_bind (sql_lift (replayed_run py FS ident stored initial rows)) (\<lambda>run.
          sql_return (Some run)) s2 = (Inr v, t)"
      by (rule sql_bind_InrE)
    from rest2 obtain run where rp: "replayed_run py FS ident stored initial rows = Inr run" and v: "v = Some run"
      by (auto simp: sql_lift_def sql_return_def elim!: sql_bind_InrE)
    obtain db2 where db2: "sql_select_transitions (run_id_value rid) db2 = Inr rows"
      using query_view [OF w1 q2] by blast
    have "run_view py FS rid db1 db2 = Inr v"
      by (simp add: run_view_def db1 db2 Some st rp v)
    then show ?thesis by blast
  qed
qed

lemma connect_view:
  assumes "connect (open_session evs db) = (r, s)" shows "ses_working s = None"
  using connect_outside [OF _ assms] by (simp add: open_session_def)

lemma store_load_Inr:
  assumes "perform (store_load py FS rid) evs db = (Inr v, db')"
  shows "\<exists>w db1 db2. run_view py FS rid db1 db2 = Inr w \<and> v = map_option fst w"
proof -
  obtain r s where c: "connect (open_session evs db) = (r, s)" by fastforce
  obtain w t where "validated_run py FS rid s = (Inr w, t)" "v = map_option fst w"
    using assms c by (auto simp: perform_def store_load_def store_read_def sql_bind_cases sql_return_def
        sql_bind_def [of connect] split: prod.splits sum.splits)
  then show ?thesis using validated_run_view [OF connect_view [OF c]] by blast
qed

lemma store_history_Inr:
  assumes "perform (store_history py FS rid) evs db = (Inr es, db')"
  shows "\<exists>cp db1 db2. run_view py FS rid db1 db2 = Inr (Some (cp, es))"
proof -
  obtain r s where c: "connect (open_session evs db) = (r, s)" by fastforce
  obtain cp t where "validated_run py FS rid s = (Inr (Some (cp, es)), t)"
    using assms c by (auto simp: perform_def store_history_def store_read_def sql_bind_cases sql_return_def
        sql_lift_def sql_bind_def [of connect] split: prod.splits sum.splits option.splits)
  then show ?thesis using validated_run_view [OF connect_view [OF c]] by blast
qed

section \<open>Reachable databases\<close>

text \<open>
  A database file through its life: created, then opened, initialized with initial checkpoints and
  appended to with updates that \<open>prepare_state_update\<close> made, by connections whose statements may fail
  and may be overtaken by the commits of others. Updates that were not prepared, which
  \<open>compare_and_append\<close> accepts as well, are left out here; \<open>poisoned_run\<close> shows what they do.
\<close>

inductive store_reachable :: "interpreter \<Rightarrow> str list \<Rightarrow> database \<Rightarrow> bool" for py FS where
  reach_created: "perform initialize_schema [] empty_database = (Inr (), db) \<Longrightarrow> store_reachable py FS db"
| reach_opened: "store_reachable py FS db \<Longrightarrow> (\<forall>d. Overtaken d \<in> set evs \<longrightarrow> store_reachable py FS d) \<Longrightarrow>
    perform initialize_schema evs db = (r, db') \<Longrightarrow> store_reachable py FS db'"
| reach_initialized: "store_reachable py FS db \<Longrightarrow> (\<forall>d. Overtaken d \<in> set evs \<longrightarrow> store_reachable py FS d) \<Longrightarrow>
    initial_checkpoint FS cp \<Longrightarrow> perform (store_initialize FS cp) evs db = (r, db') \<Longrightarrow>
    store_reachable py FS db'"
| reach_appended: "store_reachable py FS db \<Longrightarrow> (\<forall>d. Overtaken d \<in> set evs \<longrightarrow> store_reachable py FS d) \<Longrightarrow>
    prepared_update FS u \<Longrightarrow> perform (store_compare_and_append py FS u) evs db = (r, db') \<Longrightarrow>
    store_reachable py FS db'"

lemma atomic_outcome_db:
  "atomic_outcome evs g r db0 db' \<Longrightarrow> db' = db0 \<or> (\<exists>x. g db0 = Inr (x, db'))"
  by (auto simp: atomic_outcome_def split: sum.splits)

lemma created_database:
  assumes "perform initialize_schema [] empty_database = (r, db)"
  shows "db = \<lparr>db_version = 1, db_runs = Some [], db_transitions = Some []\<rparr>" and "r = Inr ()"
proof -
  have "(r, db) = (case schema_effect empty_database of
      Inr (x, d) \<Rightarrow> (Inr x, d) | Inl e \<Rightarrow> (Inl (reported e), empty_database))"
    using schema_atomic [OF assms] atomic_outcome_quiet by fastforce
  then show "db = \<lparr>db_version = 1, db_runs = Some [], db_transitions = Some []\<rparr>" and "r = Inr ()"
    by (simp_all add: schema_effect_def empty_database_def sql_create_runs_def sql_create_transitions_def
        sql_set_version_def)
qed

theorem reachable_sound:
  assumes "store_reachable py FS db"
  shows "sound_database py FS db"
  using assms
proof induction
  case (reach_created db)
  then have db: "db = \<lparr>db_version = 1, db_runs = Some [], db_transitions = Some []\<rparr>"
    by (rule created_database)
  then show ?case
    by (auto simp: sound_database_def schema_ok_def SCHEMA_VERSION_def run_view_def sql_select_run_def table_def)
next
  case (reach_opened db evs r db')
  then have w: "\<forall>d \<in> worlds evs db. sound_database py FS d" by (auto simp: worlds_def)
  obtain db0 where "db0 \<in> worlds evs db" "db' = db0 \<or> (\<exists>x. schema_effect db0 = Inr (x, db'))"
    using schema_atomic [OF reach_opened.hyps(2)] atomic_outcome_db by blast
  moreover from this w have "sound_database py FS db0" by blast
  ultimately show ?case
    by (auto simp: schema_effect_def sound_database_def schema_ok_def SCHEMA_VERSION_def)
next
  case (reach_initialized db evs cp r db')
  then have w: "\<forall>d \<in> worlds evs db. sound_database py FS d" by (auto simp: worlds_def)
  obtain db0 where "db0 \<in> worlds evs db" "db' = db0 \<or> (\<exists>x. initialize_effect cp db0 = Inr (x, db'))"
    using initialize_atomic [OF _ reach_initialized.hyps(3)] reach_initialized.hyps(2) atomic_outcome_db
    by (metis initial_checkpoint_def)
  with w show ?case using sound_initialize(1) [OF _ reach_initialized.hyps(2)] by blast
next
  case (reach_appended db evs u r db')
  then have w: "\<forall>d \<in> worlds evs db. sound_database py FS d" by (auto simp: worlds_def)
  obtain db0 where "db0 \<in> worlds evs db" "db' = db0 \<or> (\<exists>x. append_effect py FS u db0 = Inr (x, db'))"
    using append_atomic [OF reach_appended.hyps(3)] atomic_outcome_db by blast
  with w show ?case using sound_append [OF _ reach_appended.hyps(2)] by metis
qed

section \<open>Two ways to a run that does not validate\<close>

text \<open>
  A read runs its two queries in autocommit mode. An append that commits between them shows
  the reader the old checkpoint with the new journal.
\<close>

lemma torn_view:
  assumes run1: "run_of py FS db1 rid = Inr (Some (cp1, es1))"
    and run2: "run_of py FS db2 rid = Inr (Some (cp2, es2))"
    and "cp1 \<noteq> cp2" and "cp_identity cp1 = cp_identity cp2"
  shows "run_view py FS rid db1 db2 = Inl (StateStoreError SS_CORRUPT)"
proof -
  obtain row1 initial where row1: "sql_select_run (run_id_value rid) db1 = Inr (Some row1)"
    and st1: "stored_run py FS rid row1 = Inr (cp_identity cp1, cp1, initial)"
    using run1 unfolding run_view_Some stored_run_Inr by blast
  obtain rows2 initial2 where rows2: "sql_select_transitions (run_id_value rid) db2 = Inr rows2"
    and "create_initial_checkpoint FS (cp_identity cp2) = Inr initial2"
    and rp2: "replay py FS (cp_identity cp2) 1 initial2 [] rows2 = Inr (cp2, es2)"
    using run2 unfolding run_view_Some by blast
  then have "initial2 = initial"
    using st1 assms(4) by (simp add: stored_run_Inr)
  then have "replayed_run py FS (cp_identity cp1) cp1 initial rows2 = corrupt"
    using rp2 assms(3,4) by (simp add: replayed_run_def)
  then show ?thesis
    by (simp add: run_view_def row1 st1 rows2 corrupt_def is_type_or_value_error_def)
qed

lemma load_overtaken:
  assumes "run_view py FS rid db1 db2 = r" and "sql_select_run (run_id_value rid) db1 = Inr (Some row)"
    and "stored_run py FS rid row = Inr x"
  shows "perform (store_load py FS rid) [Quiet, Quiet, Quiet, Overtaken db2] db1 =
    (catching (\<lambda>e. e = SqliteError) (StateStoreError SS_STORAGE_FAILURE)
       (sum_bind r (\<lambda>v. Inr (map_option fst v))), db2)"
proof -
  obtain ident stored initial where x: "x = (ident, stored, initial)" by (cases x)
  show ?thesis
    using assms unfolding x
    by (auto simp: perform_def store_load_def store_read_def open_session_def sql_bind_def connect_def
        statement_def validated_run_def query_def visible_def sql_lift_def sql_catching_def sql_return_def
        close_def run_view_def Let_def catching_def split: sum.splits prod.splits)
qed


lemma torn_load:
  assumes run1: "run_of py FS db1 rid = Inr (Some (cp1, es1))"
    and run2: "run_of py FS db2 rid = Inr (Some (cp2, es2))"
    and "cp1 \<noteq> cp2" and "cp_identity cp1 = cp_identity cp2"
  shows "perform (store_load py FS rid) [Quiet, Quiet, Quiet, Overtaken db2] db1 =
    (Inl (StateStoreError SS_CORRUPT), db2)"
proof -
  obtain row1 initial where "sql_select_run (run_id_value rid) db1 = Inr (Some row1)"
    and "stored_run py FS rid row1 = Inr (cp_identity cp1, cp1, initial)"
    using run1 unfolding run_view_Some stored_run_Inr by blast
  with load_overtaken [OF torn_view [OF assms]] show ?thesis by simp
qed

lemma poisoned_run:
  assumes ok: "sound_database py FS db" and u: "wf_update FS u" and FS: "list_all encodable FS"
    and held: "held_runs py FS db (checkpoint_run (up_expected u)) = Some (up_expected u, es)"
    and skips: "advance_lifecycle FS (cp_lifecycle (up_expected u)) (lc_state (adv_lifecycle (up_advance u)))
      (lc_updated_at (adv_lifecycle (up_advance u))) (ev_actor (adv_transition (up_advance u)))
      (lc_final_state (adv_lifecycle (up_advance u))) \<noteq> Inr (up_advance u)"
  shows "\<exists>nx db'. perform (store_compare_and_append py FS u) [] db = (Inr nx, db') \<and>
    perform (store_load py FS (checkpoint_run (up_expected u))) [] db' = (Inl (StateStoreError SS_CORRUPT), db')"
proof -
  have run: "run_of py FS db (checkpoint_run (up_expected u)) = Inr (Some (up_expected u, es))"
    using sound_held [OF ok] held by simp
  obtain nx db' where eff: "append_effect py FS u db = Inr (nx, db')"
    using append_effect_total [OF _ u FS run] ok by (auto simp: sound_database_def)
  have "run_of py FS db' (checkpoint_run (up_expected u)) = Inl (StateStoreError SS_CORRUPT)"
    using append_effect_same [OF eff u run] skips by simp
  with eff show ?thesis by (auto simp: append_quiet load_quiet)
qed

end
