(* ===== verification/StoreGrowth.thy ===== *)
theory StoreGrowth
  imports StoreReachability
begin

text \<open>
  What a database gains under the store's writes. \<open>appended\<close> says which rows an append leaves;
  \<open>written\<close> are the databases that any writes make of one, checked against the lifecycle policy
  or not, under failing statements and among other connections that write through the store.
  No write of the store shortens or changes the transition table, so a history that is read later
  continues one that was read before.
\<close>

section \<open>The rows an append leaves\<close>

definition appended :: "state_update \<Rightarrow> run_checkpoint \<Rightarrow> database \<Rightarrow> database \<Rightarrow> bool" where
  "appended u nx db db' \<longleftrightarrow>
    (let key = run_id_value (checkpoint_run (up_expected u)); event = adv_transition (up_advance u) in
     \<exists>runs rows old new tb.
       serialize_checkpoint (up_expected u) = Inr old \<and> serialize_checkpoint nx = Inr new \<and>
       serialize_transition event = Inr tb \<and>
       db_runs db = Some runs \<and> db_transitions db = Some rows \<and>
       length (filter (\<lambda>r. row_run_id r = key \<and> row_checkpoint r = SqlBlob old) runs) = 1 \<and>
       db_runs db' = Some (map (\<lambda>r. if row_run_id r = key \<and> row_checkpoint r = SqlBlob old
         then r\<lparr>row_checkpoint := SqlBlob new\<rparr> else r) runs) \<and>
       db_transitions db' = Some (rows @
         [\<lparr>tr_run_id = key, tr_revision = SqlInteger (ev_revision event), tr_transition = SqlBlob tb\<rparr>]))"

text \<open>The lifecycle policy makes of the expected checkpoint what the update carries.\<close>

definition policy_allows :: "str list \<Rightarrow> state_update \<Rightarrow> bool" where
  "policy_allows FS u \<longleftrightarrow>
     advance_lifecycle FS (cp_lifecycle (up_expected u)) (lc_state (adv_lifecycle (up_advance u)))
       (lc_updated_at (adv_lifecycle (up_advance u))) (ev_actor (adv_transition (up_advance u)))
       (lc_final_state (adv_lifecycle (up_advance u))) = Inr (up_advance u)"

lemma append_effect_appended:
  assumes "append_effect py FS u db = Inr (nx, db')"
  shows "appended u nx db db'"
proof -
  let ?key = "run_id_value (ri_run_id (cp_identity (up_expected u)))"
  from assms obtain old tb new db1 where ser: "serialize_checkpoint (up_expected u) = Inr old"
    "serialize_transition (adv_transition (up_advance u)) = Inr tb" "serialize_checkpoint nx = Inr new"
    and i: "sql_insert_transition ?key (ev_revision (adv_transition (up_advance u))) tb db = Inr db1"
    and p: "sql_update_checkpoint ?key old new db1 = Inr (1, db')"
    by (auto simp: append_effect_def Let_def split: option.splits if_splits prod.splits)
  obtain runs rows where r: "db_runs db = Some runs" "db_transitions db = Some rows"
    and db1: "db1 = db\<lparr>db_transitions := Some (rows @ [\<lparr>tr_run_id = ?key,
        tr_revision = SqlInteger (ev_revision (adv_transition (up_advance u))), tr_transition = SqlBlob tb\<rparr>])\<rparr>"
    using i by (auto simp: insert_transition_Inr)
  have "length (filter (update_matches ?key old) runs) = 1"
    "db' = db1\<lparr>db_runs := Some (map (\<lambda>r. if update_matches ?key old r
        then r\<lparr>row_checkpoint := SqlBlob new\<rparr> else r) runs)\<rparr>"
    using p r(1) by (auto simp: update_checkpoint_Inr db1)
  then show ?thesis
    unfolding appended_def Let_def
    using ser r by (intro exI conjI) (simp_all add: db1 update_matches_def [abs_def])
qed

section \<open>Databases that writes make of one\<close>

inductive written :: "interpreter \<Rightarrow> str list \<Rightarrow> database \<Rightarrow> database \<Rightarrow> bool" for py FS db where
  written_refl: "written py FS db db"
| written_opened: "written py FS db d \<Longrightarrow> (\<forall>e. Overtaken e \<in> set evs \<longrightarrow> written py FS db e) \<Longrightarrow>
    perform initialize_schema evs d = (r, d') \<Longrightarrow> written py FS db d'"
| written_initialized: "written py FS db d \<Longrightarrow> (\<forall>e. Overtaken e \<in> set evs \<longrightarrow> written py FS db e) \<Longrightarrow>
    perform (store_initialize FS cp) evs d = (r, d') \<Longrightarrow> written py FS db d'"
| written_appended: "written py FS db d \<Longrightarrow> (\<forall>e. Overtaken e \<in> set evs \<longrightarrow> written py FS db e) \<Longrightarrow>
    perform (store_compare_and_append py FS u) evs d = (r, d') \<Longrightarrow> written py FS db d'"

text \<open>The rows of the transition table; none as long as there is no table.\<close>

definition journal :: "database \<Rightarrow> transition_row list" where
  "journal db = (case db_transitions db of None \<Rightarrow> [] | Some rows \<Rightarrow> rows)"

definition extends_journal :: "database \<Rightarrow> database \<Rightarrow> bool" where
  "extends_journal db db' \<longleftrightarrow> (\<exists>more. journal db' = journal db @ more)"

lemma extends_trans: "extends_journal a b \<Longrightarrow> extends_journal b c \<Longrightarrow> extends_journal a c"
  by (auto simp: extends_journal_def)

lemma extends_refl [simp]: "extends_journal db db"
  by (simp add: extends_journal_def)

lemma effects_extend:
  "append_effect py FS u db = Inr (nx, db') \<Longrightarrow> extends_journal db db'"
  "initialize_effect cp db = Inr (x, db') \<Longrightarrow> extends_journal db db'"
  "schema_effect db = Inr (y, db') \<Longrightarrow> extends_journal db db'"
proof -
  show "append_effect py FS u db = Inr (nx, db') \<Longrightarrow> extends_journal db db'"
    by (drule append_effect_appended) (auto simp: appended_def extends_journal_def journal_def Let_def)
  show "initialize_effect cp db = Inr (x, db') \<Longrightarrow> extends_journal db db'"
    by (auto simp: initialize_effect_def Let_def insert_run_Inr extends_journal_def journal_def split: if_splits)
  show "schema_effect db = Inr (y, db') \<Longrightarrow> extends_journal db db'"
    by (auto simp: schema_effect_def sql_create_runs_def sql_create_transitions_def sql_set_version_def
        extends_journal_def journal_def split: if_splits)
qed

lemma initialize_other:
  assumes "create_initial_checkpoint FS (cp_identity cp) \<noteq> Inr cp"
    and "perform (store_initialize FS cp) evs db = (r, db')"
  shows "db' = db"
  using assms
  by (auto simp: store_initialize_def perform_def open_session_def sql_bind_def sql_lift_def split: sum.splits)

lemma written_extends:
  assumes "written py FS db db'"
  shows "extends_journal db db'"
  using assms
proof induction
  case written_refl
  then show ?case by simp
next
  case (written_opened d evs r d')
  obtain d0 where "d0 \<in> worlds evs d" "d' = d0 \<or> (\<exists>x. schema_effect d0 = Inr (x, d'))"
    using schema_atomic [OF written_opened.hyps(2)] atomic_outcome_db by blast
  moreover have "extends_journal db d0" if "d0 \<in> worlds evs d" for d0
    using written_opened.IH that by (auto simp: worlds_def)
  ultimately show ?case by (metis effects_extend(3) extends_trans)
next
  case (written_initialized d evs cp r d')
  have w: "extends_journal db d0" if "d0 \<in> worlds evs d" for d0
    using written_initialized.IH that by (auto simp: worlds_def)
  show ?case
  proof (cases "create_initial_checkpoint FS (cp_identity cp) = Inr cp")
    case True
    then obtain d0 where "d0 \<in> worlds evs d" "d' = d0 \<or> (\<exists>x. initialize_effect cp d0 = Inr (x, d'))"
      using initialize_atomic [OF _ written_initialized.hyps(2)] atomic_outcome_db by blast
    with w show ?thesis by (metis effects_extend(2) extends_trans)
  next
    case False
    then show ?thesis
      using initialize_other [OF _ written_initialized.hyps(2)] written_initialized.IH(1) by simp
  qed
next
  case (written_appended d evs u r d')
  obtain d0 where "d0 \<in> worlds evs d" "d' = d0 \<or> (\<exists>x. append_effect py FS u d0 = Inr (x, d'))"
    using append_atomic [OF written_appended.hyps(2)] atomic_outcome_db by blast
  moreover have "extends_journal db d0" if "d0 \<in> worlds evs d" for d0
    using written_appended.IH that by (auto simp: worlds_def)
  ultimately show ?case by (metis effects_extend(1) extends_trans)
qed

section \<open>Later histories continue earlier ones\<close>

lemma journal_rows_nth:
  "journal_rows n rows es \<Longrightarrow> i < length es \<Longrightarrow>
    tr_revision (rows ! i) = SqlInteger (n + int i) \<and>
    (\<exists>b. tr_transition (rows ! i) = SqlBlob b \<and> serialize_transition (es ! i) = Inr b)"
proof (induction n rows es arbitrary: i rule: journal_rows.induct)
  case (2 n row rows e es)
  then show ?case by (cases i) (auto split: sqlval.splits)
qed simp_all

lemma journal_rows_continue:
  assumes old: "journal_rows 1 rows es" "list_all (wf_transition FS) es"
    and new: "journal_rows 1 rows' es'" "list_all (wf_transition FS) es'"
    and sub: "set rows \<subseteq> set rows'"
  shows "\<exists>more. es' = es @ more"
proof -
  have nth: "i < length es' \<and> es' ! i = es ! i" if i: "i < length es" for i
  proof -
    note len = journal_rows_length [OF old(1)] journal_rows_length [OF new(1)]
    have "rows ! i \<in> set rows'" using i len(1) sub by (metis nth_mem subsetD)
    then obtain j where j: "j < length es'" "rows' ! j = rows ! i" by (metis in_set_conv_nth len(2))
    note o = journal_rows_nth [OF old(1) i] and n = journal_rows_nth [OF new(1) j(1)]
    from o n j(2) have "j = i" by simp
    with o n j obtain b where b: "serialize_transition (es ! i) = Inr b" "serialize_transition (es' ! i) = Inr b"
      by auto
    moreover have "wf_transition FS (es ! i)" "wf_transition FS (es' ! i)"
      using old(2) new(2) i j(1) \<open>j = i\<close> by (simp_all add: list_all_length)
    ultimately have "es ! i = es' ! i" by (metis sum.inject(2) transition_codec)
    with j(1) \<open>j = i\<close> show ?thesis by simp
  qed
  have "length es \<le> length es'"
    using nth by (cases "length es") (auto simp: Suc_le_eq)
  then have "take (length es) es' = es"
    using nth by (intro nth_equalityI) simp_all
  then show ?thesis by (metis append_take_drop_id)
qed

lemma history_quiet_Inr:
  "perform (store_history py FS rid) [] db = (Inr es, db') \<Longrightarrow> \<exists>cp. run_of py FS db rid = Inr (Some (cp, es))"
  by (auto simp: history_quiet catching_def split: sum.splits option.splits if_splits)

lemma run_of_journal:
  assumes "run_of py FS db rid = Inr (Some (cp, es))"
  shows "\<exists>rows. journal_rows 1 rows es \<and> set rows = {r \<in> set (journal db). tr_run_id r = run_id_value rid}"
    and "list_all (wf_transition FS) es"
proof -
  obtain rows where rows: "sql_select_transitions (run_id_value rid) db = Inr rows" "journal_rows 1 rows es"
    using run_view_valid(3) [OF assms] by blast
  then have "set rows = {r \<in> set (journal db). tr_run_id r = run_id_value rid}"
    by (auto simp: sql_select_transitions_def table_def journal_def split: option.splits)
  with rows(2) show "\<exists>rows. journal_rows 1 rows es \<and> set rows = {r \<in> set (journal db). tr_run_id r = run_id_value rid}"
    by blast
  show "list_all (wf_transition FS) es"
    by (rule valid_run_shape(3) [OF run_view_valid(1) [OF assms]])
qed

lemma histories_continue:
  assumes "extends_journal db db'"
    and "run_of py FS db rid = Inr (Some (cp, es))" and "run_of py FS db' rid = Inr (Some (cp', es'))"
  shows "\<exists>more. es' = es @ more"
proof -
  obtain rows rows' where "journal_rows 1 rows es" "journal_rows 1 rows' es'"
    and rows: "set rows = {r \<in> set (journal db). tr_run_id r = run_id_value rid}"
      "set rows' = {r \<in> set (journal db'). tr_run_id r = run_id_value rid}"
    using run_of_journal(1) [OF assms(2)] run_of_journal(1) [OF assms(3)] by blast
  moreover have "set rows \<subseteq> set rows'"
    using assms(1) unfolding rows extends_journal_def by auto
  ultimately show ?thesis
    using journal_rows_continue run_of_journal(2) assms(2,3) by blast
qed

end
