(* ===== verification/PyFloat.thy ===== *)
theory PyFloat
  imports PyJson
begin

text \<open>
  Floating-point numbers as far as durations need them: non-negative doubles in the range of the
  normal numbers, as exact fractions of natural numbers, with the correctly rounded quotient of
  two integers, the sum of an integer and a float, and \<open>float.__repr__\<close>, the shortest decimal
  that rounds to the number. Also the conversion of integers to floats, as far as it overflows,
  and the difference of two datetimes.
\<close>

section \<open>Rounding\<close>

fun ilog2 :: "nat \<Rightarrow> nat" where
  "ilog2 n = (if n < 2 then 0 else Suc (ilog2 (n div 2)))"

declare ilog2.simps [simp del]

text \<open>Whether \<open>2 ^ e\<close> is at most \<open>n / d\<close>, and the binary exponent of \<open>n / d\<close>.\<close>

definition pow2_le :: "int \<Rightarrow> nat \<Rightarrow> nat \<Rightarrow> bool" where
  "pow2_le e n d \<longleftrightarrow> (if 0 \<le> e then 2 ^ nat e * d \<le> n else d \<le> n * 2 ^ nat (- e))"

definition binary_exponent :: "nat \<Rightarrow> nat \<Rightarrow> int" where
  "binary_exponent n d = (let e = int (ilog2 n) - int (ilog2 d) in if pow2_le e n d then e else e - 1)"

definition round_half_even :: "nat \<Rightarrow> nat \<Rightarrow> nat" where
  "round_half_even n d = (let q = n div d; r = n mod d in
     if 2 * r < d then q else if d < 2 * r then q + 1 else if even q then q else q + 1)"

text \<open>A float is a fraction; its significand has 53 bits.\<close>

type_synonym pyfloat = "nat \<times> nat"

definition round_double :: "nat \<Rightarrow> nat \<Rightarrow> pyfloat" where
  "round_double n d =
    (if n = 0 then (0, 1)
     else let e = binary_exponent n d - 52 in
       if 0 \<le> e then (round_half_even n (d * 2 ^ nat e) * 2 ^ nat e, 1)
       else (round_half_even (n * 2 ^ nat (- e)) d, 2 ^ nat (- e)))"

definition same_float :: "pyfloat \<Rightarrow> pyfloat \<Rightarrow> bool" where
  "same_float x y \<longleftrightarrow> fst x * snd y = fst y * snd x"

text \<open>\<open>a / b\<close> of integers, and \<open>i + x\<close> for an integer that is a float itself.\<close>

definition int_truediv :: "nat \<Rightarrow> nat \<Rightarrow> pyfloat" where
  "int_truediv a b = round_double a b"

definition float_add_int :: "nat \<Rightarrow> pyfloat \<Rightarrow> pyfloat" where
  "float_add_int i x = round_double (i * snd x + fst x) (snd x)"

section \<open>\<open>repr\<close>\<close>

text \<open>The decimal exponent: \<open>10 ^ k \<le> n / d < 10 ^ (k + 1)\<close>.\<close>

fun count_tenfold :: "nat \<Rightarrow> nat \<Rightarrow> nat \<Rightarrow> nat" where
  "count_tenfold 0 n d = 0"
| "count_tenfold (Suc fuel) n d = (if d \<le> n then 0 else Suc (count_tenfold fuel (10 * n) d))"

definition decimal_exponent :: "nat \<Rightarrow> nat \<Rightarrow> int" where
  "decimal_exponent n d =
    (if d \<le> n then int (length (dec_digits (n div d))) - 1 else - int (count_tenfold 400 n d))"

text \<open>\<open>c * 10 ^ e\<close> as a fraction.\<close>

definition scaled :: "nat \<Rightarrow> int \<Rightarrow> nat \<times> nat" where
  "scaled c e = (if 0 \<le> e then (c * 10 ^ nat e, 1) else (c, 10 ^ nat (- e)))"

definition rounds_to :: "pyfloat \<Rightarrow> nat \<Rightarrow> int \<Rightarrow> bool" where
  "rounds_to x c e \<longleftrightarrow> (let (n, d) = scaled c e in same_float (round_double n d) x)"

text \<open>
  With \<open>p\<close> significant digits: the nearer one of the two neighbours of the number, of those that
  round to it.
\<close>

definition digits_at :: "pyfloat \<Rightarrow> int \<Rightarrow> nat \<Rightarrow> (nat \<times> int) option" where
  "digits_at x k p =
    (let e = k - int p + 1;
         n = (if 0 \<le> e then fst x else fst x * 10 ^ nat (- e));
         d = (if 0 \<le> e then snd x * 10 ^ nat e else snd x);
         c = n div d
     in if rounds_to x c e \<and> rounds_to x (c + 1) e then Some (round_half_even n d, e)
        else if rounds_to x c e then Some (c, e)
        else if rounds_to x (c + 1) e then Some (c + 1, e)
        else None)"

fun shortest_digits :: "pyfloat \<Rightarrow> int \<Rightarrow> nat list \<Rightarrow> nat \<times> int" where
  "shortest_digits x k [] = (0, 0)"
| "shortest_digits x k (p # ps) = (case digits_at x k p of Some ce \<Rightarrow> ce | None \<Rightarrow> shortest_digits x k ps)"

definition strip_zeros :: "str \<Rightarrow> str" where
  "strip_zeros ds = rev (dropWhile (\<lambda>c. c = 48) (rev ds))"

definition format_digits :: "str \<Rightarrow> int \<Rightarrow> str" where
  "format_digits ds point =
    (if point \<le> - 4 \<or> 16 < point then
       take 1 ds @ (if length ds = 1 then [] else 46 # drop 1 ds) @ 101 #
         (if point \<le> 0 then 45 else 43) # zpad 2 (nat \<bar>point - 1\<bar>)
     else if point \<le> 0 then 48 # 46 # replicate (nat (- point)) 48 @ ds
     else if length ds \<le> nat point then ds @ replicate (nat point - length ds) 48 @ [46, 48]
     else take (nat point) ds @ 46 # drop (nat point) ds)"

definition float_repr :: "pyfloat \<Rightarrow> str" where
  "float_repr x =
    (if fst x = 0 then lit ''0.0''
     else let (c, e) = shortest_digits x (decimal_exponent (fst x) (snd x)) [1..<18];
              ds = dec_digits c
          in format_digits (strip_zeros ds) (int (length ds) + e))"

section \<open>Integers as floats\<close>

text \<open>The conversion raises from half a unit above the largest float on.\<close>

definition int_overflows :: "int \<Rightarrow> bool" where
  "int_overflows i \<longleftrightarrow> 2 ^ 1024 - 2 ^ 970 \<le> \<bar>i\<bar>"

section \<open>Differences of datetimes\<close>

definition days_before_year :: "nat \<Rightarrow> nat" where
  "days_before_year y = (let p = y - 1 in p * 365 + p div 4 - p div 100 + p div 400)"

definition day_number :: "datetime \<Rightarrow> nat" where
  "day_number d = days_before_year (dt_year d) + sum_list (map (days_in_month (dt_year d)) [1..<dt_month d]) + dt_day d"

definition dt_micros :: "datetime \<Rightarrow> nat" where
  "dt_micros d = (((day_number d * 24 + dt_hour d) * 60 + dt_minute d) * 60 + dt_second d) * 1000000 + dt_micro d"

end
