(* ===== verification/PosixPath.thy ===== *)
theory PosixPath
  imports PyText
begin

text \<open>
  \<open>pathlib.PurePosixPath\<close> as the source uses it: parsing drops empty and \<open>.\<close> components,
  keeps \<open>..\<close>, and keeps one or exactly two leading slashes as the root. The slash is 47, the
  dot 46.
\<close>

text \<open>\<open>str.split('/')\<close> and \<open>'/'.join\<close>\<close>

fun split_slash :: "str \<Rightarrow> str list" where
  "split_slash [] = [[]]"
| "split_slash (c # s) =
    (if c = 47 then [] # split_slash s
     else (case split_slash s of p # ps \<Rightarrow> (c # p) # ps | [] \<Rightarrow> [[c]]))"

fun join_slash :: "str list \<Rightarrow> str" where
  "join_slash [] = []"
| "join_slash [p] = p"
| "join_slash (p # q # ps) = p @ 47 # join_slash (q # ps)"

record posix_path =
  path_root :: str
  path_tail :: "str list"

definition posix_root :: "str \<Rightarrow> str" where
  "posix_root s =
    (if take 1 s \<noteq> [47] then []
     else if take 2 s = [47, 47] \<and> take 3 s \<noteq> [47, 47, 47] then [47, 47]
     else [47])"

definition pure_posix_path :: "str \<Rightarrow> posix_path" where
  "pure_posix_path s = \<lparr>path_root = posix_root s,
     path_tail = filter (\<lambda>p. p \<noteq> [] \<and> p \<noteq> [46]) (split_slash (dropWhile (\<lambda>c. c = 47) s))\<rparr>"

definition is_absolute :: "posix_path \<Rightarrow> bool" where
  "is_absolute p \<longleftrightarrow> path_root p \<noteq> []"

definition as_posix :: "posix_path \<Rightarrow> str" where
  "as_posix p = (if path_root p = [] \<and> path_tail p = [] then [46] else path_root p @ join_slash (path_tail p))"

definition path_parts :: "posix_path \<Rightarrow> str list" where
  "path_parts p = (if path_root p = [] then path_tail p else path_root p # path_tail p)"

section \<open>Normalized relative paths\<close>

lemma split_slash_ne [simp]: "split_slash s \<noteq> []"
  by (induction s) (auto split: list.splits)

lemma join_split [simp]: "join_slash (split_slash s) = s"
proof (induction s)
  case Nil
  then show ?case by simp
next
  case (Cons c s)
  obtain p ps where ps: "split_slash s = p # ps" by (cases "split_slash s") auto
  with Cons show ?case by (cases ps) auto
qed

lemma split_slash_no_slash: "p \<in> set (split_slash s) \<Longrightarrow> 47 \<notin> set p"
proof (induction s arbitrary: p)
  case (Cons c s)
  then show ?case by (auto split: if_splits list.splits)
qed simp

lemma length_join_slash: "ps \<noteq> [] \<Longrightarrow> length (join_slash ps) + 1 = sum_list (map (\<lambda>p. length p + 1) ps)"
  by (induction ps rule: join_slash.induct) auto

lemma sum_filter_less:
  "p \<in> set ps \<Longrightarrow> \<not> Q p \<Longrightarrow> sum_list (map (\<lambda>p. length p + 1) (filter Q ps)) < sum_list (map (\<lambda>p. length p + 1) ps)"
proof (induction ps)
  case (Cons a ps)
  have "sum_list (map (\<lambda>p. length p + 1) (filter Q ps)) \<le> sum_list (map (\<lambda>p. length p + 1) ps)"
    by (induction ps) auto
  with Cons show ?case by auto
qed simp

lemma join_filter_same:
  assumes "filter Q ps \<noteq> []" and "join_slash (filter Q ps) = join_slash ps"
  shows "filter Q ps = ps"
proof -
  have "ps \<noteq> []" using assms(1) by auto
  then have "sum_list (map (\<lambda>p. length p + 1) (filter Q ps)) = sum_list (map (\<lambda>p. length p + 1) ps)"
    using length_join_slash [OF assms(1)] length_join_slash [of ps] assms(2) by simp
  then have "\<forall>p \<in> set ps. Q p" using sum_filter_less by (metis nat_less_le)
  then show ?thesis by (simp add: filter_id_conv)
qed

text \<open>A relative path is its own normal form exactly when no component is empty or a dot.\<close>

lemma posix_normal_iff:
  assumes "s \<noteq> []" and "s \<noteq> [46]"
  shows "\<not> is_absolute (pure_posix_path s) \<and> as_posix (pure_posix_path s) = s \<longleftrightarrow>
    (\<forall>p \<in> set (split_slash s). p \<noteq> [] \<and> p \<noteq> [46])"
proof (cases "take 1 s = [47]")
  case True
  then obtain r where "s = 47 # r" by (cases s) auto
  then show ?thesis
    by (auto simp: is_absolute_def pure_posix_path_def posix_root_def)
next
  case False
  let ?Q = "\<lambda>p. p \<noteq> [] \<and> p \<noteq> [46 :: nat]"
  have d: "dropWhile (\<lambda>c. c = 47) s = s"
    using False assms(1) by (cases s) auto
  have root: "path_root (pure_posix_path s) = []" "path_tail (pure_posix_path s) = filter ?Q (split_slash s)"
    using False by (simp_all add: pure_posix_path_def posix_root_def d)
  show ?thesis
  proof
    assume "\<not> is_absolute (pure_posix_path s) \<and> as_posix (pure_posix_path s) = s"
    then have "as_posix (pure_posix_path s) = s" by simp
    then have ne: "filter ?Q (split_slash s) \<noteq> []" and "join_slash (filter ?Q (split_slash s)) = s"
      using root assms(2) by (auto simp: as_posix_def split: if_splits)
    then have "filter ?Q (split_slash s) = split_slash s"
      by (intro join_filter_same) simp_all
    then show "\<forall>p \<in> set (split_slash s). ?Q p" by (simp add: filter_id_conv)
  next
    assume "\<forall>p \<in> set (split_slash s). ?Q p"
    then have "filter ?Q (split_slash s) = split_slash s" by (simp add: filter_id_conv)
    with root show "\<not> is_absolute (pure_posix_path s) \<and> as_posix (pure_posix_path s) = s"
      by (simp add: is_absolute_def as_posix_def)
  qed
qed

lemma parts_normal:
  assumes "\<not> is_absolute (pure_posix_path s)" and "as_posix (pure_posix_path s) = s" and "s \<noteq> [46]" and "s \<noteq> []"
  shows "path_parts (pure_posix_path s) = split_slash s"
proof -
  have "\<forall>p \<in> set (split_slash s). p \<noteq> [] \<and> p \<noteq> [46]"
    using posix_normal_iff [OF assms(4,3)] assms(1,2) by blast
  moreover have "dropWhile (\<lambda>c. c = 47) s = s"
    using assms(1,4) by (cases s) (auto simp: is_absolute_def pure_posix_path_def posix_root_def split: if_splits)
  ultimately show ?thesis
    using assms(1) by (simp add: path_parts_def is_absolute_def pure_posix_path_def filter_id_conv)
qed

end
