(* ===== verification/StoreConstruction.thy ===== *)
theory StoreConstruction
  imports StoreReachability PyFloat PosixPath
begin

text \<open>
  The constructor of the store in \<open>adapters/local/sqlite_state_store.py\<close>: its arguments are
  declared as \<open>object\<close>, so they are dynamically typed here and their checks are branches. Of a
  float only its sign matters, which is that of no number for a NaN.
\<close>

datatype store_argument =
    TextArgument str
  | PathArgument posix_path
  | BoolArgument bool
  | IntArgument int
  | FloatArgument (float_below_zero: bool)
  | OtherArgument

definition database_text :: "store_argument \<Rightarrow> str res" where
  "database_text d =
    sum_bind (case d of TextArgument t \<Rightarrow> Inr t | PathArgument p \<Rightarrow> Inr (as_posix p) | _ \<Rightarrow> Inl TypeError) (\<lambda>t.
    if t = [] then Inl ValueError else if t = lit '':memory:'' then Inl ValueError else Inr t)"

text \<open>The check of the sign, and the conversion to a float.\<close>

definition check_timeout :: "store_argument \<Rightarrow> unit res" where
  "check_timeout t = (case t of
      IntArgument i \<Rightarrow> if i < 0 then Inl ValueError else if int_overflows i then Inl OverflowError else Inr ()
    | FloatArgument negative \<Rightarrow> if negative then Inl ValueError else Inr ()
    | _ \<Rightarrow> Inl TypeError)"

definition new_SQLiteStateStore :: "store_argument \<Rightarrow> store_argument \<Rightarrow> str sql" where
  "new_SQLiteStateStore database timeout =
    sql_bind (sql_lift (database_text database)) (\<lambda>t.
    sql_bind (sql_lift (check_timeout timeout)) (\<lambda>_.
    sql_bind initialize_schema (\<lambda>_. sql_return t)))"

text \<open>
  Refused arguments leave the database file alone, a database in memory among them; accepted ones
  leave one that the store's life can start from.
\<close>

lemma refused_arguments:
  assumes "database_text d = Inl e \<or> check_timeout t = Inl e \<and> \<not> isl (database_text d)"
  shows "perform (new_SQLiteStateStore d t) evs db = (Inl e, db)"
  using assms
  by (cases "database_text d") (auto simp: perform_def open_session_def new_SQLiteStateStore_def sql_bind_def sql_lift_def)

lemma memory_refused: "database_text (TextArgument (lit '':memory:'')) = Inl ValueError"
  by (simp add: database_text_def)

lemma constructed_reachable:
  assumes "perform (new_SQLiteStateStore d t) [] empty_database = (Inr name, db)"
  shows "store_reachable py FS db"
proof -
  have "perform initialize_schema [] empty_database = (Inr (), db)"
    using assms
    by (auto simp: perform_def new_SQLiteStateStore_def sql_bind_def sql_lift_def sql_return_def split: sum.splits prod.splits)
  then show ?thesis by (rule store_reachable.reach_created)
qed

end
