(* ===== verification/Workspace.thy ===== *)
theory Workspace
  imports RunIdentity
begin

text \<open>
  \<open>domain/workspace.py\<close>: the capability handle of a workspace, the identity of a candidate
  snapshot and their bindings to a run and its baseline.
\<close>

definition WORKSPACE_ID_PATTERN :: "str \<Rightarrow> bool" where
  "WORKSPACE_ID_PATTERN = match_head_tail is_alnum is_handle_char 127"

definition CANDIDATE_SHA_PATTERN :: "str \<Rightarrow> bool" where
  "CANDIDATE_SHA_PATTERN s \<longleftrightarrow> match_hex 40 s \<or> match_hex 64 s"

text \<open>\<open>_require_pattern\<close> of this module and of \<open>command.py\<close>: no test for blanks before the match.\<close>

definition require_match :: "(str \<Rightarrow> bool) \<Rightarrow> str \<Rightarrow> str res" where
  "require_match pattern value = (if pattern value then Inr value else Inl ValueError)"

datatype workspace_id = WorkspaceId (workspace_id_value: str)
datatype candidate_sha = CandidateSha (candidate_sha_value: str)

definition new_WorkspaceId :: "str \<Rightarrow> workspace_id res" where
  "new_WorkspaceId v = sum_bind (require_match WORKSPACE_ID_PATTERN v) (\<lambda>t. Inr (WorkspaceId t))"

definition new_CandidateSha :: "str \<Rightarrow> candidate_sha res" where
  "new_CandidateSha v = sum_bind (require_match CANDIDATE_SHA_PATTERN v) (\<lambda>t. Inr (CandidateSha t))"

record workspace_identity =
  wi_workspace_id :: workspace_id
  wi_run_id :: run_id
  wi_baseline_sha :: baseline_sha

record candidate_identity =
  ca_workspace :: workspace_identity
  ca_candidate_sha :: candidate_sha

definition bind_candidate :: "workspace_identity \<Rightarrow> candidate_sha \<Rightarrow> candidate_identity res" where
  "bind_candidate w c = Inr \<lparr>ca_workspace = w, ca_candidate_sha = c\<rparr>"

lemma require_match_Inr [simp]: "require_match p v = Inr t \<longleftrightarrow> t = v \<and> p v"
  by (auto simp: require_match_def)

lemma new_WorkspaceId_Inr: "new_WorkspaceId v = Inr w \<longleftrightarrow> w = WorkspaceId v \<and> WORKSPACE_ID_PATTERN v"
  by (auto simp: new_WorkspaceId_def)

lemma new_CandidateSha_Inr: "new_CandidateSha v = Inr c \<longleftrightarrow> c = CandidateSha v \<and> CANDIDATE_SHA_PATTERN v"
  by (auto simp: new_CandidateSha_def)

end
