(* ===== verification/Command.thy ===== *)
theory Command
  imports Workspace PosixPath
begin

text \<open>
  \<open>domain/command.py\<close>: the values of a controlled command. Arguments, names and values are
  texts without NUL, the working directory is \<open>.\<close> or a normalized relative path, and the
  environment is sorted by name without repetitions.
\<close>

section \<open>Patterns and wrappers\<close>

definition EXECUTABLE_ID_PATTERN :: "str \<Rightarrow> bool" where
  "EXECUTABLE_ID_PATTERN = match_head_tail is_lower is_component_char 63"

definition is_action_char :: "nat \<Rightarrow> bool" where
  "is_action_char c \<longleftrightarrow> is_alnum c \<or> c = 46 \<or> c = 95 \<or> c = 58 \<or> c = 45"

definition ACTION_PATTERN :: "str \<Rightarrow> bool" where
  "ACTION_PATTERN = match_head_tail is_alnum is_action_char 127"

definition is_name_head :: "nat \<Rightarrow> bool" where
  "is_name_head c \<longleftrightarrow> is_lower c \<or> is_upper c \<or> c = 95"

definition ENVIRONMENT_NAME_PATTERN :: "str \<Rightarrow> bool" where
  "ENVIRONMENT_NAME_PATTERN s \<longleftrightarrow> (case s of [] \<Rightarrow> False | c # cs \<Rightarrow>
     is_name_head c \<and> list_all (\<lambda>c. is_name_head c \<or> is_digit c) cs)"

datatype executable_id = ExecutableId (executable_id_value: str)
datatype command_action = CommandAction (action_value: str)
datatype working_directory = WorkingDirectory (working_directory_value: str)

definition new_ExecutableId :: "str \<Rightarrow> executable_id res" where
  "new_ExecutableId v = sum_bind (require_match EXECUTABLE_ID_PATTERN v) (\<lambda>t. Inr (ExecutableId t))"

definition new_CommandAction :: "str \<Rightarrow> command_action res" where
  "new_CommandAction v = sum_bind (require_match ACTION_PATTERN v) (\<lambda>t. Inr (CommandAction t))"

text \<open>NUL is 0 and the backslash 92.\<close>

definition new_WorkingDirectory :: "str \<Rightarrow> working_directory res" where
  "new_WorkingDirectory value =
    (if value = lit ''.'' then Inr (WorkingDirectory value)
     else let path = pure_posix_path value in
       if value = [] \<or> 0 \<in> set value \<or> 92 \<in> set value \<or> is_absolute path \<or> as_posix path \<noteq> value \<or>
          (\<exists>part \<in> set (path_parts path). part \<in> {lit ''.'', lit ''..''})
       then Inl ValueError
       else Inr (WorkingDirectory value))"

record environment_variable =
  env_name :: str
  env_value :: str

definition new_EnvironmentVariable :: "str \<Rightarrow> str \<Rightarrow> environment_variable res" where
  "new_EnvironmentVariable name value =
    sum_bind (require_match ENVIRONMENT_NAME_PATTERN name) (\<lambda>_.
    if 0 \<in> set value then Inl ValueError else Inr \<lparr>env_name = name, env_value = value\<rparr>)"

datatype network_policy = DENY_ALL

fun network_policy_value :: "network_policy \<Rightarrow> str" where
  "network_policy_value DENY_ALL = lit ''deny_all''"

record command_limits =
  timeout_ms :: int
  termination_grace_ms :: int
  stdout_max_bytes :: int
  stderr_max_bytes :: int

definition require_positive_integer :: "int \<Rightarrow> int res" where
  "require_positive_integer v = (if v \<le> 0 then Inl ValueError else Inr v)"

definition new_CommandLimits :: "int \<Rightarrow> int \<Rightarrow> int \<Rightarrow> int \<Rightarrow> command_limits res" where
  "new_CommandLimits t g outb errb =
    sum_bind (require_positive_integer t) (\<lambda>_. sum_bind (require_positive_integer g) (\<lambda>_.
    sum_bind (require_positive_integer outb) (\<lambda>_. sum_bind (require_positive_integer errb) (\<lambda>_.
      Inr \<lparr>timeout_ms = t, termination_grace_ms = g, stdout_max_bytes = outb, stderr_max_bytes = errb\<rparr>))))"

section \<open>Requests and results\<close>

record command_request =
  rq_run_identity :: run_identity
  rq_workspace :: workspace_identity
  rq_action :: command_action
  rq_executable :: executable_id
  rq_arguments :: "str list"
  rq_working_directory :: working_directory
  rq_environment :: "environment_variable list"
  rq_network_policy :: network_policy
  rq_limits :: command_limits

definition new_CommandRequest :: "command_request \<Rightarrow> command_request res" where
  "new_CommandRequest r =
    (if wi_run_id (rq_workspace r) \<noteq> ri_run_id (rq_run_identity r) \<or>
        wi_baseline_sha (rq_workspace r) \<noteq> ri_baseline_sha (rq_run_identity r) then Inl ValueError
     else if \<exists>argument \<in> set (rq_arguments r). 0 \<in> set argument then Inl ValueError
     else if \<not> sorted_unique (map env_name (rq_environment r)) then Inl ValueError
     else Inr r)"

datatype execution_termination = EXITED | TIMED_OUT | CANCELLED | OUTPUT_LIMIT

record execution_result =
  er_request :: command_request
  er_termination :: execution_termination
  er_exit_code :: "int option"
  er_stdout :: bytes
  er_stderr :: bytes
  er_started_at :: datetime
  er_finished_at :: datetime

definition new_ExecutionResult :: "execution_result \<Rightarrow> execution_result res" where
  "new_ExecutionResult r =
    (if er_termination r = EXITED \<and> er_exit_code r = None then Inl TypeError
     else if er_termination r \<noteq> EXITED \<and> er_exit_code r \<noteq> None then Inl ValueError
     else if int (length (er_stdout r)) > stdout_max_bytes (rq_limits (er_request r)) then Inl ValueError
     else if int (length (er_stderr r)) > stderr_max_bytes (rq_limits (er_request r)) then Inl ValueError
     else if dt_tz (er_started_at r) \<noteq> UTC \<or> dt_tz (er_finished_at r) \<noteq> UTC then Inl ValueError
     else if dt_less (er_finished_at r) (er_started_at r) then Inl ValueError
     else Inr r)"

section \<open>Well-formed values\<close>

definition wf_working_directory :: "working_directory \<Rightarrow> bool" where
  "wf_working_directory d \<longleftrightarrow> (let v = working_directory_value d in
     v = [46] \<or> 0 \<notin> set v \<and> 92 \<notin> set v \<and> (\<forall>p \<in> set (split_slash v). p \<noteq> [] \<and> p \<noteq> [46] \<and> p \<noteq> [46, 46]))"

definition wf_limits :: "command_limits \<Rightarrow> bool" where
  "wf_limits l \<longleftrightarrow> 0 < timeout_ms l \<and> 0 < termination_grace_ms l \<and> 0 < stdout_max_bytes l \<and> 0 < stderr_max_bytes l"

lemma new_CommandLimits_Inr:
  "new_CommandLimits t g outb errb = Inr l \<longleftrightarrow> wf_limits l \<and>
     l = \<lparr>timeout_ms = t, termination_grace_ms = g, stdout_max_bytes = outb, stderr_max_bytes = errb\<rparr>"
proof (cases "0 < t \<and> 0 < g \<and> 0 < outb \<and> 0 < errb")
  case True
  then show ?thesis by (auto simp: new_CommandLimits_def require_positive_integer_def wf_limits_def)
next
  case False
  then have "\<nexists>l. new_CommandLimits t g outb errb = Inr l"
    by (simp add: new_CommandLimits_def require_positive_integer_def not_less) blast
  moreover have "\<not> wf_limits \<lparr>timeout_ms = t, termination_grace_ms = g, stdout_max_bytes = outb, stderr_max_bytes = errb\<rparr>"
    using False by (simp add: wf_limits_def)
  ultimately show ?thesis by blast
qed

text \<open>
  The directories that are accepted: \<open>.\<close>, or components separated by single slashes that are
  not empty and neither of the dot names, without NUL or backslash.
\<close>

lemma new_WorkingDirectory_Inr:
  "new_WorkingDirectory v = Inr d \<longleftrightarrow> d = WorkingDirectory v \<and>
     (v = [46] \<or> 0 \<notin> set v \<and> 92 \<notin> set v \<and>
        (\<forall>p \<in> set (split_slash v). p \<noteq> [] \<and> p \<noteq> [46] \<and> p \<noteq> [46, 46]))"
proof (cases "v = [46] \<or> v = []")
  case True
  then show ?thesis by (elim disjE) (simp_all add: new_WorkingDirectory_def Let_def eq_commute)
next
  case False
  then have ne: "v \<noteq> []" "v \<noteq> [46]" by simp_all
  let ?n = "\<not> is_absolute (pure_posix_path v) \<and> as_posix (pure_posix_path v) = v"
  have new: "new_WorkingDirectory v = Inr d \<longleftrightarrow> d = WorkingDirectory v \<and>
      0 \<notin> set v \<and> 92 \<notin> set v \<and> ?n \<and> (\<forall>p \<in> set (path_parts (pure_posix_path v)). p \<noteq> [46] \<and> p \<noteq> [46, 46])"
    using ne by (simp add: new_WorkingDirectory_def Let_def eq_commute)
  have "?n \<Longrightarrow> path_parts (pure_posix_path v) = split_slash v"
    using parts_normal ne by blast
  with new posix_normal_iff [OF ne] ne show ?thesis by metis
qed

lemma wf_working_directory_new:
  "wf_working_directory d \<longleftrightarrow> new_WorkingDirectory (working_directory_value d) = Inr d"
  by (cases d) (simp add: wf_working_directory_def new_WorkingDirectory_Inr)

text \<open>A result, when its constructor accepts it, is bounded by the ceilings of its request.\<close>

lemma new_ExecutionResult_Inr:
  "new_ExecutionResult r = Inr r' \<longleftrightarrow> r' = r \<and>
     (er_termination r = EXITED \<longleftrightarrow> er_exit_code r \<noteq> None) \<and>
     int (length (er_stdout r)) \<le> stdout_max_bytes (rq_limits (er_request r)) \<and>
     int (length (er_stderr r)) \<le> stderr_max_bytes (rq_limits (er_request r)) \<and>
     dt_tz (er_started_at r) = UTC \<and> dt_tz (er_finished_at r) = UTC \<and>
     dt_le (er_started_at r) (er_finished_at r)"
  by (auto simp: new_ExecutionResult_def)

lemma new_CommandRequest_Inr:
  "new_CommandRequest r = Inr r' \<longleftrightarrow> r' = r \<and>
     wi_run_id (rq_workspace r) = ri_run_id (rq_run_identity r) \<and>
     wi_baseline_sha (rq_workspace r) = ri_baseline_sha (rq_run_identity r) \<and>
     (\<forall>a \<in> set (rq_arguments r). 0 \<notin> set a) \<and>
     sorted_wrt (<) (map env_name (rq_environment r))"
  by (auto simp: new_CommandRequest_def strict_sorted_iff)

end
