(* ===== verification/CommandPolicy.thy ===== *)
theory CommandPolicy
  imports Command "HOL-Library.Product_Lexorder"
begin

text \<open>
  \<open>domain/command_policy.py\<close>: the trusted rules of a run and the authorization of a request by
  the first rule that covers it. The class \<open>Actions\<close> belongs to the schemas package; the two
  attributes the program reads are its record here.
\<close>

section \<open>Rules and policies\<close>

record command_rule =
  ru_action :: command_action
  ru_executable :: executable_id
  ru_arguments :: "str list"
  ru_working_directory :: working_directory
  ru_environment_names :: "str list"
  ru_network_policy :: network_policy
  ru_max_limits :: command_limits

fun check_environment_names :: "str list \<Rightarrow> unit res" where
  "check_environment_names [] = Inr ()"
| "check_environment_names (n # ns) =
    sum_bind (new_EnvironmentVariable n []) (\<lambda>_. check_environment_names ns)"

definition new_CommandRule :: "command_rule \<Rightarrow> command_rule res" where
  "new_CommandRule r =
    (if \<exists>argument \<in> set (ru_arguments r). 0 \<in> set argument then Inl ValueError
     else sum_bind (check_environment_names (ru_environment_names r)) (\<lambda>_.
       if \<not> sorted_unique (ru_environment_names r) then Inl ValueError else Inr r))"

record actions =
  act_allowed :: "str list"
  act_denied :: "str list"

record command_policy =
  po_policy_hash :: policy_hash
  po_actions :: actions
  po_rules :: "command_rule list"

text \<open>The key that orders the rules: tuples compare lexicographically, texts by code point.\<close>

definition rule_key ::
  "command_rule \<Rightarrow> str \<times> str \<times> str list \<times> str \<times> str list \<times> str \<times> int \<times> int \<times> int \<times> int" where
  "rule_key r =
    (action_value (ru_action r), executable_id_value (ru_executable r), ru_arguments r,
     working_directory_value (ru_working_directory r), ru_environment_names r,
     network_policy_value (ru_network_policy r), timeout_ms (ru_max_limits r),
     termination_grace_ms (ru_max_limits r), stdout_max_bytes (ru_max_limits r),
     stderr_max_bytes (ru_max_limits r))"

definition new_CommandPolicy :: "command_policy \<Rightarrow> command_policy res" where
  "new_CommandPolicy p =
    (if \<not> sorted_unique (map rule_key (po_rules p)) then Inl ValueError
     else if \<exists>rule \<in> set (po_rules p). action_value (ru_action rule) \<notin> set (act_allowed (po_actions p)) \<or>
        action_value (ru_action rule) \<in> set (act_denied (po_actions p)) then Inl ValueError
     else Inr p)"

section \<open>Authorization\<close>

definition deny :: "command_authorization_cause \<Rightarrow> 'a res" where
  "deny cause = Inl (CommandAuthorizationError cause)"

text \<open>One narrowing step: keep the candidates the test admits, deny when none is left.\<close>

definition narrow ::
  "command_authorization_cause \<Rightarrow> (command_rule \<Rightarrow> bool) \<Rightarrow> command_rule list \<Rightarrow> command_rule list res" where
  "narrow cause test rules = (case filter test rules of [] \<Rightarrow> deny cause | candidates \<Rightarrow> Inr candidates)"

definition limits_within :: "command_limits \<Rightarrow> command_limits \<Rightarrow> bool" where
  "limits_within requested maximum \<longleftrightarrow>
     timeout_ms requested \<le> timeout_ms maximum \<and>
     termination_grace_ms requested \<le> termination_grace_ms maximum \<and>
     stdout_max_bytes requested \<le> stdout_max_bytes maximum \<and>
     stderr_max_bytes requested \<le> stderr_max_bytes maximum"

fun first_within :: "command_limits \<Rightarrow> command_rule list \<Rightarrow> command_rule res" where
  "first_within requested [] = deny CA_LIMIT_EXCEEDED"
| "first_within requested (rule # rules) =
    (if limits_within requested (ru_max_limits rule) then Inr rule else first_within requested rules)"

definition environment_covered :: "command_request \<Rightarrow> command_rule \<Rightarrow> bool" where
  "environment_covered rq rule \<longleftrightarrow>
     set (map env_name (rq_environment rq)) \<subseteq> set (ru_environment_names rule) \<and>
     ru_network_policy rule = rq_network_policy rq"

definition matching_rule :: "command_request \<Rightarrow> command_policy \<Rightarrow> command_rule res" where
  "matching_rule rq p =
    (if ri_policy_hash (rq_run_identity rq) \<noteq> po_policy_hash p then deny CA_POLICY_HASH_MISMATCH
     else if action_value (rq_action rq) \<notin> set (act_allowed (po_actions p)) \<or>
        action_value (rq_action rq) \<in> set (act_denied (po_actions p)) then deny CA_ACTION_DENIED
     else
       sum_bind (narrow CA_ACTION_DENIED (\<lambda>r. ru_action r = rq_action rq) (po_rules p)) (\<lambda>cs.
       sum_bind (narrow CA_EXECUTABLE_DENIED (\<lambda>r. ru_executable r = rq_executable rq) cs) (\<lambda>cs.
       sum_bind (narrow CA_ARGUMENTS_DENIED (\<lambda>r. ru_arguments r = rq_arguments rq) cs) (\<lambda>cs.
       sum_bind (narrow CA_WORKING_DIRECTORY_DENIED
         (\<lambda>r. ru_working_directory r = rq_working_directory rq) cs) (\<lambda>cs.
       sum_bind (narrow CA_ENVIRONMENT_DENIED (environment_covered rq) cs) (\<lambda>cs.
       first_within (rq_limits rq) cs))))))"

record authorized_command =
  au_request :: command_request
  au_policy :: command_policy
  au_rule :: command_rule

definition new_AuthorizedCommand :: "authorized_command \<Rightarrow> authorized_command res" where
  "new_AuthorizedCommand a =
    sum_bind (matching_rule (au_request a) (au_policy a)) (\<lambda>r.
    if r \<noteq> au_rule a then Inl ValueError else Inr a)"

definition authorize_command :: "command_request \<Rightarrow> command_policy \<Rightarrow> authorized_command res" where
  "authorize_command rq p =
    sum_bind (matching_rule rq p) (\<lambda>r.
    new_AuthorizedCommand \<lparr>au_request = rq, au_policy = p, au_rule = r\<rparr>)"

section \<open>The rule that authorizes\<close>

text \<open>What a rule covers, and the reference reading of a policy: its first covering rule.\<close>

definition permits :: "command_request \<Rightarrow> command_rule \<Rightarrow> bool" where
  "permits rq r \<longleftrightarrow> ru_action r = rq_action rq \<and> ru_executable r = rq_executable rq \<and>
     ru_arguments r = rq_arguments rq \<and> ru_working_directory r = rq_working_directory rq \<and>
     environment_covered rq r \<and> limits_within (rq_limits rq) (ru_max_limits r)"

definition action_open :: "command_request \<Rightarrow> command_policy \<Rightarrow> bool" where
  "action_open rq p \<longleftrightarrow> po_policy_hash p = ri_policy_hash (rq_run_identity rq) \<and>
     action_value (rq_action rq) \<in> set (act_allowed (po_actions p)) \<and>
     action_value (rq_action rq) \<notin> set (act_denied (po_actions p))"

lemma narrow_Inr [simp]: "narrow c t rs = Inr cs \<longleftrightarrow> cs = filter t rs \<and> cs \<noteq> []"
  by (auto simp: narrow_def deny_def split: list.splits)

lemma narrow_Inl [simp]: "narrow c t rs = Inl e \<longleftrightarrow> e = CommandAuthorizationError c \<and> filter t rs = []"
  by (auto simp: narrow_def deny_def split: list.splits)

lemma first_within_Inr:
  "first_within l rs = Inr r \<longleftrightarrow> List.find (\<lambda>r. limits_within l (ru_max_limits r)) rs = Some r"
  by (induction rs) (auto simp: deny_def)

lemma first_within_Inl:
  "first_within l rs = Inl e \<longleftrightarrow> e = CommandAuthorizationError CA_LIMIT_EXCEEDED \<and>
     (\<forall>r \<in> set rs. \<not> limits_within l (ru_max_limits r))"
  by (induction rs) (auto simp: deny_def)

lemma find_filter: "List.find P (filter Q xs) = List.find (\<lambda>x. Q x \<and> P x) xs"
  by (induction xs) auto

lemma find_SomeI: "List.find P xs = Some x \<Longrightarrow> x \<in> set xs \<and> P x"
  by (induction xs) (auto split: if_splits)

lemma matching_rule_Inr:
  "matching_rule rq p = Inr r \<longleftrightarrow> action_open rq p \<and> List.find (permits rq) (po_rules p) = Some r"
proof (cases "action_open rq p")
  case False
  then have "matching_rule rq p \<noteq> Inr r"
    by (auto simp: matching_rule_def action_open_def deny_def)
  with False show ?thesis by simp
next
  case True
  let ?found = "List.find (permits rq) (po_rules p) = Some r"
  have f: "?found \<Longrightarrow> r \<in> set (po_rules p) \<and> permits rq r" by (rule find_SomeI)
  have p: "permits rq = (\<lambda>x. ((((ru_action x = rq_action rq \<and> ru_executable x = rq_executable rq) \<and>
      ru_arguments x = rq_arguments rq) \<and> ru_working_directory x = rq_working_directory rq) \<and>
      environment_covered rq x) \<and> limits_within (rq_limits rq) (ru_max_limits x))"
    by (auto simp: permits_def)
  show ?thesis
    using True f
    by (auto simp: matching_rule_def action_open_def first_within_Inr find_filter filter_empty_conv
        p conj_assoc permits_def)
qed

lemma authorize_command_Inr:
  "authorize_command rq p = Inr a \<longleftrightarrow>
     (\<exists>r. matching_rule rq p = Inr r \<and> a = \<lparr>au_request = rq, au_policy = p, au_rule = r\<rparr>)"
  by (auto simp: authorize_command_def new_AuthorizedCommand_def)

lemma authorize_command_Inl:
  "authorize_command rq p = Inl e \<longleftrightarrow> matching_rule rq p = Inl e"
  by (cases "matching_rule rq p") (auto simp: authorize_command_def new_AuthorizedCommand_def)

lemma new_AuthorizedCommand_Inr:
  "new_AuthorizedCommand a = Inr a' \<longleftrightarrow> a' = a \<and> authorize_command (au_request a) (au_policy a) = Inr a"
  by (cases a) (auto simp: new_AuthorizedCommand_def authorize_command_Inr)

section \<open>Which denial\<close>

text \<open>
  The tests in the order they are made, each with the cause it denies with. A request whose
  action is open is denied with the cause of the first test that empties the candidates: some
  rule still passes all tests before it, and none passes it as well.
\<close>

definition rule_tests :: "command_request \<Rightarrow> (command_authorization_cause \<times> (command_rule \<Rightarrow> bool)) list" where
  "rule_tests rq =
    [(CA_ACTION_DENIED, \<lambda>r. ru_action r = rq_action rq),
     (CA_EXECUTABLE_DENIED, \<lambda>r. ru_executable r = rq_executable rq),
     (CA_ARGUMENTS_DENIED, \<lambda>r. ru_arguments r = rq_arguments rq),
     (CA_WORKING_DIRECTORY_DENIED, \<lambda>r. ru_working_directory r = rq_working_directory rq),
     (CA_ENVIRONMENT_DENIED, environment_covered rq),
     (CA_LIMIT_EXCEEDED, \<lambda>r. limits_within (rq_limits rq) (ru_max_limits r))]"

fun blamed :: "('c \<times> ('r \<Rightarrow> bool)) list \<Rightarrow> 'r list \<Rightarrow> 'c option" where
  "blamed [] rs = None"
| "blamed ((c, t) # ts) rs = (if filter t rs = [] then Some c else blamed ts (filter t rs))"

definition blames :: "('r \<Rightarrow> bool) \<Rightarrow> ('c \<times> ('r \<Rightarrow> bool)) list \<Rightarrow> 'r list \<Rightarrow> 'c \<Rightarrow> bool" where
  "blames passed ts rs c \<longleftrightarrow> (\<exists>before t after. ts = before @ (c, t) # after \<and>
     (\<exists>r \<in> set rs. passed r \<and> (\<forall>ct \<in> set before. snd ct r)) \<and>
     (\<forall>r \<in> set rs. passed r \<and> (\<forall>ct \<in> set before. snd ct r) \<longrightarrow> \<not> t r))"

lemma blames_Nil: "\<not> blames passed [] rs c"
  by (simp add: blames_def)

lemma blames_Cons:
  "blames passed ((d, t) # ts) rs c \<longleftrightarrow>
     d = c \<and> (\<exists>r \<in> set rs. passed r) \<and> (\<forall>r \<in> set rs. passed r \<longrightarrow> \<not> t r) \<or>
     blames (\<lambda>r. passed r \<and> t r) ts rs c"
proof -
  have "(\<exists>before t' after. (d, t) # ts = before @ (c, t') # after \<and> Q before t') \<longleftrightarrow>
      d = c \<and> Q [] t \<or> (\<exists>before t' after. ts = before @ (c, t') # after \<and> Q ((d, t) # before) t')" for Q
    by (simp add: Cons_eq_append_conv) blast
  then show ?thesis by (simp add: blames_def conj_assoc)
qed

lemma blames_reached: "blames passed ts rs c \<Longrightarrow> \<exists>r \<in> set rs. passed r"
  by (auto simp: blames_def)

lemma blamed_iff:
  "filter passed rs \<noteq> [] \<Longrightarrow> blamed ts (filter passed rs) = Some c \<longleftrightarrow> blames passed ts rs c"
proof (induction ts arbitrary: passed)
  case Nil
  then show ?case by (simp add: blames_Nil)
next
  case (Cons ct ts)
  obtain d t where ct: "ct = (d, t)" by fastforce
  let ?both = "\<lambda>r. passed r \<and> t r"
  have f: "filter t (filter passed rs) = filter ?both rs" by simp
  have some: "\<exists>r \<in> set rs. passed r" using Cons.prems by (simp add: filter_empty_conv)
  show ?case
  proof (cases "filter ?both rs = []")
    case True
    then have "\<forall>r \<in> set rs. passed r \<longrightarrow> \<not> t r" by (simp add: filter_empty_conv)
    then show ?thesis using True some ct blames_reached [of ?both ts rs c]
      by (auto simp: blames_Cons f simp del: filter_filter)
  next
    case False
    then have "\<not> (\<forall>r \<in> set rs. passed r \<longrightarrow> \<not> t r)" by (simp add: filter_empty_conv)
    then show ?thesis using False Cons.IH [OF False] ct
      by (auto simp: blames_Cons f simp del: filter_filter)
  qed
qed

lemma matching_rule_blamed:
  assumes "action_open rq p"
  shows "matching_rule rq p = Inl (CommandAuthorizationError c) \<longleftrightarrow> blamed (rule_tests rq) (po_rules p) = Some c"
proof -
  have narrow: "sum_bind (narrow c t rs) f =
      (if filter t rs = [] then Inl (CommandAuthorizationError c) else f (filter t rs))"
    for c t rs and f :: "command_rule list \<Rightarrow> command_rule res"
    by (simp add: narrow_def deny_def split: list.splits)
  have within: "first_within l rs = Inl (CommandAuthorizationError c) \<longleftrightarrow>
      filter (\<lambda>r. limits_within l (ru_max_limits r)) rs = [] \<and> CA_LIMIT_EXCEEDED = c" for l rs
    by (auto simp: first_within_Inl filter_empty_conv)
  have if_eq: "(if b then Inl (CommandAuthorizationError d) else m) = Inl (CommandAuthorizationError c) \<longleftrightarrow>
      (if b then d = c else m = Inl (CommandAuthorizationError c))"
    "(if b then Some d else n) = Some c \<longleftrightarrow> (if b then d = c else n = Some c)"
    for b d n and m :: "command_rule res" by simp_all
  have "matching_rule rq p =
      sum_bind (narrow CA_ACTION_DENIED (\<lambda>r. ru_action r = rq_action rq) (po_rules p)) (\<lambda>cs.
      sum_bind (narrow CA_EXECUTABLE_DENIED (\<lambda>r. ru_executable r = rq_executable rq) cs) (\<lambda>cs.
      sum_bind (narrow CA_ARGUMENTS_DENIED (\<lambda>r. ru_arguments r = rq_arguments rq) cs) (\<lambda>cs.
      sum_bind (narrow CA_WORKING_DIRECTORY_DENIED
         (\<lambda>r. ru_working_directory r = rq_working_directory rq) cs) (\<lambda>cs.
      sum_bind (narrow CA_ENVIRONMENT_DENIED (environment_covered rq) cs) (\<lambda>cs.
      first_within (rq_limits rq) cs)))))"
    using assms by (simp add: matching_rule_def action_open_def)
  then show ?thesis
    by (simp only: narrow within rule_tests_def blamed.simps if_eq option.distinct if_False) simp
qed

lemma matching_rule_Inl:
  "matching_rule rq p = Inl e \<Longrightarrow> \<exists>c. e = CommandAuthorizationError c"
  by (auto simp: matching_rule_def deny_def sum_bind_eq_Inl first_within_Inl split: if_splits)

section \<open>Canonical policies\<close>

lemma new_CommandPolicy_Inr:
  "new_CommandPolicy p = Inr p' \<longleftrightarrow> p' = p \<and> sorted_wrt (<) (map rule_key (po_rules p)) \<and>
     (\<forall>r \<in> set (po_rules p). action_value (ru_action r) \<in> set (act_allowed (po_actions p)) \<and>
        action_value (ru_action r) \<notin> set (act_denied (po_actions p)))"
  by (auto simp: new_CommandPolicy_def strict_sorted_iff)

lemma rule_key_inject: "rule_key r = rule_key r' \<longleftrightarrow> r = r'"
proof
  have np: "x = y" for x y :: network_policy by (cases x; cases y) simp
  assume "rule_key r = rule_key r'"
  then show "r = r'"
    by (cases r; cases r'; cases "ru_max_limits r"; cases "ru_max_limits r'")
      (auto simp: rule_key_def np
        intro: command_action.expand executable_id.expand working_directory.expand)
qed simp

lemma strict_sorted_map_unique:
  fixes f :: "'a \<Rightarrow> 'b::linorder"
  assumes "sorted_wrt (<) (map f xs)" and "sorted_wrt (<) (map f ys)" and "set xs = set ys" and "inj f"
  shows "xs = ys"
proof -
  have "map f xs = map f ys"
    by (rule strict_sorted_equal [OF assms(2,1)]) (simp add: assms(3))
  then show ?thesis using assms(4) inj_map_eq_map by blast
qed

end
