(* ===== verification/DynamicValues.thy ===== *)
theory DynamicValues
  imports CommandPolicy RunState
begin

text \<open>
  The dynamic typing of the domain layer. The fields of a Python dataclass hold any object, so every
  constructor and operation of \<open>domain/\<close> opens with \<open>isinstance\<close> guards; the component
  theories read those guards as the types of their arguments. Here the arguments are objects of any
  class and the guards are branches: \<open>dyn_X\<close> is the constructor or operation \<open>X\<close> on such
  arguments, with its tests in the order of the source. An instance of \<open>StrEnum\<close> is a text, a
  boolean is an integer; \<open>StrEnumMember\<close> is a member of any other enumeration of the program and
  \<open>Foreign\<close> an object that none of the guards admits. The classes of the program have no
  subclasses and an instance is built by its constructor.
\<close>

section \<open>Objects\<close>

datatype pyobj =
    is_NoneObject: NoneObject
  | is_Bool: OBool bool
  | is_Text: OText (the_Text: str)
  | StrEnumMember str
  | Foreign nat
  | is_Int: OInt (the_Int: int)
  | is_Bytes: OBytes (the_Bytes: bytes)
  | is_Datetime: ODatetime (the_Datetime: datetime)
  | is_Tuple: OTuple (the_Tuple: "pyobj list")
  | is_RunId: ORunId (the_RunId: run_id)
  | is_ContractId: OContractId (the_ContractId: contract_id)
  | is_ContractVersion: OContractVersion (the_ContractVersion: contract_version)
  | is_ContractHash: OContractHash (the_ContractHash: contract_hash)
  | is_BaselineSha: OBaselineSha (the_BaselineSha: baseline_sha)
  | is_PolicyHash: OPolicyHash (the_PolicyHash: policy_hash)
  | is_RunIdentity: ORunIdentity (the_RunIdentity: run_identity)
  | is_LifecycleState: OLifecycleState (the_LifecycleState: lifecycle_state)
  | is_LifecycleActor: OLifecycleActor (the_LifecycleActor: lifecycle_actor)
  | is_RunLifecycle: ORunLifecycle (the_RunLifecycle: run_lifecycle)
  | is_LifecycleTransition: OLifecycleTransition (the_LifecycleTransition: lifecycle_transition)
  | is_LifecycleAdvance: OLifecycleAdvance (the_LifecycleAdvance: lifecycle_advance)
  | is_RunCheckpoint: ORunCheckpoint (the_RunCheckpoint: run_checkpoint)
  | is_StateUpdate: OStateUpdate (the_StateUpdate: state_update)
  | is_WorkspaceId: OWorkspaceId (the_WorkspaceId: workspace_id)
  | is_CandidateSha: OCandidateSha (the_CandidateSha: candidate_sha)
  | is_WorkspaceIdentity: OWorkspaceIdentity (the_WorkspaceIdentity: workspace_identity)
  | is_CandidateIdentity: OCandidateIdentity (the_CandidateIdentity: candidate_identity)
  | is_ExecutableId: OExecutableId (the_ExecutableId: executable_id)
  | is_CommandAction: OCommandAction (the_CommandAction: command_action)
  | is_WorkingDirectory: OWorkingDirectory (the_WorkingDirectory: working_directory)
  | is_EnvironmentVariable: OEnvironmentVariable (the_EnvironmentVariable: environment_variable)
  | is_NetworkPolicy: ONetworkPolicy (the_NetworkPolicy: network_policy)
  | is_CommandLimits: OCommandLimits (the_CommandLimits: command_limits)
  | is_CommandRequest: OCommandRequest (the_CommandRequest: command_request)
  | is_ExecutionTermination: OExecutionTermination (the_ExecutionTermination: execution_termination)
  | is_ExecutionResult: OExecutionResult (the_ExecutionResult: execution_result)
  | is_Actions: OActions (the_Actions: actions)
  | is_CommandRule: OCommandRule (the_CommandRule: command_rule)
  | is_CommandPolicy: OCommandPolicy (the_CommandPolicy: command_policy)
  | is_AuthorizedCommand: OAuthorizedCommand (the_AuthorizedCommand: authorized_command)

fun termination_value :: "execution_termination \<Rightarrow> str" where
  "termination_value EXITED = lit ''exited''"
| "termination_value TIMED_OUT = lit ''timed_out''"
| "termination_value CANCELLED = lit ''cancelled''"
| "termination_value OUTPUT_LIMIT = lit ''output_limit''"

text \<open>The text of an instance of \<open>str\<close>.\<close>

definition text_of :: "pyobj \<Rightarrow> str option" where
  "text_of v = (case v of
      OText t \<Rightarrow> Some t
    | StrEnumMember t \<Rightarrow> Some t
    | OLifecycleState s \<Rightarrow> Some (state_value s)
    | ONetworkPolicy p \<Rightarrow> Some (network_policy_value p)
    | OExecutionTermination t \<Rightarrow> Some (termination_value t)
    | _ \<Rightarrow> None)"

section \<open>Guards\<close>

text \<open>\<open>isinstance\<close> is a test; a value that passes is used as an instance of the class.\<close>

definition require_instance :: "(pyobj \<Rightarrow> bool) \<Rightarrow> (pyobj \<Rightarrow> 'a) \<Rightarrow> pyobj \<Rightarrow> 'a res" where
  "require_instance is_expected the_expected value =
    (if is_expected value then Inr (the_expected value) else Inl TypeError)"

definition require_string :: "pyobj \<Rightarrow> str res" where
  "require_string value = (case text_of value of None \<Rightarrow> Inl TypeError | Some t \<Rightarrow> Inr t)"

definition require_tuple :: "pyobj \<Rightarrow> pyobj list res" where
  "require_tuple = require_instance is_Tuple the_Tuple"

text \<open>A boolean is refused where an integer is expected.\<close>

definition dyn_require_positive_integer :: "pyobj \<Rightarrow> int res" where
  "dyn_require_positive_integer value =
    sum_bind (require_instance is_Int the_Int value) require_positive_integer"

definition dyn_require_text :: "pyobj \<Rightarrow> str res" where
  "dyn_require_text value = sum_bind (require_string value) require_text"

definition dyn_require_pattern :: "(str \<Rightarrow> bool) \<Rightarrow> pyobj \<Rightarrow> str res" where
  "dyn_require_pattern pattern value = sum_bind (require_string value) (require_pattern pattern)"

definition dyn_require_match :: "(str \<Rightarrow> bool) \<Rightarrow> pyobj \<Rightarrow> str res" where
  "dyn_require_match pattern value = sum_bind (require_string value) (require_match pattern)"

definition dyn_require_utc :: "pyobj \<Rightarrow> datetime res" where
  "dyn_require_utc value = sum_bind (require_instance is_Datetime the_Datetime value) require_utc"

definition dyn_require_revision :: "pyobj \<Rightarrow> int res" where
  "dyn_require_revision value = sum_bind (require_instance is_Int the_Int value) require_revision"

text \<open>Membership in the canonical final states compares texts; an object of another class is in none.\<close>

definition dyn_require_final_state :: "str list \<Rightarrow> pyobj \<Rightarrow> str res" where
  "dyn_require_final_state FS value = sum_bind (require_string value) (require_final_state FS)"

text \<open>Looping over a tuple with a guard on every element.\<close>

fun each :: "(pyobj \<Rightarrow> 'a res) \<Rightarrow> pyobj list \<Rightarrow> 'a list res" where
  "each guard [] = Inr []"
| "each guard (v # vs) = sum_bind (guard v) (\<lambda>x. sum_bind (each guard vs) (\<lambda>xs. Inr (x # xs)))"

lemma require_instance_iff:
  "require_instance is_Int the_Int v = Inr x0 \<longleftrightarrow> v = OInt x0"
  "require_instance is_Bytes the_Bytes v = Inr x1 \<longleftrightarrow> v = OBytes x1"
  "require_instance is_Datetime the_Datetime v = Inr x2 \<longleftrightarrow> v = ODatetime x2"
  "require_instance is_Tuple the_Tuple v = Inr x3 \<longleftrightarrow> v = OTuple x3"
  "require_instance is_RunId the_RunId v = Inr x4 \<longleftrightarrow> v = ORunId x4"
  "require_instance is_ContractId the_ContractId v = Inr x5 \<longleftrightarrow> v = OContractId x5"
  "require_instance is_ContractVersion the_ContractVersion v = Inr x6 \<longleftrightarrow> v = OContractVersion x6"
  "require_instance is_ContractHash the_ContractHash v = Inr x7 \<longleftrightarrow> v = OContractHash x7"
  "require_instance is_BaselineSha the_BaselineSha v = Inr x8 \<longleftrightarrow> v = OBaselineSha x8"
  "require_instance is_PolicyHash the_PolicyHash v = Inr x9 \<longleftrightarrow> v = OPolicyHash x9"
  "require_instance is_RunIdentity the_RunIdentity v = Inr x10 \<longleftrightarrow> v = ORunIdentity x10"
  "require_instance is_LifecycleState the_LifecycleState v = Inr x11 \<longleftrightarrow> v = OLifecycleState x11"
  "require_instance is_LifecycleActor the_LifecycleActor v = Inr x12 \<longleftrightarrow> v = OLifecycleActor x12"
  "require_instance is_RunLifecycle the_RunLifecycle v = Inr x13 \<longleftrightarrow> v = ORunLifecycle x13"
  "require_instance is_LifecycleTransition the_LifecycleTransition v = Inr x14 \<longleftrightarrow> v = OLifecycleTransition x14"
  "require_instance is_LifecycleAdvance the_LifecycleAdvance v = Inr x15 \<longleftrightarrow> v = OLifecycleAdvance x15"
  "require_instance is_RunCheckpoint the_RunCheckpoint v = Inr x16 \<longleftrightarrow> v = ORunCheckpoint x16"
  "require_instance is_StateUpdate the_StateUpdate v = Inr x17 \<longleftrightarrow> v = OStateUpdate x17"
  "require_instance is_WorkspaceId the_WorkspaceId v = Inr x18 \<longleftrightarrow> v = OWorkspaceId x18"
  "require_instance is_CandidateSha the_CandidateSha v = Inr x19 \<longleftrightarrow> v = OCandidateSha x19"
  "require_instance is_WorkspaceIdentity the_WorkspaceIdentity v = Inr x20 \<longleftrightarrow> v = OWorkspaceIdentity x20"
  "require_instance is_CandidateIdentity the_CandidateIdentity v = Inr x21 \<longleftrightarrow> v = OCandidateIdentity x21"
  "require_instance is_ExecutableId the_ExecutableId v = Inr x22 \<longleftrightarrow> v = OExecutableId x22"
  "require_instance is_CommandAction the_CommandAction v = Inr x23 \<longleftrightarrow> v = OCommandAction x23"
  "require_instance is_WorkingDirectory the_WorkingDirectory v = Inr x24 \<longleftrightarrow> v = OWorkingDirectory x24"
  "require_instance is_EnvironmentVariable the_EnvironmentVariable v = Inr x25 \<longleftrightarrow> v = OEnvironmentVariable x25"
  "require_instance is_NetworkPolicy the_NetworkPolicy v = Inr x26 \<longleftrightarrow> v = ONetworkPolicy x26"
  "require_instance is_CommandLimits the_CommandLimits v = Inr x27 \<longleftrightarrow> v = OCommandLimits x27"
  "require_instance is_CommandRequest the_CommandRequest v = Inr x28 \<longleftrightarrow> v = OCommandRequest x28"
  "require_instance is_ExecutionTermination the_ExecutionTermination v = Inr x29 \<longleftrightarrow> v = OExecutionTermination x29"
  "require_instance is_ExecutionResult the_ExecutionResult v = Inr x30 \<longleftrightarrow> v = OExecutionResult x30"
  "require_instance is_Actions the_Actions v = Inr x31 \<longleftrightarrow> v = OActions x31"
  "require_instance is_CommandRule the_CommandRule v = Inr x32 \<longleftrightarrow> v = OCommandRule x32"
  "require_instance is_CommandPolicy the_CommandPolicy v = Inr x33 \<longleftrightarrow> v = OCommandPolicy x33"
  "require_instance is_AuthorizedCommand the_AuthorizedCommand v = Inr x34 \<longleftrightarrow> v = OAuthorizedCommand x34"
  unfolding require_instance_def by (cases v; simp; blast?)+

lemma require_string_Inr: "require_string v = Inr t \<longleftrightarrow> text_of v = Some t"
  by (auto simp: require_string_def split: option.splits)

section \<open>Wrappers\<close>

definition dyn_RunId :: "pyobj \<Rightarrow> run_id res" where
  "dyn_RunId v = sum_bind (dyn_require_pattern RUN_ID_PATTERN v) (\<lambda>t. Inr (RunId t))"

definition dyn_ContractId :: "pyobj \<Rightarrow> contract_id res" where
  "dyn_ContractId v = sum_bind (dyn_require_text v) (\<lambda>t. Inr (ContractId t))"

definition dyn_ContractVersion :: "pyobj \<Rightarrow> contract_version res" where
  "dyn_ContractVersion v = sum_bind (dyn_require_text v) (\<lambda>t. Inr (ContractVersion t))"

definition dyn_ContractHash :: "pyobj \<Rightarrow> contract_hash res" where
  "dyn_ContractHash v = sum_bind (dyn_require_pattern SHA256_PATTERN v) (\<lambda>t. Inr (ContractHash t))"

definition dyn_BaselineSha :: "pyobj \<Rightarrow> baseline_sha res" where
  "dyn_BaselineSha v = sum_bind (dyn_require_pattern BASELINE_SHA_PATTERN v) (\<lambda>t. Inr (BaselineSha t))"

definition dyn_PolicyHash :: "pyobj \<Rightarrow> policy_hash res" where
  "dyn_PolicyHash v = sum_bind (dyn_require_pattern SHA256_PATTERN v) (\<lambda>t. Inr (PolicyHash t))"

definition dyn_LifecycleActor :: "pyobj \<Rightarrow> lifecycle_actor res" where
  "dyn_LifecycleActor v = sum_bind (require_string v) new_LifecycleActor"

definition dyn_WorkspaceId :: "pyobj \<Rightarrow> workspace_id res" where
  "dyn_WorkspaceId v = sum_bind (dyn_require_match WORKSPACE_ID_PATTERN v) (\<lambda>t. Inr (WorkspaceId t))"

definition dyn_CandidateSha :: "pyobj \<Rightarrow> candidate_sha res" where
  "dyn_CandidateSha v = sum_bind (dyn_require_match CANDIDATE_SHA_PATTERN v) (\<lambda>t. Inr (CandidateSha t))"

definition dyn_ExecutableId :: "pyobj \<Rightarrow> executable_id res" where
  "dyn_ExecutableId v = sum_bind (dyn_require_match EXECUTABLE_ID_PATTERN v) (\<lambda>t. Inr (ExecutableId t))"

definition dyn_CommandAction :: "pyobj \<Rightarrow> command_action res" where
  "dyn_CommandAction v = sum_bind (dyn_require_match ACTION_PATTERN v) (\<lambda>t. Inr (CommandAction t))"

definition dyn_WorkingDirectory :: "pyobj \<Rightarrow> working_directory res" where
  "dyn_WorkingDirectory v = sum_bind (require_string v) new_WorkingDirectory"

section \<open>Identities\<close>

definition dyn_RunIdentity ::
  "pyobj \<Rightarrow> pyobj \<Rightarrow> pyobj \<Rightarrow> pyobj \<Rightarrow> pyobj \<Rightarrow> pyobj \<Rightarrow> pyobj \<Rightarrow> run_identity res" where
  "dyn_RunIdentity rid cid ver chash base pol created =
    sum_bind (require_instance is_RunId the_RunId rid) (\<lambda>rid.
    sum_bind (require_instance is_ContractId the_ContractId cid) (\<lambda>cid.
    sum_bind (require_instance is_ContractVersion the_ContractVersion ver) (\<lambda>ver.
    sum_bind (require_instance is_ContractHash the_ContractHash chash) (\<lambda>chash.
    sum_bind (require_instance is_BaselineSha the_BaselineSha base) (\<lambda>base.
    sum_bind (require_instance is_PolicyHash the_PolicyHash pol) (\<lambda>pol.
    sum_bind (require_instance is_Datetime the_Datetime created) (\<lambda>created.
      new_RunIdentity rid cid ver chash base pol created)))))))"

definition dyn_WorkspaceIdentity :: "pyobj \<Rightarrow> pyobj \<Rightarrow> pyobj \<Rightarrow> workspace_identity res" where
  "dyn_WorkspaceIdentity wid rid base =
    sum_bind (require_instance is_WorkspaceId the_WorkspaceId wid) (\<lambda>wid.
    sum_bind (require_instance is_RunId the_RunId rid) (\<lambda>rid.
    sum_bind (require_instance is_BaselineSha the_BaselineSha base) (\<lambda>base.
      Inr \<lparr>wi_workspace_id = wid, wi_run_id = rid, wi_baseline_sha = base\<rparr>)))"

definition dyn_CandidateIdentity :: "pyobj \<Rightarrow> pyobj \<Rightarrow> candidate_identity res" where
  "dyn_CandidateIdentity w c =
    sum_bind (require_instance is_WorkspaceIdentity the_WorkspaceIdentity w) (\<lambda>w.
    sum_bind (require_instance is_CandidateSha the_CandidateSha c) (\<lambda>c.
      Inr \<lparr>ca_workspace = w, ca_candidate_sha = c\<rparr>))"

definition dyn_bind_candidate :: "pyobj \<Rightarrow> pyobj \<Rightarrow> candidate_identity res" where
  "dyn_bind_candidate w c =
    sum_bind (require_instance is_WorkspaceIdentity the_WorkspaceIdentity w) (\<lambda>w.
    sum_bind (require_instance is_CandidateSha the_CandidateSha c) (\<lambda>c.
      dyn_CandidateIdentity (OWorkspaceIdentity w) (OCandidateSha c)))"

section \<open>Lifecycle and state\<close>

definition dyn_check_final :: "str list \<Rightarrow> lifecycle_state \<Rightarrow> pyobj \<Rightarrow> str option res" where
  "dyn_check_final FS st fin =
    (if st = COMPLETED then
       if fin = NoneObject then Inl (LifecycleError LC_FINAL_STATE_REQUIRED)
       else sum_bind (dyn_require_final_state FS fin) (\<lambda>f. Inr (Some f))
     else if fin \<noteq> NoneObject then Inl (LifecycleError LC_FINAL_STATE_FORBIDDEN)
     else Inr None)"

definition dyn_RunLifecycle ::
  "str list \<Rightarrow> pyobj \<Rightarrow> pyobj \<Rightarrow> pyobj \<Rightarrow> pyobj \<Rightarrow> pyobj \<Rightarrow> run_lifecycle res" where
  "dyn_RunLifecycle FS rid st rvn upd fin =
    sum_bind (require_instance is_RunId the_RunId rid) (\<lambda>rid.
    sum_bind (require_instance is_LifecycleState the_LifecycleState st) (\<lambda>st.
    sum_bind (dyn_require_revision rvn) (\<lambda>rvn.
    sum_bind (dyn_require_utc upd) (\<lambda>upd.
    sum_bind (dyn_check_final FS st fin) (\<lambda>fin.
      Inr \<lparr>lc_run_id = rid, lc_state = st, lc_revision = rvn, lc_updated_at = upd,
           lc_final_state = fin\<rparr>)))))"

definition dyn_LifecycleTransition ::
  "str list \<Rightarrow> pyobj \<Rightarrow> pyobj \<Rightarrow> pyobj \<Rightarrow> pyobj \<Rightarrow> pyobj \<Rightarrow> pyobj \<Rightarrow> pyobj \<Rightarrow> lifecycle_transition res" where
  "dyn_LifecycleTransition FS rid rvn from_state to_state occurred actor fin =
    sum_bind (require_instance is_RunId the_RunId rid) (\<lambda>rid.
    sum_bind (dyn_require_revision rvn) (\<lambda>rvn.
    sum_bind (require_instance is_LifecycleState the_LifecycleState from_state) (\<lambda>from_state.
    sum_bind (require_instance is_LifecycleState the_LifecycleState to_state) (\<lambda>to_state.
    sum_bind (dyn_require_utc occurred) (\<lambda>occurred.
    sum_bind (require_instance is_LifecycleActor the_LifecycleActor actor) (\<lambda>actor.
    sum_bind (dyn_check_final FS to_state fin) (\<lambda>fin.
      Inr \<lparr>ev_run_id = rid, ev_revision = rvn, ev_from_state = from_state, ev_to_state = to_state,
           ev_occurred_at = occurred, ev_actor = actor, ev_final_state = fin\<rparr>)))))))"

definition dyn_LifecycleAdvance :: "pyobj \<Rightarrow> pyobj \<Rightarrow> lifecycle_advance res" where
  "dyn_LifecycleAdvance lc ev =
    sum_bind (require_instance is_RunLifecycle the_RunLifecycle lc) (\<lambda>lc.
    sum_bind (require_instance is_LifecycleTransition the_LifecycleTransition ev) (\<lambda>ev.
      Inr \<lparr>adv_lifecycle = lc, adv_transition = ev\<rparr>))"

definition dyn_start_lifecycle :: "str list \<Rightarrow> pyobj \<Rightarrow> run_lifecycle res" where
  "dyn_start_lifecycle FS identity =
    sum_bind (require_instance is_RunIdentity the_RunIdentity identity) (\<lambda>i.
    dyn_RunLifecycle FS (ORunId (ri_run_id i)) (OLifecycleState CONTRACT_BOUND) (OInt 0)
      (ODatetime (ri_created_at i)) NoneObject)"

definition dyn_advance_lifecycle ::
  "str list \<Rightarrow> pyobj \<Rightarrow> pyobj \<Rightarrow> pyobj \<Rightarrow> pyobj \<Rightarrow> pyobj \<Rightarrow> lifecycle_advance res" where
  "dyn_advance_lifecycle FS lifecycle to_state occurred actor fin =
    sum_bind (require_instance is_RunLifecycle the_RunLifecycle lifecycle) (\<lambda>current.
    sum_bind (require_instance is_LifecycleState the_LifecycleState to_state) (\<lambda>target.
    sum_bind (dyn_require_utc occurred) (\<lambda>instant.
    sum_bind (require_instance is_LifecycleActor the_LifecycleActor actor) (\<lambda>actor.
    if lc_state current = COMPLETED then Inl (LifecycleError LC_TERMINAL_STATE)
    else if target \<notin> ALLOWED_NEXT (lc_state current) then Inl (LifecycleError LC_INVALID_TRANSITION)
    else if dt_less instant (lc_updated_at current) then Inl (LifecycleError LC_TIME_REGRESSION)
    else if target = COMPLETED \<and> fin = NoneObject then Inl (LifecycleError LC_FINAL_STATE_REQUIRED)
    else if target \<noteq> COMPLETED \<and> fin \<noteq> NoneObject then Inl (LifecycleError LC_FINAL_STATE_FORBIDDEN)
    else sum_bind (if fin \<noteq> NoneObject then sum_bind (dyn_require_final_state FS fin) (\<lambda>_. Inr ()) else Inr ()) (\<lambda>_.
    let revision = OInt (lc_revision current + 1) in
    sum_bind (dyn_LifecycleTransition FS (ORunId (lc_run_id current)) revision
        (OLifecycleState (lc_state current)) (OLifecycleState target) (ODatetime instant)
        (OLifecycleActor actor) fin) (\<lambda>transition.
    sum_bind (dyn_RunLifecycle FS (ORunId (lc_run_id current)) (OLifecycleState target) revision
        (ODatetime instant) fin) (\<lambda>updated.
      dyn_LifecycleAdvance (ORunLifecycle updated) (OLifecycleTransition transition))))))))"

definition dyn_RunCheckpoint :: "pyobj \<Rightarrow> pyobj \<Rightarrow> run_checkpoint res" where
  "dyn_RunCheckpoint identity lifecycle =
    sum_bind (require_instance is_RunIdentity the_RunIdentity identity) (\<lambda>i.
    sum_bind (require_instance is_RunLifecycle the_RunLifecycle lifecycle) (\<lambda>lc.
      new_RunCheckpoint i lc))"

definition dyn_StateUpdate :: "pyobj \<Rightarrow> pyobj \<Rightarrow> state_update res" where
  "dyn_StateUpdate expected advance =
    sum_bind (require_instance is_RunCheckpoint the_RunCheckpoint expected) (\<lambda>expected.
    sum_bind (require_instance is_LifecycleAdvance the_LifecycleAdvance advance) (\<lambda>advance.
      new_StateUpdate expected advance))"

definition dyn_create_initial_checkpoint :: "str list \<Rightarrow> pyobj \<Rightarrow> run_checkpoint res" where
  "dyn_create_initial_checkpoint FS identity =
    sum_bind (require_instance is_RunIdentity the_RunIdentity identity) (\<lambda>i.
    sum_bind (dyn_start_lifecycle FS (ORunIdentity i)) (\<lambda>lc.
      dyn_RunCheckpoint (ORunIdentity i) (ORunLifecycle lc)))"

definition dyn_prepare_state_update ::
  "str list \<Rightarrow> pyobj \<Rightarrow> pyobj \<Rightarrow> pyobj \<Rightarrow> pyobj \<Rightarrow> pyobj \<Rightarrow> state_update res" where
  "dyn_prepare_state_update FS checkpoint to_state occurred actor fin =
    sum_bind (require_instance is_RunCheckpoint the_RunCheckpoint checkpoint) (\<lambda>current.
    sum_bind (dyn_advance_lifecycle FS (ORunLifecycle (cp_lifecycle current)) to_state occurred actor fin) (\<lambda>advance.
      dyn_StateUpdate (ORunCheckpoint current) (OLifecycleAdvance advance)))"

section \<open>Commands\<close>

definition dyn_EnvironmentVariable :: "pyobj \<Rightarrow> pyobj \<Rightarrow> environment_variable res" where
  "dyn_EnvironmentVariable name value =
    sum_bind (dyn_require_match ENVIRONMENT_NAME_PATTERN name) (\<lambda>name.
    sum_bind (require_string value) (\<lambda>value.
    if 0 \<in> set value then Inl ValueError else Inr \<lparr>env_name = name, env_value = value\<rparr>))"

definition dyn_CommandLimits :: "pyobj \<Rightarrow> pyobj \<Rightarrow> pyobj \<Rightarrow> pyobj \<Rightarrow> command_limits res" where
  "dyn_CommandLimits t g outb errb =
    sum_bind (dyn_require_positive_integer t) (\<lambda>t.
    sum_bind (dyn_require_positive_integer g) (\<lambda>g.
    sum_bind (dyn_require_positive_integer outb) (\<lambda>outb.
    sum_bind (dyn_require_positive_integer errb) (\<lambda>errb.
      Inr \<lparr>timeout_ms = t, termination_grace_ms = g, stdout_max_bytes = outb, stderr_max_bytes = errb\<rparr>))))"

text \<open>An argument is a text without NUL.\<close>

definition require_argument :: "pyobj \<Rightarrow> str res" where
  "require_argument v = sum_bind (require_string v) (\<lambda>t. if 0 \<in> set t then Inl ValueError else Inr t)"

definition dyn_CommandRequest ::
  "pyobj \<Rightarrow> pyobj \<Rightarrow> pyobj \<Rightarrow> pyobj \<Rightarrow> pyobj \<Rightarrow> pyobj \<Rightarrow> pyobj \<Rightarrow> pyobj \<Rightarrow> pyobj \<Rightarrow> command_request res" where
  "dyn_CommandRequest identity workspace action executable arguments directory environment network limits =
    sum_bind (require_instance is_RunIdentity the_RunIdentity identity) (\<lambda>i.
    sum_bind (require_instance is_WorkspaceIdentity the_WorkspaceIdentity workspace) (\<lambda>w.
    if wi_run_id w \<noteq> ri_run_id i \<or> wi_baseline_sha w \<noteq> ri_baseline_sha i then Inl ValueError else
    sum_bind (require_instance is_CommandAction the_CommandAction action) (\<lambda>action.
    sum_bind (require_instance is_ExecutableId the_ExecutableId executable) (\<lambda>executable.
    sum_bind (require_tuple arguments) (\<lambda>arguments.
    sum_bind (each require_argument arguments) (\<lambda>arguments.
    sum_bind (require_instance is_WorkingDirectory the_WorkingDirectory directory) (\<lambda>directory.
    sum_bind (require_tuple environment) (\<lambda>environment.
    sum_bind (each (require_instance is_EnvironmentVariable the_EnvironmentVariable) environment) (\<lambda>entries.
    if \<not> sorted_unique (map env_name entries) then Inl ValueError else
    sum_bind (require_instance is_NetworkPolicy the_NetworkPolicy network) (\<lambda>network.
    sum_bind (require_instance is_CommandLimits the_CommandLimits limits) (\<lambda>limits.
      Inr \<lparr>rq_run_identity = i, rq_workspace = w, rq_action = action, rq_executable = executable,
           rq_arguments = arguments, rq_working_directory = directory, rq_environment = entries,
           rq_network_policy = network, rq_limits = limits\<rparr>)))))))))))"

definition dyn_ExecutionResult ::
  "pyobj \<Rightarrow> pyobj \<Rightarrow> pyobj \<Rightarrow> pyobj \<Rightarrow> pyobj \<Rightarrow> pyobj \<Rightarrow> pyobj \<Rightarrow> execution_result res" where
  "dyn_ExecutionResult rq termination code out err started finished =
    sum_bind (require_instance is_CommandRequest the_CommandRequest rq) (\<lambda>rq.
    sum_bind (require_instance is_ExecutionTermination the_ExecutionTermination termination) (\<lambda>termination.
    sum_bind (if termination = EXITED then
                sum_bind (require_instance is_Int the_Int code) (\<lambda>code. Inr (Some code))
              else if code \<noteq> NoneObject then Inl ValueError else Inr None) (\<lambda>code.
    sum_bind (require_instance is_Bytes the_Bytes out) (\<lambda>out.
    sum_bind (require_instance is_Bytes the_Bytes err) (\<lambda>err.
    if int (length out) > stdout_max_bytes (rq_limits rq) then Inl ValueError
    else if int (length err) > stderr_max_bytes (rq_limits rq) then Inl ValueError else
    sum_bind (require_instance is_Datetime the_Datetime started) (\<lambda>started.
    sum_bind (require_instance is_Datetime the_Datetime finished) (\<lambda>finished.
    if dt_tz started \<noteq> UTC \<or> dt_tz finished \<noteq> UTC then Inl ValueError
    else if dt_less finished started then Inl ValueError
    else Inr \<lparr>er_request = rq, er_termination = termination, er_exit_code = code, er_stdout = out,
              er_stderr = err, er_started_at = started, er_finished_at = finished\<rparr>)))))))"

section \<open>Command policy\<close>

text \<open>The name of an environment entry a rule admits, checked by constructing the entry.\<close>

definition require_environment_name :: "pyobj \<Rightarrow> str res" where
  "require_environment_name v =
    sum_bind (require_string v) (\<lambda>name.
    sum_bind (dyn_EnvironmentVariable v (OText [])) (\<lambda>_. Inr name))"

definition dyn_CommandRule ::
  "pyobj \<Rightarrow> pyobj \<Rightarrow> pyobj \<Rightarrow> pyobj \<Rightarrow> pyobj \<Rightarrow> pyobj \<Rightarrow> pyobj \<Rightarrow> command_rule res" where
  "dyn_CommandRule action executable arguments directory names network limits =
    sum_bind (require_instance is_CommandAction the_CommandAction action) (\<lambda>action.
    sum_bind (require_instance is_ExecutableId the_ExecutableId executable) (\<lambda>executable.
    sum_bind (require_tuple arguments) (\<lambda>arguments.
    sum_bind (each require_argument arguments) (\<lambda>arguments.
    sum_bind (require_instance is_WorkingDirectory the_WorkingDirectory directory) (\<lambda>directory.
    sum_bind (require_tuple names) (\<lambda>names.
    sum_bind (each require_environment_name names) (\<lambda>names.
    if \<not> sorted_unique names then Inl ValueError else
    sum_bind (require_instance is_NetworkPolicy the_NetworkPolicy network) (\<lambda>network.
    sum_bind (require_instance is_CommandLimits the_CommandLimits limits) (\<lambda>limits.
      Inr \<lparr>ru_action = action, ru_executable = executable, ru_arguments = arguments,
           ru_working_directory = directory, ru_environment_names = names,
           ru_network_policy = network, ru_max_limits = limits\<rparr>)))))))))"

definition dyn_CommandPolicy :: "pyobj \<Rightarrow> pyobj \<Rightarrow> pyobj \<Rightarrow> command_policy res" where
  "dyn_CommandPolicy phash acts rules =
    sum_bind (require_instance is_PolicyHash the_PolicyHash phash) (\<lambda>phash.
    sum_bind (require_instance is_Actions the_Actions acts) (\<lambda>acts.
    sum_bind (require_tuple rules) (\<lambda>rules.
    sum_bind (each (require_instance is_CommandRule the_CommandRule) rules) (\<lambda>rules.
      new_CommandPolicy \<lparr>po_policy_hash = phash, po_actions = acts, po_rules = rules\<rparr>))))"

definition dyn_AuthorizedCommand :: "pyobj \<Rightarrow> pyobj \<Rightarrow> pyobj \<Rightarrow> authorized_command res" where
  "dyn_AuthorizedCommand rq p r =
    sum_bind (require_instance is_CommandRequest the_CommandRequest rq) (\<lambda>rq.
    sum_bind (require_instance is_CommandPolicy the_CommandPolicy p) (\<lambda>p.
    sum_bind (require_instance is_CommandRule the_CommandRule r) (\<lambda>r.
      new_AuthorizedCommand \<lparr>au_request = rq, au_policy = p, au_rule = r\<rparr>)))"

definition dyn_authorize_command :: "pyobj \<Rightarrow> pyobj \<Rightarrow> authorized_command res" where
  "dyn_authorize_command rq p =
    sum_bind (require_instance is_CommandRequest the_CommandRequest rq) (\<lambda>rq.
    sum_bind (require_instance is_CommandPolicy the_CommandPolicy p) (\<lambda>p.
    sum_bind (matching_rule rq p) (\<lambda>r.
      dyn_AuthorizedCommand (OCommandRequest rq) (OCommandPolicy p) (OCommandRule r))))"

end
