(* ===== verification/TypedCalls.thy ===== *)
theory TypedCalls
  imports DynamicValues
begin

text \<open>
  On objects of the declared types a dynamic call is the typed operation of the component theories,
  in what it returns and in what it raises. \<open>final_object\<close> and \<open>exit_code_object\<close> are the objects of
  the two optional fields.
\<close>

section \<open>Calls on objects of the declared types\<close>

definition final_object :: "str option \<Rightarrow> pyobj" where
  "final_object fin = (case fin of None \<Rightarrow> NoneObject | Some f \<Rightarrow> OText f)"

named_theorems typed_calls \<open>a dynamic call on objects of the declared types is the typed one\<close>

lemma sum_bind_assoc: "sum_bind (sum_bind m f) g = sum_bind m (\<lambda>x. sum_bind (f x) g)"
  by (cases m) simp_all

lemma final_object_simps [typed_calls]:
  "final_object fin = NoneObject \<longleftrightarrow> fin = None" "final_object None = NoneObject" "final_object (Some f) = OText f"
  by (auto simp: final_object_def split: option.splits)

lemma require_string_text [typed_calls]: "require_string (OText t) = Inr t"
  by (simp add: require_string_def text_of_def)

lemma typed_guards [typed_calls]:
  "require_instance is_RunId the_RunId (ORunId a) = Inr a"
  "require_instance is_LifecycleState the_LifecycleState (OLifecycleState b) = Inr b"
  "require_instance is_LifecycleActor the_LifecycleActor (OLifecycleActor c) = Inr c"
  "require_instance is_RunLifecycle the_RunLifecycle (ORunLifecycle d) = Inr d"
  "require_instance is_LifecycleTransition the_LifecycleTransition (OLifecycleTransition e) = Inr e"
  "require_instance is_LifecycleAdvance the_LifecycleAdvance (OLifecycleAdvance f) = Inr f"
  "require_instance is_RunCheckpoint the_RunCheckpoint (ORunCheckpoint g) = Inr g"
  "require_instance is_RunIdentity the_RunIdentity (ORunIdentity h) = Inr h"
  "require_instance is_WorkspaceIdentity the_WorkspaceIdentity (OWorkspaceIdentity i) = Inr i"
  "require_instance is_CommandAction the_CommandAction (OCommandAction j) = Inr j"
  "require_instance is_ExecutableId the_ExecutableId (OExecutableId k) = Inr k"
  "require_instance is_WorkingDirectory the_WorkingDirectory (OWorkingDirectory l) = Inr l"
  "require_instance is_NetworkPolicy the_NetworkPolicy (ONetworkPolicy m) = Inr m"
  "require_instance is_CommandLimits the_CommandLimits (OCommandLimits n) = Inr n"
  "require_instance is_CommandRequest the_CommandRequest (OCommandRequest q) = Inr q"
  "require_instance is_CommandPolicy the_CommandPolicy (OCommandPolicy p) = Inr p"
  "require_instance is_CommandRule the_CommandRule (OCommandRule r) = Inr r"
  "require_tuple (OTuple vs) = Inr vs"
  "dyn_require_revision (OInt t) = require_revision t"
  "dyn_require_utc (ODatetime u) = require_utc u"
  by (simp_all add: require_instance_def require_tuple_def dyn_require_revision_def dyn_require_utc_def)

lemma typed_check_final [typed_calls]:
  "dyn_check_final FS st (final_object fin) = sum_bind (check_final FS st fin) (\<lambda>_. Inr fin)"
  by (cases fin) (auto simp: dyn_check_final_def check_final_def dyn_require_final_state_def
      require_final_state_def typed_calls)

lemma typed_RunLifecycle [typed_calls]:
  "dyn_RunLifecycle FS (ORunId rid) (OLifecycleState st) (OInt rvn) (ODatetime upd) (final_object fin) =
     new_RunLifecycle FS rid st rvn upd fin"
  by (simp add: dyn_RunLifecycle_def new_RunLifecycle_def typed_calls require_revision_def require_utc_def sum_bind_assoc)

lemma typed_LifecycleTransition [typed_calls]:
  "dyn_LifecycleTransition FS (ORunId rid) (OInt rvn) (OLifecycleState s) (OLifecycleState t) (ODatetime d)
     (OLifecycleActor a) (final_object fin) = new_LifecycleTransition FS rid rvn s t d a fin"
  by (simp add: dyn_LifecycleTransition_def new_LifecycleTransition_def typed_calls require_revision_def
      require_utc_def sum_bind_assoc)

lemma typed_advance [typed_calls]:
  "dyn_advance_lifecycle FS (ORunLifecycle lc) (OLifecycleState s) (ODatetime d) (OLifecycleActor a)
     (final_object fin) = advance_lifecycle FS lc s d a fin"
  by (cases fin) (simp_all cong: if_cong add: dyn_advance_lifecycle_def advance_lifecycle_def typed_calls Let_def
      dyn_LifecycleAdvance_def dyn_require_final_state_def typed_LifecycleTransition [where fin = None, unfolded final_object_simps]
      typed_LifecycleTransition [where fin = "Some f" for f, unfolded final_object_simps]
      typed_RunLifecycle [where fin = None, unfolded final_object_simps]
      typed_RunLifecycle [where fin = "Some f" for f, unfolded final_object_simps])

lemma typed_prepare_update [typed_calls]:
  "dyn_prepare_state_update FS (ORunCheckpoint cp) (OLifecycleState s) (ODatetime d) (OLifecycleActor a)
     (final_object fin) = prepare_state_update FS cp s d a fin"
  by (simp add: dyn_prepare_state_update_def prepare_state_update_def dyn_StateUpdate_def typed_calls)

lemma typed_initial [typed_calls]:
  "dyn_create_initial_checkpoint FS (ORunIdentity i) = create_initial_checkpoint FS i"
  by (simp add: dyn_create_initial_checkpoint_def create_initial_checkpoint_def dyn_start_lifecycle_def
      start_lifecycle_def dyn_RunCheckpoint_def typed_calls typed_RunLifecycle [where fin = None, unfolded final_object_simps])

lemma typed_authorize [typed_calls]:
  "dyn_authorize_command (OCommandRequest rq) (OCommandPolicy p) = authorize_command rq p"
  by (simp add: dyn_authorize_command_def authorize_command_def dyn_AuthorizedCommand_def typed_calls)

lemma typed_wrappers [typed_calls]:
  "dyn_RunId (OText t) = new_RunId t"
  "dyn_ContractId (OText t) = new_ContractId t"
  "dyn_ContractVersion (OText t) = new_ContractVersion t"
  "dyn_ContractHash (OText t) = new_ContractHash t"
  "dyn_BaselineSha (OText t) = new_BaselineSha t"
  "dyn_PolicyHash (OText t) = new_PolicyHash t"
  "dyn_LifecycleActor (OText t) = new_LifecycleActor t"
  "dyn_WorkspaceId (OText t) = new_WorkspaceId t"
  "dyn_CandidateSha (OText t) = new_CandidateSha t"
  "dyn_ExecutableId (OText t) = new_ExecutableId t"
  "dyn_CommandAction (OText t) = new_CommandAction t"
  "dyn_WorkingDirectory (OText t) = new_WorkingDirectory t"
  by (simp_all add: dyn_RunId_def dyn_ContractId_def dyn_ContractVersion_def dyn_ContractHash_def dyn_BaselineSha_def
      dyn_PolicyHash_def dyn_LifecycleActor_def dyn_WorkspaceId_def dyn_CandidateSha_def dyn_ExecutableId_def
      dyn_CommandAction_def dyn_WorkingDirectory_def dyn_require_text_def dyn_require_pattern_def dyn_require_match_def
      new_wrapper_defs new_WorkspaceId_def new_CandidateSha_def new_ExecutableId_def new_CommandAction_def typed_calls)

lemma each_arguments [typed_calls]:
  "each require_argument (map OText ts) = (if \<exists>t \<in> set ts. 0 \<in> set t then Inl ValueError else Inr ts)"
  by (induction ts) (simp_all add: require_argument_def typed_calls)

lemma each_entries [typed_calls]:
  "each (require_instance is_EnvironmentVariable the_EnvironmentVariable) (map OEnvironmentVariable es) = Inr es"
  by (induction es) (simp_all add: require_instance_def)

lemma typed_request [typed_calls]:
  "dyn_CommandRequest (ORunIdentity (rq_run_identity r)) (OWorkspaceIdentity (rq_workspace r))
     (OCommandAction (rq_action r)) (OExecutableId (rq_executable r)) (OTuple (map OText (rq_arguments r)))
     (OWorkingDirectory (rq_working_directory r)) (OTuple (map OEnvironmentVariable (rq_environment r)))
     (ONetworkPolicy (rq_network_policy r)) (OCommandLimits (rq_limits r)) = new_CommandRequest r"
  by (auto simp: dyn_CommandRequest_def new_CommandRequest_def typed_calls)

lemma each_texts [typed_calls]: "each require_string (map OText ts) = Inr ts"
  by (induction ts) (simp_all add: typed_calls)

lemma typed_EnvironmentVariable [typed_calls]: "dyn_EnvironmentVariable (OText n) (OText v) = new_EnvironmentVariable n v"
  by (auto simp: dyn_EnvironmentVariable_def new_EnvironmentVariable_def dyn_require_match_def require_match_def typed_calls)

lemma each_names [typed_calls]:
  "each require_environment_name (map OText ns) = sum_bind (check_environment_names ns) (\<lambda>_. Inr ns)"
  by (induction ns) (simp_all add: require_environment_name_def typed_calls sum_bind_assoc)

lemma each_rules [typed_calls]:
  "each (require_instance is_CommandRule the_CommandRule) (map OCommandRule rs) = Inr rs"
  by (induction rs) (simp_all add: require_instance_def)

lemma typed_CommandLimits [typed_calls]:
  "dyn_CommandLimits (OInt t) (OInt g) (OInt outb) (OInt errb) = new_CommandLimits t g outb errb"
  by (simp add: dyn_CommandLimits_def new_CommandLimits_def dyn_require_positive_integer_def
      require_positive_integer_def require_instance_def)

lemma typed_rule [typed_calls]:
  "dyn_CommandRule (OCommandAction (ru_action r)) (OExecutableId (ru_executable r))
     (OTuple (map OText (ru_arguments r))) (OWorkingDirectory (ru_working_directory r))
     (OTuple (map OText (ru_environment_names r))) (ONetworkPolicy (ru_network_policy r))
     (OCommandLimits (ru_max_limits r)) = new_CommandRule r"
  by (cases r) (simp add: dyn_CommandRule_def new_CommandRule_def typed_calls sum_bind_assoc)

lemma typed_policy [typed_calls]:
  "dyn_CommandPolicy (OPolicyHash (po_policy_hash p)) (OActions (po_actions p)) (OTuple (map OCommandRule (po_rules p))) =
     new_CommandPolicy p"
  by (cases p) (simp add: dyn_CommandPolicy_def typed_calls require_instance_def each_rules [unfolded require_instance_def])

lemma typed_AuthorizedCommand [typed_calls]:
  "dyn_AuthorizedCommand (OCommandRequest (au_request a)) (OCommandPolicy (au_policy a)) (OCommandRule (au_rule a)) =
     new_AuthorizedCommand a"
  by (cases a) (simp add: dyn_AuthorizedCommand_def typed_calls)

definition exit_code_object :: "int option \<Rightarrow> pyobj" where
  "exit_code_object c = (case c of None \<Rightarrow> NoneObject | Some i \<Rightarrow> OInt i)"

lemma typed_result [typed_calls]:
  "dyn_ExecutionResult (OCommandRequest (er_request r)) (OExecutionTermination (er_termination r))
     (exit_code_object (er_exit_code r)) (OBytes (er_stdout r)) (OBytes (er_stderr r))
     (ODatetime (er_started_at r)) (ODatetime (er_finished_at r)) = new_ExecutionResult r"
  by (cases "er_exit_code r") (auto simp: dyn_ExecutionResult_def new_ExecutionResult_def exit_code_object_def
      require_instance_def)

lemma typed_RunIdentity [typed_calls]:
  "dyn_RunIdentity (ORunId a) (OContractId b) (OContractVersion c) (OContractHash d) (OBaselineSha e) (OPolicyHash f)
     (ODatetime g) = new_RunIdentity a b c d e f g"
  by (simp add: dyn_RunIdentity_def require_instance_def)

lemma typed_state [typed_calls]:
  "dyn_RunCheckpoint (ORunIdentity i) (ORunLifecycle lc) = new_RunCheckpoint i lc"
  "dyn_StateUpdate (ORunCheckpoint cp) (OLifecycleAdvance adv) = new_StateUpdate cp adv"
  "dyn_LifecycleAdvance (ORunLifecycle lc) (OLifecycleTransition ev) = Inr \<lparr>adv_lifecycle = lc, adv_transition = ev\<rparr>"
  by (simp_all add: dyn_RunCheckpoint_def dyn_StateUpdate_def dyn_LifecycleAdvance_def typed_calls)

lemma typed_workspace [typed_calls]:
  "dyn_WorkspaceIdentity (OWorkspaceId w) (ORunId r) (OBaselineSha b) =
     Inr \<lparr>wi_workspace_id = w, wi_run_id = r, wi_baseline_sha = b\<rparr>"
  "dyn_CandidateIdentity (OWorkspaceIdentity wi) (OCandidateSha c) = Inr \<lparr>ca_workspace = wi, ca_candidate_sha = c\<rparr>"
  "dyn_bind_candidate (OWorkspaceIdentity wi) (OCandidateSha c) = bind_candidate wi c"
  by (simp_all add: dyn_WorkspaceIdentity_def dyn_CandidateIdentity_def dyn_bind_candidate_def bind_candidate_def
      require_instance_def)

end
