(* ===== verification/Examples.thy ===== *)
theory Examples
  imports StoreReachability StateErrors
begin

text \<open>
  Concrete values the witnesses use: the run identity of the repository's store tests, its
  initial checkpoint, an update that prepares its workspace, one that skips to verification,
  and the canonical final states of the schemas package.
\<close>

definition ex_final_states :: "str list" where
  "ex_final_states = map lit [''SUCCEEDED'', ''NO_OP'', ''NO_PROGRESS'', ''VERIFY_FAILED'',
     ''POLICY_BLOCKED'', ''BUDGET_EXCEEDED'', ''ESCALATED'', ''INFRA_FAILED'']"

definition ex_interpreter :: interpreter where
  "ex_interpreter = \<lparr>float_text = (\<lambda>t. None), spare_decoder_levels = 984, spare_encoder_levels = 984\<rparr>"

definition ex_now :: datetime where
  "ex_now = \<lparr>dt_year = 2026, dt_month = 7, dt_day = 20, dt_hour = 18, dt_minute = 0, dt_second = 0,
     dt_micro = 0, dt_tz = UTC\<rparr>"

definition ex_identity :: run_identity where
  "ex_identity = \<lparr>ri_run_id = RunId (lit ''run-policy''), ri_contract_id = ContractId (lit ''quality-loop''),
     ri_contract_version = ContractVersion (lit ''0.1.2''), ri_contract_hash = ContractHash (replicate 64 97),
     ri_baseline_sha = BaselineSha (replicate 40 98), ri_policy_hash = PolicyHash (replicate 64 99),
     ri_created_at = ex_now\<rparr>"

definition ex_actor :: lifecycle_actor where
  "ex_actor = LifecycleActor (lit ''test.sqlite'')"

definition ex_lifecycle :: run_lifecycle where
  "ex_lifecycle = \<lparr>lc_run_id = RunId (lit ''run-policy''), lc_state = CONTRACT_BOUND, lc_revision = 0,
     lc_updated_at = ex_now, lc_final_state = None\<rparr>"

definition ex_checkpoint :: run_checkpoint where
  "ex_checkpoint = \<lparr>cp_identity = ex_identity, cp_lifecycle = ex_lifecycle\<rparr>"

text \<open>An update to a given working state; the policy allows it for \<open>WORKSPACE_PREPARED\<close> only.\<close>

definition ex_update_to :: "lifecycle_state \<Rightarrow> state_update" where
  "ex_update_to st = \<lparr>up_expected = ex_checkpoint,
     up_advance = \<lparr>adv_lifecycle = next_lifecycle ex_lifecycle st ex_now None,
       adv_transition = next_transition ex_lifecycle st ex_now ex_actor None\<rparr>\<rparr>"

lemmas ex_chars = is_alnum_def is_lower_def is_upper_def is_digit_def is_handle_char_def is_component_char_def
  is_lower_hex_def is_space_def

lemma ex_run_id_wf [simp]: "wf_run_id (RunId (lit ''run-policy''))"
  by (simp add: wf_run_id_new new_RunId_Inr RUN_ID_PATTERN_def match_head_tail_def ex_chars)

lemma ex_now_wf [simp]: "valid_datetime ex_now" "dt_tz ex_now = UTC" "wf_instant ex_now"
  by (simp_all add: ex_now_def valid_datetime_def days_in_month_def wf_instant_def)

lemma ex_identity_wf [simp]: "wf_run_identity ex_identity"
proof -
  have "wf_contract_id (ContractId (lit ''quality-loop''))" "wf_contract_version (ContractVersion (lit ''0.1.2''))"
    by (simp_all add: wf_wrapper_defs new_wrapper_defs require_text_def strip_def ex_chars)
  moreover have "wf_contract_hash (ContractHash (replicate 64 97))" "wf_policy_hash (PolicyHash (replicate 64 99))"
    "wf_baseline_sha (BaselineSha (replicate 40 98))"
    by (simp_all add: wf_wrapper_defs new_ContractHash_Inr new_PolicyHash_Inr new_BaselineSha_Inr
        SHA256_PATTERN_def BASELINE_SHA_PATTERN_def match_hex_def ex_chars)
  ultimately show ?thesis
    unfolding wf_run_identity_def by (simp add: ex_identity_def del: lit_simps)
qed

lemma ex_actor_wf [simp]: "wf_actor ex_actor"
  by (simp add: wf_actor_new new_LifecycleActor_def ex_actor_def ACTOR_PATTERN_def match_head_tail_def ex_chars)

lemma ex_final_states_encodable [simp]: "list_all encodable ex_final_states"
  by (simp add: ex_final_states_def del: lit_simps)

lemma ex_lifecycle_started: "start_lifecycle FS ex_identity = Inr ex_lifecycle"
  unfolding wf_start [OF ex_identity_wf] by (simp add: ex_identity_def ex_lifecycle_def del: lit_simps)

lemma ex_lifecycle_wf [simp]: "wf_lifecycle FS ex_lifecycle"
  by (rule start_wf [OF ex_identity_wf ex_lifecycle_started])

lemma ex_checkpoint_created: "create_initial_checkpoint FS ex_identity = Inr ex_checkpoint"
  by (simp add: create_initial_checkpoint_def ex_lifecycle_started new_RunCheckpoint_Inr ex_checkpoint_def)
    (simp add: ex_lifecycle_def ex_identity_def del: lit_simps)

lemma ex_initial: "initial_checkpoint FS ex_checkpoint"
proof -
  have "encodable_identity ex_identity"
    by (simp add: encodable_identity_def ex_identity_def del: lit_simps)
  then show ?thesis
    using ex_checkpoint_created by (simp add: initial_checkpoint_def) (simp add: ex_checkpoint_def)
qed


lemma ex_checkpoint_wf [simp]: "wf_checkpoint FS ex_checkpoint"
  using initial_checkpoint_wf(1) [OF ex_initial] .

lemma ex_prepared:
  "prepare_state_update FS ex_checkpoint WORKSPACE_PREPARED ex_now ex_actor None = Inr (ex_update_to WORKSPACE_PREPARED)"
proof -
  have "may_advance FS ex_lifecycle WORKSPACE_PREPARED ex_now None"
    by (simp add: may_advance_def ex_lifecycle_def wf_final_def)
  then show ?thesis
    by (simp add: prepare_state_update_Inr [OF ex_checkpoint_wf]) (simp add: ex_update_to_def ex_checkpoint_def)
qed

lemma ex_update_prepared: "prepared_update ex_final_states (ex_update_to WORKSPACE_PREPARED)"
  unfolding prepared_update_def
  using ex_prepared ex_checkpoint_wf ex_actor_wf ex_now_wf(1) ex_final_states_encodable by blast

text \<open>The update that skips: accepted by its constructor, refused by the lifecycle policy.\<close>

lemma ex_skipping_wf: "wf_update FS (ex_update_to VERIFYING)"
proof -
  have "wf_lifecycle FS (next_lifecycle ex_lifecycle VERIFYING ex_now None)"
    "wf_transition FS (next_transition ex_lifecycle VERIFYING ex_now ex_actor None)"
    using ex_lifecycle_wf [of FS]
    by (simp_all add: wf_lifecycle_def wf_transition_def next_lifecycle_def next_transition_def wf_final_def)
  moreover have "new_StateUpdate ex_checkpoint (up_advance (ex_update_to VERIFYING)) = Inr (ex_update_to VERIFYING)"
    by (simp add: new_StateUpdate_Inr ex_update_to_def ex_checkpoint_def next_lifecycle_def next_transition_def)
      (simp add: ex_lifecycle_def)
  ultimately show ?thesis
    unfolding wf_update_new by (simp add: ex_update_to_def)
qed

lemma ex_skipping_refused:
  "advance_lifecycle FS ex_lifecycle VERIFYING ex_now ex_actor None = Inl (LifecycleError LC_INVALID_TRANSITION)"
  by (simp add: advance_lifecycle_def ex_lifecycle_def require_utc_def Let_def)

text \<open>A database that holds the run, and the one an append leaves.\<close>

definition ex_created :: database where
  "ex_created = \<lparr>db_version = 1, db_runs = Some [], db_transitions = Some []\<rparr>"

definition ex_stored :: database where
  "ex_stored = snd (perform (store_initialize ex_final_states ex_checkpoint) [] ex_created)"

definition ex_appended :: database where
  "ex_appended = snd (perform (store_compare_and_append ex_interpreter ex_final_states (ex_update_to WORKSPACE_PREPARED)) [] ex_stored)"

lemma ex_created_schema: "perform initialize_schema [] empty_database = (Inr (), ex_created)"
  using created_database by (cases "perform initialize_schema [] empty_database") (auto simp: ex_created_def)

lemma ex_created_sound: "sound_database py FS ex_created"
  using reachable_sound [OF reach_created [OF ex_created_schema]] .

lemma ex_created_held: "held_runs py FS ex_created rid = None"
  by (simp add: held_runs_def run_view_def sql_select_run_def table_def ex_created_def)

lemma ex_stored_facts:
  "perform (store_initialize ex_final_states ex_checkpoint) [] ex_created = (Inr (), ex_stored)"
  "sound_database py ex_final_states ex_stored"
  "held_runs py ex_final_states ex_stored (checkpoint_run ex_checkpoint) = Some (ex_checkpoint, [])"
  using sqlite.initialize_new [where py = py and FS = ex_final_states, OF ex_created_sound ex_initial ex_created_held]
  by (auto simp: ex_stored_def)

lemma ex_appended_facts:
  "perform (store_compare_and_append ex_interpreter ex_final_states (ex_update_to WORKSPACE_PREPARED)) [] ex_stored =
     (Inr \<lparr>cp_identity = ex_identity, cp_lifecycle = next_lifecycle ex_lifecycle WORKSPACE_PREPARED ex_now None\<rparr>, ex_appended)"
  "sound_database ex_interpreter ex_final_states ex_appended"
  "held_runs ex_interpreter ex_final_states ex_appended (checkpoint_run ex_checkpoint) =
     Some (\<lparr>cp_identity = ex_identity, cp_lifecycle = next_lifecycle ex_lifecycle WORKSPACE_PREPARED ex_now None\<rparr>,
       [next_transition ex_lifecycle WORKSPACE_PREPARED ex_now ex_actor None])"
proof -
  let ?u = "ex_update_to WORKSPACE_PREPARED"
  let ?n = "\<lparr>cp_identity = ex_identity, cp_lifecycle = next_lifecycle ex_lifecycle WORKSPACE_PREPARED ex_now None\<rparr>"
  have ex: "up_expected ?u = ex_checkpoint"
    "adv_transition (up_advance ?u) = next_transition ex_lifecycle WORKSPACE_PREPARED ex_now ex_actor None"
    by (simp_all add: ex_update_to_def)
  have nx: "next_checkpoint ?u = Inr ?n"
    using next_checkpoint_wf(1) [OF prepared_update_facts(1) [OF ex_update_prepared]]
    by (simp add: ex_update_to_def ex_checkpoint_def)
  have run: "checkpoint_run ?n = checkpoint_run ex_checkpoint" by (simp add: ex_checkpoint_def)
  have "held_runs ex_interpreter ex_final_states ex_stored (checkpoint_run (up_expected ?u)) = Some (up_expected ?u, [])"
    unfolding ex by (rule ex_stored_facts)
  from sqlite.append_current [OF ex_stored_facts(2) ex_update_prepared this] obtain s' where
    "perform (store_compare_and_append ex_interpreter ex_final_states ?u) [] ex_stored = (Inr ?n, s')"
    "sound_database ex_interpreter ex_final_states s'"
    "held_runs ex_interpreter ex_final_states s' = (held_runs ex_interpreter ex_final_states ex_stored)(checkpoint_run ?n \<mapsto>
       (?n, [] @ [adv_transition (up_advance ?u)]))"
    unfolding nx by auto
  moreover from this(1) have "s' = ex_appended" by (simp add: ex_appended_def)
  ultimately show
    "perform (store_compare_and_append ex_interpreter ex_final_states ?u) [] ex_stored = (Inr ?n, ex_appended)"
    "sound_database ex_interpreter ex_final_states ex_appended"
    "held_runs ex_interpreter ex_final_states ex_appended (checkpoint_run ex_checkpoint) =
       Some (?n, [next_transition ex_lifecycle WORKSPACE_PREPARED ex_now ex_actor None])"
    using ex(2) by (simp_all add: ex_checkpoint_def)
qed

end
