(* ===== verification/CommandExecution.thy ===== *)
theory CommandExecution
  imports CommandPolicy Examples
begin

text \<open>
  \<open>application/command_execution.py\<close>: the use case that authorizes a request before the
  executor port sees it, and concrete requests and policies for the witnesses. The executor is
  an argument: any operation from an authorized command and a state of the world to an outcome
  and the state it leaves.
\<close>

definition execute_authorized_command ::
  "(authorized_command \<Rightarrow> 'w \<Rightarrow> execution_result res \<times> 'w) \<Rightarrow> command_request \<Rightarrow> command_policy \<Rightarrow> 'w \<Rightarrow>
   execution_result res \<times> 'w" where
  "execute_authorized_command execute rq p w =
    (case authorize_command rq p of Inl e \<Rightarrow> (Inl e, w) | Inr authorized \<Rightarrow> execute authorized w)"

lemma execute_authorized_denied:
  "matching_rule rq p = Inl e \<Longrightarrow> execute_authorized_command execute rq p w = (Inl e, w)"
  using authorize_command_Inl [of rq p e] by (simp add: execute_authorized_command_def)

lemma execute_authorized_permitted:
  "matching_rule rq p = Inr r \<Longrightarrow> execute_authorized_command execute rq p w =
     execute \<lparr>au_request = rq, au_policy = p, au_rule = r\<rparr> w"
  using authorize_command_Inr [of rq p "\<lparr>au_request = rq, au_policy = p, au_rule = r\<rparr>"]
  by (simp add: execute_authorized_command_def)

section \<open>Less authority is never more\<close>

text \<open>A request with lower ceilings and fewer environment names passes where the original did.\<close>

lemma limits_within_trans: "limits_within k l \<Longrightarrow> limits_within l m \<Longrightarrow> limits_within k m"
  by (auto simp: limits_within_def)

lemma find_weaken: "List.find P xs \<noteq> None \<Longrightarrow> (\<And>x. P x \<Longrightarrow> Q x) \<Longrightarrow> List.find Q xs \<noteq> None"
  by (induction xs) (auto split: if_splits)

lemma matching_rule_weaken:
  assumes "matching_rule rq p = Inr r" and "limits_within l (rq_limits rq)"
    and "env_name ` set env \<subseteq> env_name ` set (rq_environment rq)"
  shows "\<exists>r'. matching_rule (rq\<lparr>rq_limits := l, rq_environment := env\<rparr>) p = Inr r'"
proof -
  let ?rq = "rq\<lparr>rq_limits := l, rq_environment := env\<rparr>"
  have "permits rq x \<Longrightarrow> permits ?rq x" for x
    using assms(2,3) by (simp add: permits_def environment_covered_def)
      (meson limits_within_trans subset_trans)
  then have "List.find (permits ?rq) (po_rules p) \<noteq> None"
    using assms(1) find_weaken [of "permits rq" "po_rules p" "permits ?rq"] by (simp add: matching_rule_Inr)
  moreover have "action_open ?rq p" using assms(1) by (simp add: matching_rule_Inr action_open_def)
  ultimately show ?thesis by (auto simp: matching_rule_Inr)
qed

section \<open>Concrete requests\<close>

definition ex_limits :: command_limits where
  "ex_limits = \<lparr>timeout_ms = 1000, termination_grace_ms = 100, stdout_max_bytes = 4, stderr_max_bytes = 4\<rparr>"

definition ex_workspace :: workspace_identity where
  "ex_workspace = \<lparr>wi_workspace_id = WorkspaceId (lit ''ws-1''), wi_run_id = ri_run_id ex_identity,
     wi_baseline_sha = ri_baseline_sha ex_identity\<rparr>"

definition ex_request :: command_request where
  "ex_request = \<lparr>rq_run_identity = ex_identity, rq_workspace = ex_workspace,
     rq_action = CommandAction (lit ''test''), rq_executable = ExecutableId (lit ''python''),
     rq_arguments = [lit ''-m'', lit ''pytest''], rq_working_directory = WorkingDirectory (lit ''src/app''),
     rq_environment = [\<lparr>env_name = lit ''LANG'', env_value = lit ''C''\<rparr>],
     rq_network_policy = DENY_ALL, rq_limits = ex_limits\<rparr>"

definition ex_rule :: command_rule where
  "ex_rule = \<lparr>ru_action = CommandAction (lit ''test''), ru_executable = ExecutableId (lit ''python''),
     ru_arguments = [lit ''-m'', lit ''pytest''], ru_working_directory = WorkingDirectory (lit ''src/app''),
     ru_environment_names = [lit ''LANG'', lit ''TERM''], ru_network_policy = DENY_ALL,
     ru_max_limits = ex_limits\<lparr>timeout_ms := 5000\<rparr>\<rparr>"

definition ex_policy :: command_policy where
  "ex_policy = \<lparr>po_policy_hash = ri_policy_hash ex_identity,
     po_actions = \<lparr>act_allowed = [lit ''test''], act_denied = [lit ''deploy'']\<rparr>, po_rules = [ex_rule]\<rparr>"

definition ex_result :: execution_result where
  "ex_result = \<lparr>er_request = ex_request, er_termination = EXITED, er_exit_code = Some 0, er_stdout = [],
     er_stderr = [], er_started_at = ex_now, er_finished_at = ex_now\<rparr>"

lemma ex_permitted: "matching_rule ex_request ex_policy = Inr ex_rule"
  by (simp add: matching_rule_Inr action_open_def permits_def environment_covered_def limits_within_def
      ex_request_def ex_policy_def ex_rule_def ex_limits_def)

lemma ex_request_valid: "new_CommandRequest ex_request = Inr ex_request"
  by (simp add: new_CommandRequest_Inr ex_request_def ex_workspace_def)

lemma ex_policy_valid: "new_CommandPolicy ex_policy = Inr ex_policy"
  by (simp add: new_CommandPolicy_Inr ex_policy_def ex_rule_def)

lemma ex_result_valid: "new_ExecutionResult ex_result = Inr ex_result"
  by (simp add: new_ExecutionResult_Inr ex_result_def ex_request_def ex_limits_def)

end
