(* ===== verification/TypeSafety.thy ===== *)
theory TypeSafety
  imports TypedCalls CommandExecution
begin

text \<open>
  Type safety of the domain layer: \<open>constructible\<close> are the objects a caller can build from values of
  the interpreter's classes by any calls of the constructors and operations that return, and
  \<open>wf_object\<close> says what an object of each class holds. The two are the same, so that the
  well-formedness the other theories assume of their arguments is what every caller has, and no more.
\<close>

section \<open>Calls that return\<close>

lemma checked_Inr [simp]: "(if c then Inl e else m) = Inr y \<longleftrightarrow> \<not> c \<and> m = Inr y"
  by simp

lemma each_Inr: "each guard vs = Inr xs \<longleftrightarrow> list_all2 (\<lambda>v x. guard v = Inr x) vs xs"
  by (induction vs arbitrary: xs) (auto simp: list_all2_Cons1)

lemma each_cast:
  assumes "\<And>v x. guard v = Inr x \<longleftrightarrow> v = C x"
  shows "each guard vs = Inr xs \<longleftrightarrow> vs = map C xs"
proof -
  have "list_all2 (\<lambda>v x. v = C x) vs xs \<longleftrightarrow> vs = map C xs"
    by (induction vs arbitrary: xs) (auto simp: list_all2_Cons1 Cons_eq_map_conv)
  then show ?thesis by (simp add: each_Inr assms)
qed

lemma require_tuple_Inr: "require_tuple v = Inr vs \<longleftrightarrow> v = OTuple vs"
  by (simp add: require_tuple_def require_instance_iff)

lemma require_argument_Inr: "require_argument v = Inr t \<longleftrightarrow> text_of v = Some t \<and> 0 \<notin> set t"
  by (auto simp: require_argument_def require_string_Inr)

lemma request_returns:
  "dyn_CommandRequest i w ac ex args dir env net lim = Inr r \<longleftrightarrow>
     new_CommandRequest r = Inr r \<and>
     i = ORunIdentity (rq_run_identity r) \<and> w = OWorkspaceIdentity (rq_workspace r) \<and>
     ac = OCommandAction (rq_action r) \<and> ex = OExecutableId (rq_executable r) \<and>
     (\<exists>vs. args = OTuple vs \<and> map text_of vs = map Some (rq_arguments r)) \<and>
     dir = OWorkingDirectory (rq_working_directory r) \<and>
     env = OTuple (map OEnvironmentVariable (rq_environment r)) \<and>
     net = ONetworkPolicy (rq_network_policy r) \<and> lim = OCommandLimits (rq_limits r)"
proof -
  have texts: "each require_argument vs = Inr ts \<longleftrightarrow> map text_of vs = map Some ts \<and> (\<forall>t \<in> set ts. 0 \<notin> set t)" for vs ts
    by (induction vs arbitrary: ts) (auto simp: require_argument_Inr)
  show ?thesis
    by (cases r) (auto simp: dyn_CommandRequest_def new_CommandRequest_def require_instance_iff require_tuple_Inr
        texts each_cast [OF require_instance_iff(26)])
qed

lemma final_returns: "dyn_check_final FS st fin = Inr f \<Longrightarrow> wf_final FS st f"
  by (auto simp: dyn_check_final_def dyn_require_final_state_def require_final_state_def wf_final_def split: if_splits)

section \<open>Well-formed objects\<close>

definition wf_workspace_identity :: "workspace_identity \<Rightarrow> bool" where
  "wf_workspace_identity w \<longleftrightarrow> WORKSPACE_ID_PATTERN (workspace_id_value (wi_workspace_id w)) \<and>
     wf_run_id (wi_run_id w) \<and> wf_baseline_sha (wi_baseline_sha w)"

definition wf_environment_variable :: "environment_variable \<Rightarrow> bool" where
  "wf_environment_variable e \<longleftrightarrow> ENVIRONMENT_NAME_PATTERN (env_name e) \<and> 0 \<notin> set (env_value e)"

definition wf_action :: "command_action \<Rightarrow> bool" where
  "wf_action a \<longleftrightarrow> ACTION_PATTERN (action_value a)"

definition wf_executable_id :: "executable_id \<Rightarrow> bool" where
  "wf_executable_id e \<longleftrightarrow> EXECUTABLE_ID_PATTERN (executable_id_value e)"

definition wf_request :: "command_request \<Rightarrow> bool" where
  "wf_request r \<longleftrightarrow>
     wi_run_id (rq_workspace r) = ri_run_id (rq_run_identity r) \<and>
     wi_baseline_sha (rq_workspace r) = ri_baseline_sha (rq_run_identity r) \<and>
     (\<forall>argument \<in> set (rq_arguments r). 0 \<notin> set argument) \<and>
     sorted_wrt (<) (map env_name (rq_environment r)) \<and> wf_run_identity (rq_run_identity r) \<and>
     wf_workspace_identity (rq_workspace r) \<and> wf_action (rq_action r) \<and> wf_executable_id (rq_executable r) \<and>
     wf_working_directory (rq_working_directory r) \<and> list_all wf_environment_variable (rq_environment r) \<and>
     wf_limits (rq_limits r)"

definition wf_result :: "execution_result \<Rightarrow> bool" where
  "wf_result r \<longleftrightarrow>
     (er_termination r = EXITED \<longleftrightarrow> er_exit_code r \<noteq> None) \<and>
     int (length (er_stdout r)) \<le> stdout_max_bytes (rq_limits (er_request r)) \<and>
     int (length (er_stderr r)) \<le> stderr_max_bytes (rq_limits (er_request r)) \<and>
     dt_le (er_started_at r) (er_finished_at r) \<and> wf_request (er_request r) \<and>
     wf_instant (er_started_at r) \<and> wf_instant (er_finished_at r)"

definition wf_rule :: "command_rule \<Rightarrow> bool" where
  "wf_rule r \<longleftrightarrow>
     (\<forall>argument \<in> set (ru_arguments r). 0 \<notin> set argument) \<and>
     list_all ENVIRONMENT_NAME_PATTERN (ru_environment_names r) \<and> sorted_wrt (<) (ru_environment_names r) \<and>
     wf_action (ru_action r) \<and> wf_executable_id (ru_executable r) \<and>
     wf_working_directory (ru_working_directory r) \<and> wf_limits (ru_max_limits r)"

definition wf_policy :: "command_policy \<Rightarrow> bool" where
  "wf_policy p \<longleftrightarrow>
     sorted_wrt (<) (map rule_key (po_rules p)) \<and>
     (\<forall>rule \<in> set (po_rules p). action_value (ru_action rule) \<in> set (act_allowed (po_actions p)) \<and>
        action_value (ru_action rule) \<notin> set (act_denied (po_actions p))) \<and>
     wf_policy_hash (po_policy_hash p) \<and> list_all wf_rule (po_rules p)"

definition wf_authorized :: "authorized_command \<Rightarrow> bool" where
  "wf_authorized a \<longleftrightarrow>
     action_open (au_request a) (au_policy a) \<and>
     find (permits (au_request a)) (po_rules (au_policy a)) = Some (au_rule a) \<and>
     wf_request (au_request a) \<and> wf_policy (au_policy a) \<and> wf_rule (au_rule a)"

text \<open>These conditions are what the constructors accept.\<close>

lemma check_environment_names_Inr: "check_environment_names ns = Inr u \<longleftrightarrow> list_all ENVIRONMENT_NAME_PATTERN ns"
  by (induction ns) (auto simp: new_EnvironmentVariable_def)

lemma wf_workspace_identity_new:
  "wf_workspace_identity w \<longleftrightarrow> new_WorkspaceId (workspace_id_value (wi_workspace_id w)) = Inr (wi_workspace_id w) \<and>
     wf_run_id (wi_run_id w) \<and> wf_baseline_sha (wi_baseline_sha w)"
  by (cases "wi_workspace_id w") (simp add: wf_workspace_identity_def new_WorkspaceId_Inr)

lemma wf_environment_variable_new:
  "wf_environment_variable e \<longleftrightarrow> new_EnvironmentVariable (env_name e) (env_value e) = Inr e"
  by (auto simp: wf_environment_variable_def new_EnvironmentVariable_def)

lemma wf_action_new: "wf_action a \<longleftrightarrow> new_CommandAction (action_value a) = Inr a"
  by (cases a) (simp add: wf_action_def new_CommandAction_def)

lemma wf_executable_id_new: "wf_executable_id e \<longleftrightarrow> new_ExecutableId (executable_id_value e) = Inr e"
  by (cases e) (simp add: wf_executable_id_def new_ExecutableId_def)

lemma wf_request_new:
  "wf_request r \<longleftrightarrow> new_CommandRequest r = Inr r \<and> wf_run_identity (rq_run_identity r) \<and>
     wf_workspace_identity (rq_workspace r) \<and> wf_action (rq_action r) \<and> wf_executable_id (rq_executable r) \<and>
     wf_working_directory (rq_working_directory r) \<and> list_all wf_environment_variable (rq_environment r) \<and>
     wf_limits (rq_limits r)"
  by (auto simp: wf_request_def new_CommandRequest_Inr)

lemma wf_result_new:
  "wf_result r \<longleftrightarrow> new_ExecutionResult r = Inr r \<and> wf_request (er_request r) \<and>
     wf_instant (er_started_at r) \<and> wf_instant (er_finished_at r)"
  by (auto simp: wf_result_def new_ExecutionResult_Inr wf_instant_def)

lemma wf_rule_new:
  "wf_rule r \<longleftrightarrow> new_CommandRule r = Inr r \<and> wf_action (ru_action r) \<and> wf_executable_id (ru_executable r) \<and>
     wf_working_directory (ru_working_directory r) \<and> wf_limits (ru_max_limits r)"
  by (auto simp: wf_rule_def new_CommandRule_def check_environment_names_Inr strict_sorted_iff)

lemma wf_policy_new:
  "wf_policy p \<longleftrightarrow> new_CommandPolicy p = Inr p \<and> wf_policy_hash (po_policy_hash p) \<and> list_all wf_rule (po_rules p)"
  by (auto simp: wf_policy_def new_CommandPolicy_Inr)

lemma wf_authorized_new:
  "wf_authorized a \<longleftrightarrow> new_AuthorizedCommand a = Inr a \<and> wf_request (au_request a) \<and> wf_policy (au_policy a) \<and>
     wf_rule (au_rule a)"
  by (cases a) (auto simp: wf_authorized_def new_AuthorizedCommand_Inr authorize_command_Inr matching_rule_Inr)

text \<open>
  What an object of each class holds. A text, an integer, the members of the enumerations, the actions of
  the schemas package and foreign objects are whatever the caller has.
\<close>

fun wf_object :: "str list \<Rightarrow> pyobj \<Rightarrow> bool" where
  "wf_object FS (ODatetime d) \<longleftrightarrow> valid_datetime d"
| "wf_object FS (OTuple vs) \<longleftrightarrow> list_all (wf_object FS) vs"
| "wf_object FS (ORunId r) \<longleftrightarrow> wf_run_id r"
| "wf_object FS (OContractId c) \<longleftrightarrow> wf_contract_id c"
| "wf_object FS (OContractVersion v) \<longleftrightarrow> wf_contract_version v"
| "wf_object FS (OContractHash h) \<longleftrightarrow> wf_contract_hash h"
| "wf_object FS (OBaselineSha b) \<longleftrightarrow> wf_baseline_sha b"
| "wf_object FS (OPolicyHash p) \<longleftrightarrow> wf_policy_hash p"
| "wf_object FS (ORunIdentity i) \<longleftrightarrow> wf_run_identity i"
| "wf_object FS (OLifecycleActor a) \<longleftrightarrow> wf_actor a"
| "wf_object FS (ORunLifecycle lc) \<longleftrightarrow> wf_lifecycle FS lc"
| "wf_object FS (OLifecycleTransition ev) \<longleftrightarrow> wf_transition FS ev"
| "wf_object FS (OLifecycleAdvance a) \<longleftrightarrow> wf_lifecycle FS (adv_lifecycle a) \<and> wf_transition FS (adv_transition a)"
| "wf_object FS (ORunCheckpoint cp) \<longleftrightarrow> wf_checkpoint FS cp"
| "wf_object FS (OStateUpdate u) \<longleftrightarrow> wf_update FS u"
| "wf_object FS (OWorkspaceId w) \<longleftrightarrow> new_WorkspaceId (workspace_id_value w) = Inr w"
| "wf_object FS (OCandidateSha c) \<longleftrightarrow> new_CandidateSha (candidate_sha_value c) = Inr c"
| "wf_object FS (OWorkspaceIdentity w) \<longleftrightarrow> wf_workspace_identity w"
| "wf_object FS (OCandidateIdentity c) \<longleftrightarrow> wf_workspace_identity (ca_workspace c) \<and>
     new_CandidateSha (candidate_sha_value (ca_candidate_sha c)) = Inr (ca_candidate_sha c)"
| "wf_object FS (OExecutableId e) \<longleftrightarrow> wf_executable_id e"
| "wf_object FS (OCommandAction a) \<longleftrightarrow> wf_action a"
| "wf_object FS (OWorkingDirectory d) \<longleftrightarrow> wf_working_directory d"
| "wf_object FS (OEnvironmentVariable e) \<longleftrightarrow> wf_environment_variable e"
| "wf_object FS (OCommandLimits l) \<longleftrightarrow> wf_limits l"
| "wf_object FS (OCommandRequest r) \<longleftrightarrow> wf_request r"
| "wf_object FS (OExecutionResult r) \<longleftrightarrow> wf_result r"
| "wf_object FS (OCommandRule r) \<longleftrightarrow> wf_rule r"
| "wf_object FS (OCommandPolicy p) \<longleftrightarrow> wf_policy p"
| "wf_object FS (OAuthorizedCommand a) \<longleftrightarrow> wf_authorized a"
| "wf_object FS _ \<longleftrightarrow> True"

section \<open>Objects a caller can build\<close>

text \<open>
  The objects that exist before any call: values of the interpreter's own classes, members of the
  enumerations, and the objects of other packages.
\<close>

fun given :: "pyobj \<Rightarrow> bool" where
  "given NoneObject = True"
| "given (OBool _) = True"
| "given (OText _) = True"
| "given (StrEnumMember _) = True"
| "given (Foreign _) = True"
| "given (OInt _) = True"
| "given (OBytes _) = True"
| "given (ODatetime d) = valid_datetime d"
| "given (OLifecycleState _) = True"
| "given (ONetworkPolicy _) = True"
| "given (OExecutionTermination _) = True"
| "given (OActions _) = True"
| "given _ = False"


text \<open>A call of a constructor or an operation of the domain layer that returns.\<close>

inductive call_returns :: "str list \<Rightarrow> pyobj list \<Rightarrow> pyobj \<Rightarrow> bool" for FS where
  call_RunId: "dyn_RunId v = Inr r \<Longrightarrow> call_returns FS [v] (ORunId r)"
| call_ContractId: "dyn_ContractId v = Inr c \<Longrightarrow> call_returns FS [v] (OContractId c)"
| call_ContractVersion: "dyn_ContractVersion v = Inr c \<Longrightarrow> call_returns FS [v] (OContractVersion c)"
| call_ContractHash: "dyn_ContractHash v = Inr h \<Longrightarrow> call_returns FS [v] (OContractHash h)"
| call_BaselineSha: "dyn_BaselineSha v = Inr b \<Longrightarrow> call_returns FS [v] (OBaselineSha b)"
| call_PolicyHash: "dyn_PolicyHash v = Inr p \<Longrightarrow> call_returns FS [v] (OPolicyHash p)"
| call_RunIdentity: "dyn_RunIdentity a b c d e f g = Inr i \<Longrightarrow> call_returns FS [a, b, c, d, e, f, g] (ORunIdentity i)"
| call_LifecycleActor: "dyn_LifecycleActor v = Inr a \<Longrightarrow> call_returns FS [v] (OLifecycleActor a)"
| call_RunLifecycle: "dyn_RunLifecycle FS a b c d e = Inr lc \<Longrightarrow> call_returns FS [a, b, c, d, e] (ORunLifecycle lc)"
| call_LifecycleTransition: "dyn_LifecycleTransition FS a b c d e f g = Inr ev \<Longrightarrow>
     call_returns FS [a, b, c, d, e, f, g] (OLifecycleTransition ev)"
| call_LifecycleAdvance: "dyn_LifecycleAdvance a b = Inr adv \<Longrightarrow> call_returns FS [a, b] (OLifecycleAdvance adv)"
| call_start_lifecycle: "dyn_start_lifecycle FS a = Inr lc \<Longrightarrow> call_returns FS [a] (ORunLifecycle lc)"
| call_advance_lifecycle: "dyn_advance_lifecycle FS a b c d e = Inr adv \<Longrightarrow>
     call_returns FS [a, b, c, d, e] (OLifecycleAdvance adv)"
| call_RunCheckpoint: "dyn_RunCheckpoint a b = Inr cp \<Longrightarrow> call_returns FS [a, b] (ORunCheckpoint cp)"
| call_StateUpdate: "dyn_StateUpdate a b = Inr u \<Longrightarrow> call_returns FS [a, b] (OStateUpdate u)"
| call_next_checkpoint: "next_checkpoint u = Inr cp \<Longrightarrow> call_returns FS [OStateUpdate u] (ORunCheckpoint cp)"
| call_create_initial_checkpoint: "dyn_create_initial_checkpoint FS a = Inr cp \<Longrightarrow> call_returns FS [a] (ORunCheckpoint cp)"
| call_prepare_state_update: "dyn_prepare_state_update FS a b c d e = Inr u \<Longrightarrow>
     call_returns FS [a, b, c, d, e] (OStateUpdate u)"
| call_WorkspaceId: "dyn_WorkspaceId v = Inr w \<Longrightarrow> call_returns FS [v] (OWorkspaceId w)"
| call_CandidateSha: "dyn_CandidateSha v = Inr c \<Longrightarrow> call_returns FS [v] (OCandidateSha c)"
| call_WorkspaceIdentity: "dyn_WorkspaceIdentity a b c = Inr w \<Longrightarrow> call_returns FS [a, b, c] (OWorkspaceIdentity w)"
| call_CandidateIdentity: "dyn_CandidateIdentity a b = Inr c \<Longrightarrow> call_returns FS [a, b] (OCandidateIdentity c)"
| call_bind_candidate: "dyn_bind_candidate a b = Inr c \<Longrightarrow> call_returns FS [a, b] (OCandidateIdentity c)"
| call_ExecutableId: "dyn_ExecutableId v = Inr e \<Longrightarrow> call_returns FS [v] (OExecutableId e)"
| call_CommandAction: "dyn_CommandAction v = Inr a \<Longrightarrow> call_returns FS [v] (OCommandAction a)"
| call_WorkingDirectory: "dyn_WorkingDirectory v = Inr d \<Longrightarrow> call_returns FS [v] (OWorkingDirectory d)"
| call_EnvironmentVariable: "dyn_EnvironmentVariable a b = Inr e \<Longrightarrow> call_returns FS [a, b] (OEnvironmentVariable e)"
| call_CommandLimits: "dyn_CommandLimits a b c d = Inr l \<Longrightarrow> call_returns FS [a, b, c, d] (OCommandLimits l)"
| call_CommandRequest: "dyn_CommandRequest a b c d e f g h i = Inr r \<Longrightarrow>
     call_returns FS [a, b, c, d, e, f, g, h, i] (OCommandRequest r)"
| call_ExecutionResult: "dyn_ExecutionResult a b c d e f g = Inr r \<Longrightarrow>
     call_returns FS [a, b, c, d, e, f, g] (OExecutionResult r)"
| call_CommandRule: "dyn_CommandRule a b c d e f g = Inr r \<Longrightarrow> call_returns FS [a, b, c, d, e, f, g] (OCommandRule r)"
| call_CommandPolicy: "dyn_CommandPolicy a b c = Inr p \<Longrightarrow> call_returns FS [a, b, c] (OCommandPolicy p)"
| call_AuthorizedCommand: "dyn_AuthorizedCommand a b c = Inr u \<Longrightarrow> call_returns FS [a, b, c] (OAuthorizedCommand u)"
| call_authorize_command: "dyn_authorize_command a b = Inr u \<Longrightarrow> call_returns FS [a, b] (OAuthorizedCommand u)"

inductive constructible :: "str list \<Rightarrow> pyobj \<Rightarrow> bool" for FS where
  con_given: "given v \<Longrightarrow> constructible FS v"
| con_tuple: "\<forall>v \<in> set vs. constructible FS v \<Longrightarrow> constructible FS (OTuple vs)"
| con_call: "\<forall>a \<in> set args. constructible FS a \<Longrightarrow> call_returns FS args v \<Longrightarrow> constructible FS v"

section \<open>Calls keep objects well-formed\<close>

lemma given_wf: "given v \<Longrightarrow> wf_object FS v"
  by (cases v) simp_all

lemma identity_wrapper_returns:
  "dyn_RunId v = Inr r \<Longrightarrow> wf_run_id r"
  "dyn_ContractId v = Inr c \<Longrightarrow> wf_contract_id c"
  "dyn_ContractVersion v = Inr w \<Longrightarrow> wf_contract_version w"
  "dyn_ContractHash v = Inr h \<Longrightarrow> wf_contract_hash h"
  "dyn_BaselineSha v = Inr b \<Longrightarrow> wf_baseline_sha b"
  "dyn_PolicyHash v = Inr p \<Longrightarrow> wf_policy_hash p"
  by (auto simp: dyn_RunId_def dyn_ContractId_def dyn_ContractVersion_def dyn_ContractHash_def dyn_BaselineSha_def
      dyn_PolicyHash_def dyn_require_text_def dyn_require_pattern_def wf_wrapper_defs new_wrapper_defs)

lemma pattern_wrapper_returns:
  "dyn_WorkspaceId v = Inr wid \<Longrightarrow> new_WorkspaceId (workspace_id_value wid) = Inr wid"
  "dyn_CandidateSha v = Inr cs \<Longrightarrow> new_CandidateSha (candidate_sha_value cs) = Inr cs"
  "dyn_ExecutableId v = Inr e \<Longrightarrow> wf_executable_id e"
  "dyn_CommandAction v = Inr ac \<Longrightarrow> wf_action ac"
  by (auto simp: dyn_WorkspaceId_def dyn_CandidateSha_def dyn_ExecutableId_def
      dyn_CommandAction_def dyn_require_match_def wf_executable_id_new new_ExecutableId_def
      wf_action_new new_CommandAction_def new_WorkspaceId_def new_CandidateSha_def)

lemma actor_returns: "dyn_LifecycleActor v = Inr a \<Longrightarrow> wf_actor a"
  by (auto simp: dyn_LifecycleActor_def wf_actor_new new_LifecycleActor_def split: if_splits)

lemma directory_returns:
  assumes "dyn_WorkingDirectory v = Inr d"
  shows "wf_working_directory d"
proof -
  obtain t where t: "new_WorkingDirectory t = Inr d" using assms by (auto simp: dyn_WorkingDirectory_def)
  then have "d = WorkingDirectory t" by (simp only: new_WorkingDirectory_Inr)
  with t show ?thesis by (simp add: wf_working_directory_new)
qed

lemmas returns_defs = require_instance_iff require_tuple_Inr dyn_require_revision_def dyn_require_utc_def
  dyn_require_positive_integer_def require_positive_integer_def require_revision_def require_utc_def wf_instant_def

lemma RunIdentity_returns:
  assumes "dyn_RunIdentity a b c d e f g = Inr i" and "\<forall>v \<in> set [a, b, c, d, e, f, g]. wf_object FS v"
  shows "wf_run_identity i"
  using assms by (auto simp: dyn_RunIdentity_def returns_defs new_RunIdentity_def wf_run_identity_def)

lemma RunLifecycle_returns:
  assumes "dyn_RunLifecycle FS a b c d e = Inr lc" and "\<forall>v \<in> set [a, b, c, d, e]. wf_object FS v"
  shows "wf_lifecycle FS lc"
  using assms by (auto simp: dyn_RunLifecycle_def returns_defs wf_lifecycle_def dest: final_returns)

lemma LifecycleTransition_returns:
  assumes "dyn_LifecycleTransition FS a b c d e f g = Inr ev" and "\<forall>v \<in> set [a, b, c, d, e, f, g]. wf_object FS v"
  shows "wf_transition FS ev"
  using assms by (auto simp: dyn_LifecycleTransition_def returns_defs wf_transition_def dest: final_returns)

lemma LifecycleAdvance_returns:
  assumes "dyn_LifecycleAdvance a b = Inr adv" and "\<forall>v \<in> set [a, b]. wf_object FS v"
  shows "wf_lifecycle FS (adv_lifecycle adv) \<and> wf_transition FS (adv_transition adv)"
  using assms by (auto simp: dyn_LifecycleAdvance_def returns_defs)

lemma start_returns:
  assumes "dyn_start_lifecycle FS a = Inr lc" and "\<forall>v \<in> set [a]. wf_object FS v"
  shows "wf_lifecycle FS lc"
  using assms by (auto simp: dyn_start_lifecycle_def returns_defs wf_run_identity_def intro!: RunLifecycle_returns)

lemma advance_returns:
  assumes "dyn_advance_lifecycle FS a b c d e = Inr adv" and "\<forall>v \<in> set [a, b, c, d, e]. wf_object FS v"
  shows "wf_lifecycle FS (adv_lifecycle adv) \<and> wf_transition FS (adv_transition adv)"
proof -
  obtain lc st t ac upd ev where args: "a = ORunLifecycle lc" "c = ODatetime t" "d = OLifecycleActor ac"
    and ev: "dyn_LifecycleTransition FS (ORunId (lc_run_id lc)) (OInt (lc_revision lc + 1))
        (OLifecycleState (lc_state lc)) (OLifecycleState st) (ODatetime t) (OLifecycleActor ac) e = Inr ev"
    and upd: "dyn_RunLifecycle FS (ORunId (lc_run_id lc)) (OLifecycleState st) (OInt (lc_revision lc + 1))
        (ODatetime t) e = Inr upd"
    and adv: "dyn_LifecycleAdvance (ORunLifecycle upd) (OLifecycleTransition ev) = Inr adv"
    using assms(1)
    by (auto simp: dyn_advance_lifecycle_def require_instance_iff dyn_require_utc_def require_utc_def Let_def split: if_splits)
  have wf: "wf_run_id (lc_run_id lc)" "valid_datetime t" "wf_actor ac" "wf_object FS e"
    using assms(2) args by (simp_all add: wf_lifecycle_def)
  then show ?thesis
    using LifecycleAdvance_returns [OF adv] RunLifecycle_returns [OF upd] LifecycleTransition_returns [OF ev] by simp
qed

lemma checkpoint_returns:
  assumes "dyn_RunCheckpoint a b = Inr cp" and "\<forall>v \<in> set [a, b]. wf_object FS v"
  shows "wf_checkpoint FS cp"
  using assms by (auto simp: dyn_RunCheckpoint_def returns_defs wf_checkpoint_new new_RunCheckpoint_Inr)

lemma update_returns:
  assumes "dyn_StateUpdate a b = Inr u" and "\<forall>v \<in> set [a, b]. wf_object FS v"
  shows "wf_update FS u"
proof -
  obtain cp adv where "a = ORunCheckpoint cp" "b = OLifecycleAdvance adv" "new_StateUpdate cp adv = Inr u"
    using assms(1) by (auto simp: dyn_StateUpdate_def require_instance_iff)
  moreover from this have "up_expected u = cp" "up_advance u = adv" by (simp_all add: new_StateUpdate_Inr)
  ultimately show ?thesis using assms(2) by (simp add: wf_update_new)
qed

lemma initial_returns:
  assumes "dyn_create_initial_checkpoint FS a = Inr cp" and "\<forall>v \<in> set [a]. wf_object FS v"
  shows "wf_checkpoint FS cp"
proof -
  obtain i lc where a: "a = ORunIdentity i" and lc: "dyn_start_lifecycle FS a = Inr lc"
    and cp: "dyn_RunCheckpoint a (ORunLifecycle lc) = Inr cp"
    using assms(1) by (auto simp: dyn_create_initial_checkpoint_def require_instance_iff)
  show ?thesis using checkpoint_returns [OF cp] start_returns [OF lc assms(2)] assms(2) by simp
qed

lemma prepare_returns:
  assumes "dyn_prepare_state_update FS a b c d e = Inr u" and "\<forall>v \<in> set [a, b, c, d, e]. wf_object FS v"
  shows "wf_update FS u"
proof -
  obtain cp adv where a: "a = ORunCheckpoint cp"
    and adv: "dyn_advance_lifecycle FS (ORunLifecycle (cp_lifecycle cp)) b c d e = Inr adv"
    and u: "dyn_StateUpdate a (OLifecycleAdvance adv) = Inr u"
    using assms(1) by (auto simp: dyn_prepare_state_update_def require_instance_iff)
  show ?thesis
    using update_returns [OF u] advance_returns [OF adv] assms(2) a by (simp add: wf_checkpoint_new)
qed

lemma workspace_returns:
  "dyn_WorkspaceIdentity a b c = Inr w \<Longrightarrow> \<forall>v \<in> set [a, b, c]. wf_object FS v \<Longrightarrow> wf_workspace_identity w"
  "dyn_CandidateIdentity a b = Inr ca \<Longrightarrow> \<forall>v \<in> set [a, b]. wf_object FS v \<Longrightarrow>
     wf_workspace_identity (ca_workspace ca) \<and> new_CandidateSha (candidate_sha_value (ca_candidate_sha ca)) = Inr (ca_candidate_sha ca)"
  "dyn_bind_candidate a b = Inr ca \<Longrightarrow> \<forall>v \<in> set [a, b]. wf_object FS v \<Longrightarrow>
     wf_workspace_identity (ca_workspace ca) \<and> new_CandidateSha (candidate_sha_value (ca_candidate_sha ca)) = Inr (ca_candidate_sha ca)"
  by (auto simp: dyn_WorkspaceIdentity_def dyn_CandidateIdentity_def dyn_bind_candidate_def require_instance_iff
      wf_workspace_identity_new)

lemma limits_returns: "dyn_CommandLimits a b c d = Inr l \<Longrightarrow> wf_limits l"
  by (auto simp: dyn_CommandLimits_def dyn_require_positive_integer_def require_positive_integer_def wf_limits_def
      split: if_splits)

lemma environment_returns: "dyn_EnvironmentVariable a b = Inr e \<Longrightarrow> wf_environment_variable e"
  by (auto simp: dyn_EnvironmentVariable_def dyn_require_match_def wf_environment_variable_new new_EnvironmentVariable_def)

lemma request_wf:
  assumes "dyn_CommandRequest a b c d e f g h i = Inr r" and "\<forall>v \<in> set [a, b, c, d, e, f, g, h, i]. wf_object FS v"
  shows "wf_request r"
  using assms by (auto simp: request_returns wf_request_new list_all_iff)

lemma result_returns:
  assumes "dyn_ExecutionResult a b c d e f g = Inr r" and "\<forall>v \<in> set [a, b, c, d, e, f, g]. wf_object FS v"
  shows "wf_result r"
proof -
  obtain rq t code oc out err st fin where args: "a = OCommandRequest rq" "f = ODatetime st" "g = ODatetime fin"
    and code: "if t = EXITED then oc \<noteq> None else oc = None"
    and bounds: "int (length out) \<le> stdout_max_bytes (rq_limits rq)" "int (length err) \<le> stderr_max_bytes (rq_limits rq)"
    and times: "dt_tz st = UTC" "dt_tz fin = UTC" "dt_le st fin"
    and r: "r = \<lparr>er_request = rq, er_termination = t, er_exit_code = oc, er_stdout = out, er_stderr = err,
      er_started_at = st, er_finished_at = fin\<rparr>"
    using assms(1) by (auto simp: dyn_ExecutionResult_def require_instance_iff not_less split: if_splits)
  show ?thesis using assms(2) code bounds times
    by (auto simp: args r wf_result_new new_ExecutionResult_Inr wf_instant_def split: if_splits)
qed

lemma require_environment_name_Inr:
  "require_environment_name v = Inr n \<longleftrightarrow> text_of v = Some n \<and> ENVIRONMENT_NAME_PATTERN n"
  by (auto simp: require_environment_name_def dyn_EnvironmentVariable_def dyn_require_match_def require_string_Inr
      require_string_text)

lemma each_environment_name:
  "each require_environment_name vs = Inr ns \<Longrightarrow> check_environment_names ns = Inr ()"
proof (induction vs arbitrary: ns)
  case (Cons v vs)
  obtain n ms where ns: "ns = n # ms" and n: "text_of v = Some n" "ENVIRONMENT_NAME_PATTERN n"
    and ms: "each require_environment_name vs = Inr ms"
    using Cons.prems by (auto simp: require_environment_name_Inr)
  with Cons.IH [OF ms] show ?case by (simp add: new_EnvironmentVariable_def)
qed simp

lemma each_argument: "each require_argument vs = Inr ts \<Longrightarrow> t \<in> set ts \<Longrightarrow> 0 \<notin> set t"
  by (induction vs arbitrary: ts) (auto simp: require_argument_Inr)

lemma rule_returns:
  assumes "dyn_CommandRule a b c d e f g = Inr r" and "\<forall>v \<in> set [a, b, c, d, e, f, g]. wf_object FS v"
  shows "wf_rule r"
  using assms
  by (auto simp: dyn_CommandRule_def require_instance_iff require_tuple_Inr wf_rule_new new_CommandRule_def
      dest: each_environment_name each_argument)

lemma policy_returns:
  assumes "dyn_CommandPolicy a b c = Inr p" and "\<forall>v \<in> set [a, b, c]. wf_object FS v"
  shows "wf_policy p"
  using assms
  by (auto simp: dyn_CommandPolicy_def require_instance_iff require_tuple_Inr each_cast [OF require_instance_iff(33)]
      wf_policy_new new_CommandPolicy_Inr list_all_iff)

lemma authorized_returns:
  assumes "dyn_AuthorizedCommand a b c = Inr u" and "\<forall>v \<in> set [a, b, c]. wf_object FS v"
  shows "wf_authorized u"
  using assms by (auto simp: dyn_AuthorizedCommand_def require_instance_iff wf_authorized_new new_AuthorizedCommand_Inr)

lemma matching_rule_in: "matching_rule rq p = Inr r \<Longrightarrow> r \<in> set (po_rules p)"
  by (auto simp: matching_rule_Inr dest: find_SomeI)

lemma authorize_returns:
  assumes "dyn_authorize_command a b = Inr u" and "\<forall>v \<in> set [a, b]. wf_object FS v"
  shows "wf_authorized u"
proof -
  obtain rq p r where args: "a = OCommandRequest rq" "b = OCommandPolicy p" and r: "matching_rule rq p = Inr r"
    and u: "dyn_AuthorizedCommand a b (OCommandRule r) = Inr u"
    using assms(1) by (auto simp: dyn_authorize_command_def require_instance_iff)
  show ?thesis
    using authorized_returns [OF u, of FS] assms(2) args matching_rule_in [OF r] by (auto simp: wf_policy_new list_all_iff)
qed

lemma next_checkpoint_returns: "next_checkpoint u = Inr cp \<Longrightarrow> \<forall>v \<in> set [OStateUpdate u]. wf_object FS v \<Longrightarrow> wf_checkpoint FS cp"
  using next_checkpoint_wf [of FS u] by auto

lemmas simple_returns = identity_wrapper_returns pattern_wrapper_returns actor_returns directory_returns
  limits_returns environment_returns

lemmas compound_returns = RunIdentity_returns RunLifecycle_returns LifecycleTransition_returns LifecycleAdvance_returns
  start_returns advance_returns checkpoint_returns update_returns initial_returns prepare_returns next_checkpoint_returns
  workspace_returns request_wf result_returns rule_returns policy_returns authorized_returns authorize_returns

lemma call_keeps_wf:
  assumes "call_returns FS args v" and "\<forall>a \<in> set args. wf_object FS a"
  shows "wf_object FS v"
  using assms
  by - (erule call_returns.cases; hypsubst; simp only: wf_object.simps; (erule simple_returns | erule (1) compound_returns))

lemma constructible_wf:
  assumes "constructible FS v"
  shows "wf_object FS v"
  using assms
proof induction
  case (con_tuple vs)
  then show ?case by (simp add: list_all_iff)
qed (auto simp: given_wf intro: call_keeps_wf)

section \<open>Every well-formed object can be built\<close>

lemma con_text: "constructible FS (OText t)" by (simp add: con_given)

lemma con_texts: "constructible FS (OTuple (map OText ts))"
  by (rule con_tuple) (auto simp: con_text)

lemma con_wrappers:
  "wf_run_id r \<Longrightarrow> constructible FS (ORunId r)"
  "wf_contract_id c \<Longrightarrow> constructible FS (OContractId c)"
  "wf_contract_version w \<Longrightarrow> constructible FS (OContractVersion w)"
  "wf_contract_hash h \<Longrightarrow> constructible FS (OContractHash h)"
  "wf_baseline_sha b \<Longrightarrow> constructible FS (OBaselineSha b)"
  "wf_policy_hash p \<Longrightarrow> constructible FS (OPolicyHash p)"
  "wf_actor a \<Longrightarrow> constructible FS (OLifecycleActor a)"
  "new_WorkspaceId (workspace_id_value wid) = Inr wid \<Longrightarrow> constructible FS (OWorkspaceId wid)"
  "new_CandidateSha (candidate_sha_value cs) = Inr cs \<Longrightarrow> constructible FS (OCandidateSha cs)"
  "wf_executable_id e \<Longrightarrow> constructible FS (OExecutableId e)"
  "wf_action ac \<Longrightarrow> constructible FS (OCommandAction ac)"
  "wf_working_directory d \<Longrightarrow> constructible FS (OWorkingDirectory d)"
proof -
  have one: "call_returns FS [OText t] v \<Longrightarrow> constructible FS v" for t v
    using con_call [of "[OText t]"] con_text by simp
  show "wf_run_id r \<Longrightarrow> constructible FS (ORunId r)"
    by (rule one [OF call_RunId]) (simp add: typed_calls wf_run_id_new)
  show "wf_contract_id c \<Longrightarrow> constructible FS (OContractId c)"
    by (rule one [OF call_ContractId]) (simp add: typed_calls wf_contract_id_new)
  show "wf_contract_version w \<Longrightarrow> constructible FS (OContractVersion w)"
    by (rule one [OF call_ContractVersion]) (simp add: typed_calls wf_contract_version_new)
  show "wf_contract_hash h \<Longrightarrow> constructible FS (OContractHash h)"
    by (rule one [OF call_ContractHash]) (simp add: typed_calls wf_contract_hash_new)
  show "wf_baseline_sha b \<Longrightarrow> constructible FS (OBaselineSha b)"
    by (rule one [OF call_BaselineSha]) (simp add: typed_calls wf_baseline_sha_new)
  show "wf_policy_hash p \<Longrightarrow> constructible FS (OPolicyHash p)"
    by (rule one [OF call_PolicyHash]) (simp add: typed_calls wf_policy_hash_new)
  show "wf_actor a \<Longrightarrow> constructible FS (OLifecycleActor a)"
    by (rule one [OF call_LifecycleActor]) (simp add: typed_calls wf_actor_new)
  show "new_WorkspaceId (workspace_id_value wid) = Inr wid \<Longrightarrow> constructible FS (OWorkspaceId wid)"
    by (rule one [OF call_WorkspaceId]) (simp add: typed_calls)
  show "new_CandidateSha (candidate_sha_value cs) = Inr cs \<Longrightarrow> constructible FS (OCandidateSha cs)"
    by (rule one [OF call_CandidateSha]) (simp add: typed_calls)
  show "wf_executable_id e \<Longrightarrow> constructible FS (OExecutableId e)"
    by (rule one [OF call_ExecutableId]) (simp add: typed_calls wf_executable_id_new)
  show "wf_action ac \<Longrightarrow> constructible FS (OCommandAction ac)"
    by (rule one [OF call_CommandAction]) (simp add: typed_calls wf_action_new)
  show "wf_working_directory d \<Longrightarrow> constructible FS (OWorkingDirectory d)"
    by (rule one [OF call_WorkingDirectory]) (simp add: typed_calls wf_working_directory_new)
qed

lemma con_instant: "wf_instant d \<Longrightarrow> constructible FS (ODatetime d)"
  by (simp add: con_given wf_instant_def)

lemma con_final: "constructible FS (final_object fin)"
  by (cases fin) (simp_all add: con_given typed_calls)

lemma built: "call_returns FS args v \<Longrightarrow> \<forall>a \<in> set args. constructible FS a \<Longrightarrow> constructible FS v"
  by (rule con_call)

lemma con_run_identity:
  assumes "wf_run_identity i"
  shows "constructible FS (ORunIdentity i)"
  by (rule built [OF call_RunIdentity [OF trans [OF typed_RunIdentity wf_new_RunIdentity [OF assms]]]])
    (use assms in \<open>auto simp: wf_run_identity_def intro: con_wrappers con_instant\<close>)

lemma con_lifecycle:
  assumes "wf_lifecycle FS lc"
  shows "constructible FS (ORunLifecycle lc)"
  by (rule built [OF call_RunLifecycle [OF trans [OF typed_RunLifecycle wf_new_RunLifecycle [OF assms]]]])
    (use assms in \<open>auto simp: wf_lifecycle_def con_given intro: con_wrappers con_instant con_final\<close>)

lemma con_transition:
  assumes "wf_transition FS ev"
  shows "constructible FS (OLifecycleTransition ev)"
  by (rule built [OF call_LifecycleTransition [OF trans [OF typed_LifecycleTransition wf_new_LifecycleTransition [OF assms]]]])
    (use assms in \<open>auto simp: wf_transition_def con_given intro: con_wrappers con_instant con_final\<close>)

lemma con_advance:
  assumes "wf_lifecycle FS (adv_lifecycle adv)" and "wf_transition FS (adv_transition adv)"
  shows "constructible FS (OLifecycleAdvance adv)"
proof -
  have "dyn_LifecycleAdvance (ORunLifecycle (adv_lifecycle adv)) (OLifecycleTransition (adv_transition adv)) = Inr adv"
    by (simp add: typed_calls)
  from built [OF call_LifecycleAdvance [OF this]] show ?thesis using assms con_lifecycle con_transition by auto
qed

lemma con_checkpoint:
  assumes "wf_checkpoint FS cp"
  shows "constructible FS (ORunCheckpoint cp)"
proof -
  have "new_RunCheckpoint (cp_identity cp) (cp_lifecycle cp) = Inr cp" using assms by (simp add: wf_checkpoint_new)
  from built [OF call_RunCheckpoint [OF trans [OF typed_state(1) this]]] show ?thesis
    using assms con_run_identity con_lifecycle by (auto simp: wf_checkpoint_new)
qed

lemma con_update:
  assumes "wf_update FS u"
  shows "constructible FS (OStateUpdate u)"
proof -
  have "new_StateUpdate (up_expected u) (up_advance u) = Inr u" using assms by (simp add: wf_update_new)
  from built [OF call_StateUpdate [OF trans [OF typed_state(2) this]]] show ?thesis
    using assms con_checkpoint con_advance by (auto simp: wf_update_new)
qed

lemma con_workspace:
  assumes "wf_workspace_identity w"
  shows "constructible FS (OWorkspaceIdentity w)"
proof -
  have "dyn_WorkspaceIdentity (OWorkspaceId (wi_workspace_id w)) (ORunId (wi_run_id w)) (OBaselineSha (wi_baseline_sha w)) = Inr w"
    by (simp add: typed_calls)
  from built [OF call_WorkspaceIdentity [OF this]] show ?thesis
    using assms by (auto simp: wf_workspace_identity_new intro: con_wrappers)
qed

lemma con_candidate:
  assumes "wf_workspace_identity (ca_workspace c)"
    and "new_CandidateSha (candidate_sha_value (ca_candidate_sha c)) = Inr (ca_candidate_sha c)"
  shows "constructible FS (OCandidateIdentity c)"
proof -
  have "dyn_CandidateIdentity (OWorkspaceIdentity (ca_workspace c)) (OCandidateSha (ca_candidate_sha c)) = Inr c"
    by (simp add: typed_calls)
  from built [OF call_CandidateIdentity [OF this]] show ?thesis
    using assms by (auto intro: con_wrappers con_workspace)
qed

lemma con_environment:
  assumes "wf_environment_variable e"
  shows "constructible FS (OEnvironmentVariable e)"
  by (rule built [OF call_EnvironmentVariable [OF trans [OF typed_EnvironmentVariable assms [unfolded wf_environment_variable_new]]]])
    (simp add: con_text)

lemma con_limits:
  assumes "wf_limits l"
  shows "constructible FS (OCommandLimits l)"
proof -
  have "new_CommandLimits (timeout_ms l) (termination_grace_ms l) (stdout_max_bytes l) (stderr_max_bytes l) = Inr l"
    using assms by (simp add: new_CommandLimits_Inr)
  from built [OF call_CommandLimits [OF trans [OF typed_CommandLimits this]]] show ?thesis by (simp add: con_given)
qed

lemma con_request:
  assumes "wf_request r"
  shows "constructible FS (OCommandRequest r)"
proof -
  have new: "new_CommandRequest r = Inr r" using assms by (simp add: wf_request_new)
  have "constructible FS (OTuple (map OEnvironmentVariable (rq_environment r)))"
    using assms by (auto simp: wf_request_new list_all_iff intro!: con_tuple con_environment)
  with assms con_texts show ?thesis
    by (intro built [OF call_CommandRequest [OF trans [OF typed_request new]]])
      (auto simp: wf_request_new con_given intro: con_wrappers con_run_identity con_workspace con_limits)
qed

lemma con_result:
  assumes "wf_result r"
  shows "constructible FS (OExecutionResult r)"
proof -
  have new: "new_ExecutionResult r = Inr r" using assms by (simp add: wf_result_new)
  have "constructible FS (exit_code_object c)" for c
    by (cases c) (simp_all add: exit_code_object_def con_given)
  with assms con_request show ?thesis
    by (intro built [OF call_ExecutionResult [OF trans [OF typed_result new]]])
      (auto simp: wf_result_new con_given con_instant)
qed

lemma con_rule:
  assumes "wf_rule r"
  shows "constructible FS (OCommandRule r)"
proof -
  have "new_CommandRule r = Inr r" using assms by (simp add: wf_rule_new)
  from built [OF call_CommandRule [OF trans [OF typed_rule this]]] show ?thesis
    using assms con_texts by (auto simp: wf_rule_new con_given intro: con_wrappers con_limits)
qed

lemma con_policy:
  assumes "wf_policy p"
  shows "constructible FS (OCommandPolicy p)"
proof -
  have new: "new_CommandPolicy p = Inr p" using assms by (simp add: wf_policy_new)
  have "constructible FS (OTuple (map OCommandRule (po_rules p)))"
    using assms by (auto simp: wf_policy_new list_all_iff intro!: con_tuple con_rule)
  with assms show ?thesis
    by (intro built [OF call_CommandPolicy [OF trans [OF typed_policy new]]])
      (auto simp: wf_policy_new con_given intro: con_wrappers)
qed

lemma con_authorized:
  assumes "wf_authorized a"
  shows "constructible FS (OAuthorizedCommand a)"
proof -
  have "new_AuthorizedCommand a = Inr a" using assms by (simp add: wf_authorized_new)
  from built [OF call_AuthorizedCommand [OF trans [OF typed_AuthorizedCommand this]]] show ?thesis
    using assms con_request con_policy con_rule by (auto simp: wf_authorized_new)
qed

lemma wf_constructible: "wf_object FS v \<Longrightarrow> constructible FS v"
proof (induction FS v rule: wf_object.induct)
  case (2 FS vs)
  then show ?case by (auto simp: list_all_iff intro: con_tuple)
qed (auto intro: con_given con_wrappers con_run_identity con_lifecycle con_transition con_advance con_checkpoint con_update
    con_workspace con_candidate con_environment con_limits con_request con_result con_rule con_policy con_authorized)

section \<open>Properties\<close>

text \<open>C5. Type safety: the objects that any sequence of calls can build, with arguments of any class, are
  exactly the well-formed ones. No sequence of calls gets past the guards, and no guard refuses a
  well-formed value.\<close>

theorem constructible_exactly_wf: "constructible FS v \<longleftrightarrow> wf_object FS v"
  using constructible_wf wf_constructible by blast

end
