(* ===== verification/HostSystem.thy ===== *)
theory HostSystem
  imports PosixPath PyDatetime "HOL-Library.Sublist"
begin

text \<open>
  The part of the host the local adapters use through \<open>pathlib\<close>, \<open>os\<close> and \<open>shutil\<close>: a file
  system with directories, files and symbolic links, and a computation over it that may raise
  or never return. Every system call takes the next tick of the host. At a tick the call runs
  (\<open>Calm\<close>), raises \<open>OSError\<close> (\<open>Denied\<close>), or runs after other processes have changed the file
  system (\<open>Meanwhile\<close>); the removal of a tree may also stop half-way (\<open>Cut\<close>, with the
  entries it had removed).
\<close>

section \<open>Computations\<close>

text \<open>Entries are listed in the order of the file system, which \<open>os.scandir\<close> leaves open.\<close>

type_synonym path = posix_path

datatype node = Dir | File bytes bool | Link str

type_synonym fs = "(str list \<times> node) list"

datatype host_event = Calm | Denied | Meanwhile fs | Cut "str list list"

record host =
  hs_fs :: fs
  hs_tick :: nat
  hs_event :: "nat \<Rightarrow> host_event"

type_synonym ('a, 'h) io = "'h host_scheme \<Rightarrow> ('a res \<times> 'h host_scheme) option"

definition io_return :: "'a \<Rightarrow> ('a, 'h) io" where
  "io_return x h = Some (Inr x, h)"

definition io_raise :: "exn \<Rightarrow> ('a, 'h) io" where
  "io_raise e h = Some (Inl e, h)"

definition io_lift :: "'a res \<Rightarrow> ('a, 'h) io" where
  "io_lift r h = Some (r, h)"

definition io_bind :: "('a, 'h) io \<Rightarrow> ('a \<Rightarrow> ('b, 'h) io) \<Rightarrow> ('b, 'h) io" where
  "io_bind m f h = (case m h of
      None \<Rightarrow> None
    | Some (Inl e, h') \<Rightarrow> Some (Inl e, h')
    | Some (Inr x, h') \<Rightarrow> f x h')"

text \<open>\<open>try: m except <class>: handler\<close>, with the handler deciding which classes it takes.\<close>

definition io_except :: "('a, 'h) io \<Rightarrow> (exn \<Rightarrow> ('a, 'h) io option) \<Rightarrow> ('a, 'h) io" where
  "io_except m handler h = (case m h of
      Some (Inl e, h') \<Rightarrow> (case handler e of None \<Rightarrow> Some (Inl e, h') | Some k \<Rightarrow> k h')
    | out \<Rightarrow> out)"

text \<open>\<open>try: m finally: cleanup\<close>\<close>

definition io_finally :: "('a, 'h) io \<Rightarrow> (unit, 'h) io \<Rightarrow> ('a, 'h) io" where
  "io_finally m cleanup h = (case m h of
      None \<Rightarrow> None
    | Some (r, h') \<Rightarrow> (case cleanup h' of
          None \<Rightarrow> None
        | Some (Inl e, h'') \<Rightarrow> Some (Inl e, h'')
        | Some (Inr _, h'') \<Rightarrow> Some (r, h'')))"

text \<open>A loop: each round returns, goes round again, or raises. It need not end.\<close>

partial_function (option) io_loop ::
  "('a \<Rightarrow> 'h host_scheme \<Rightarrow> (('b + 'a) res \<times> 'h host_scheme) option) \<Rightarrow> 'a \<Rightarrow> 'h host_scheme \<Rightarrow>
   ('b res \<times> 'h host_scheme) option" where
  "io_loop body a h = Option.bind (body a h) (\<lambda>(r, h'). case r of
      Inl e \<Rightarrow> Some (Inl e, h')
    | Inr (Inl b) \<Rightarrow> Some (Inr b, h')
    | Inr (Inr a') \<Rightarrow> io_loop body a' h')"

declare io_loop.simps [code]

section \<open>Weakest preconditions\<close>

text \<open>What holds of the outcome whenever there is one.\<close>

definition wlp :: "('a, 'h) io \<Rightarrow> ('a res \<Rightarrow> 'h host_scheme \<Rightarrow> bool) \<Rightarrow> 'h host_scheme \<Rightarrow> bool" where
  "wlp m Q h \<longleftrightarrow> (case m h of None \<Rightarrow> True | Some (r, h') \<Rightarrow> Q r h')"

lemma wlp_simps [simp]:
  "wlp (io_return x) Q h = Q (Inr x) h"
  "wlp (io_raise e) Q h = Q (Inl e) h"
  "wlp (io_lift r) Q h = Q r h"
  by (simp_all add: wlp_def io_return_def io_raise_def io_lift_def)

lemma wlp_bind:
  "wlp (io_bind m f) Q h = wlp m (\<lambda>r h'. case r of Inl e \<Rightarrow> Q (Inl e) h' | Inr x \<Rightarrow> wlp (f x) Q h') h"
  by (auto simp: wlp_def io_bind_def split: option.splits sum.splits)

lemma wlp_except:
  "wlp (io_except m k) Q h =
    wlp m (\<lambda>r h'. case r of Inl e \<Rightarrow> (case k e of None \<Rightarrow> Q (Inl e) h' | Some c \<Rightarrow> wlp c Q h') | Inr x \<Rightarrow> Q (Inr x) h') h"
  by (auto simp: wlp_def io_except_def split: option.splits sum.splits)

lemma wlp_finally:
  "wlp (io_finally m c) Q h =
    wlp m (\<lambda>r h'. wlp c (\<lambda>u h''. case u of Inl e \<Rightarrow> Q (Inl e) h'' | Inr _ \<Rightarrow> Q r h'') h') h"
  by (auto simp: wlp_def io_finally_def split: option.splits sum.splits)

lemma wlp_mono: "wlp m Q h \<Longrightarrow> (\<And>r h'. Q r h' \<Longrightarrow> R r h') \<Longrightarrow> wlp m R h"
  by (auto simp: wlp_def split: option.splits)

lemma wlp_conj: "wlp m Q h \<Longrightarrow> wlp m R h \<Longrightarrow> wlp m (\<lambda>r h'. Q r h' \<and> R r h') h"
  by (auto simp: wlp_def split: option.splits)

lemma wlp_True [simp]: "wlp m (\<lambda>_ _. True) h"
  by (simp add: wlp_def split: option.splits)

lemma wlpD: "wlp m Q h \<Longrightarrow> m h = Some (r, h') \<Longrightarrow> Q r h'"
  by (simp add: wlp_def)

lemma wlp_if: "wlp (if b then m else n) Q h = (if b then wlp m Q h else wlp n Q h)"
  by simp

lemmas wlp_unfold = wlp_bind wlp_except wlp_finally wlp_if

text \<open>An invariant of the rounds holds of whatever the loop comes to.\<close>

lemma wlp_loop:
  assumes "P a h"
    and step: "\<And>a h. P a h \<Longrightarrow> wlp (body a) (\<lambda>r h'. case r of
        Inl e \<Rightarrow> Q (Inl e) h' | Inr (Inl b) \<Rightarrow> Q (Inr b) h' | Inr (Inr a') \<Rightarrow> P a' h') h"
  shows "wlp (io_loop body a) Q h"
proof -
  have "body' = body \<longrightarrow> P a h \<longrightarrow> Q (fst out) (snd out)" if "io_loop body' a h = Some out" for body' a h out
  proof (rule io_loop.raw_induct [where P = "\<lambda>b a h out. b = body \<longrightarrow> P a h \<longrightarrow> Q (fst out) (snd out)", OF _ that])
    fix loop body' a h out
    assume 1: "\<And>b a h out. loop b a h = Some out \<Longrightarrow> b = body \<longrightarrow> P a h \<longrightarrow> Q (fst out) (snd out)"
      "Option.bind (body' a h) (\<lambda>(r, h'). case r of Inl e \<Rightarrow> Some (Inl e, h') | Inr (Inl b) \<Rightarrow> Some (Inr b, h')
        | Inr (Inr a') \<Rightarrow> loop body' a' h') = Some out"
    show "body' = body \<longrightarrow> P a h \<longrightarrow> Q (fst out) (snd out)"
    proof (intro impI)
      assume "body' = body" and p: "P a h"
      then obtain r h' where "body a h = Some (r, h')"
        and out: "(case r of Inl e \<Rightarrow> Some (Inl e, h') | Inr (Inl b) \<Rightarrow> Some (Inr b, h') | Inr (Inr a') \<Rightarrow> loop body a' h') = Some out"
        using 1(2) by (auto simp: bind_eq_Some_conv)
      with step [OF p] have "case r of Inl e \<Rightarrow> Q (Inl e) h' | Inr (Inl b) \<Rightarrow> Q (Inr b) h' | Inr (Inr a') \<Rightarrow> P a' h'"
        by (simp add: wlp_def)
      with out 1(1) show "Q (fst out) (snd out)"
        by (auto split: sum.splits)
    qed
  qed
  then show ?thesis using assms(1) by (auto simp: wlp_def split: option.splits)
qed

text \<open>A loop whose rounds return and count down comes to an end.\<close>

lemma io_loop_ends:
  assumes "P a h"
    and step: "\<And>a h. P a h \<Longrightarrow> \<exists>r h'. body a h = Some (r, h') \<and>
        (\<forall>a'. r = Inr (Inr a') \<longrightarrow> P a' h' \<and> measure_of a' h' < (measure_of a h :: nat))"
  shows "\<exists>out. io_loop body a h = Some out"
  using assms(1)
proof (induction "measure_of a h" arbitrary: a h rule: less_induct)
  case less
  obtain r h' where r: "body a h = Some (r, h')"
    "\<And>a'. r = Inr (Inr a') \<Longrightarrow> P a' h' \<and> measure_of a' h' < measure_of a h"
    using step [OF less.prems] by blast
  show ?case
  proof (cases "\<exists>a'. r = Inr (Inr a')")
    case True
    then obtain a' where "r = Inr (Inr a')" by blast
    then show ?thesis using r less.hyps by (subst io_loop.simps) simp
  next
    case False
    then show ?thesis using r by (subst io_loop.simps) (auto split: sum.splits)
  qed
qed

section \<open>The file system\<close>

definition node_at :: "fs \<Rightarrow> str list \<Rightarrow> node option" where
  "node_at f c = (if c = [] then Some Dir else map_of f c)"

text \<open>
  Following a path: \<open>..\<close> goes up, a link is replaced by its target, read from the root or from
  the directory that holds it, and after 40 links the host gives up (\<open>ELOOP\<close>). The result is
  the place reached, when there is something.
\<close>

function fs_walk :: "fs \<Rightarrow> nat \<Rightarrow> str list \<Rightarrow> str list \<Rightarrow> str list option" where
  "fs_walk f n cur [] = Some cur"
| "fs_walk f n cur (c # cs) =
    (if c = [46, 46] then fs_walk f n (butlast cur) cs
     else case node_at f (cur @ [c]) of
       None \<Rightarrow> None
     | Some Dir \<Rightarrow> fs_walk f n (cur @ [c]) cs
     | Some (File b x) \<Rightarrow> if cs = [] then Some (cur @ [c]) else None
     | Some (Link t) \<Rightarrow> if n = 0 then None
         else let p = pure_posix_path t in
           fs_walk f (n - 1) (if is_absolute p then [] else cur) (path_tail p @ cs))"
  by pat_completeness auto
termination
  by (relation "measures [\<lambda>(f, n, cur, cs). n, \<lambda>(f, n, cur, cs). length cs]") auto

definition follow :: "fs \<Rightarrow> path \<Rightarrow> str list option" where
  "follow f p = fs_walk f 40 [] (path_tail p)"

text \<open>The place of a path whose last component is not followed.\<close>

definition no_follow :: "fs \<Rightarrow> path \<Rightarrow> str list option" where
  "no_follow f p = (if path_tail p = [] then Some []
     else if last (path_tail p) = [46, 46] then follow f p
     else map_option (\<lambda>d. d @ [last (path_tail p)]) (fs_walk f 40 [] (butlast (path_tail p))))"

definition root_path :: path where
  "root_path = \<lparr>path_root = [47], path_tail = []\<rparr>"

definition host_path :: "str list \<Rightarrow> path" where
  "host_path c = \<lparr>path_root = [47], path_tail = c\<rparr>"

definition lstat_node :: "fs \<Rightarrow> path \<Rightarrow> node option" where
  "lstat_node f p = Option.bind (no_follow f p) (node_at f)"

definition stat_node :: "fs \<Rightarrow> path \<Rightarrow> node option" where
  "stat_node f p = Option.bind (follow f p) (node_at f)"

definition fs_is_symlink :: "fs \<Rightarrow> path \<Rightarrow> bool" where
  "fs_is_symlink f p \<longleftrightarrow> (case lstat_node f p of Some (Link t) \<Rightarrow> True | _ \<Rightarrow> False)"

definition fs_is_dir :: "fs \<Rightarrow> path \<Rightarrow> bool" where
  "fs_is_dir f p \<longleftrightarrow> stat_node f p = Some Dir"

definition fs_is_file :: "fs \<Rightarrow> path \<Rightarrow> bool" where
  "fs_is_file f p \<longleftrightarrow> (case stat_node f p of Some (File b x) \<Rightarrow> True | _ \<Rightarrow> False)"

definition fs_exists :: "fs \<Rightarrow> path \<Rightarrow> bool" where
  "fs_exists f p \<longleftrightarrow> stat_node f p \<noteq> None"

definition fs_executable :: "fs \<Rightarrow> path \<Rightarrow> bool" where
  "fs_executable f p \<longleftrightarrow> (case stat_node f p of Some (File b x) \<Rightarrow> x | Some Dir \<Rightarrow> True | _ \<Rightarrow> False)"

definition fs_resolve :: "fs \<Rightarrow> path \<Rightarrow> path res" where
  "fs_resolve f p = (case follow f p of None \<Rightarrow> Inl OSError | Some c \<Rightarrow> Inr (host_path c))"

definition fs_read :: "fs \<Rightarrow> path \<Rightarrow> bytes res" where
  "fs_read f p = (case stat_node f p of Some (File b x) \<Rightarrow> Inr b | _ \<Rightarrow> Inl OSError)"

section \<open>Changes of the file system\<close>

definition fs_remove_tree :: "fs \<Rightarrow> str list \<Rightarrow> fs" where
  "fs_remove_tree f c = filter (\<lambda>qn. \<not> prefix c (fst qn)) f"

definition fs_unlink :: "path \<Rightarrow> fs \<Rightarrow> unit res \<times> fs" where
  "fs_unlink p f = (case no_follow f p of
      None \<Rightarrow> (Inl OSError, f)
    | Some c \<Rightarrow> if node_at f c = None \<or> node_at f c = Some Dir then (Inl OSError, f)
        else (Inr (), filter (\<lambda>qn. fst qn \<noteq> c) f))"

definition fs_mkdir :: "path \<Rightarrow> fs \<Rightarrow> unit res \<times> fs" where
  "fs_mkdir p f = (case no_follow f p of
      None \<Rightarrow> (Inl OSError, f)
    | Some c \<Rightarrow> if node_at f c \<noteq> None \<or> node_at f (butlast c) \<noteq> Some Dir then (Inl OSError, f)
        else (Inr (), (c, Dir) # f))"

definition fs_move :: "fs \<Rightarrow> str list \<Rightarrow> str list \<Rightarrow> fs" where
  "fs_move f a b =
    map (\<lambda>qn. (if prefix a (fst qn) then b @ drop (length a) (fst qn) else fst qn, snd qn)) (fs_remove_tree f b)"

text \<open>\<open>rename\<close>: a file replaces a file, a directory an empty directory, nothing moves into itself.\<close>

definition may_replace :: "fs \<Rightarrow> node \<Rightarrow> str list \<Rightarrow> bool" where
  "may_replace f n b \<longleftrightarrow> (case node_at f b of
      None \<Rightarrow> node_at f (butlast b) = Some Dir
    | Some Dir \<Rightarrow> n = Dir \<and> list_all (\<lambda>qn. \<not> strict_prefix b (fst qn)) f
    | Some _ \<Rightarrow> n \<noteq> Dir)"

definition fs_rename :: "path \<Rightarrow> path \<Rightarrow> fs \<Rightarrow> unit res \<times> fs" where
  "fs_rename p q f = (case (no_follow f p, no_follow f q) of
      (Some a, Some b) \<Rightarrow> (case node_at f a of
          None \<Rightarrow> (Inl OSError, f)
        | Some n \<Rightarrow> if a = b then (Inr (), f)
            else if a = [] \<or> b = [] \<or> prefix a b \<or> \<not> may_replace f n b then (Inl OSError, f)
            else (Inr (), fs_move f a b))
    | _ \<Rightarrow> (Inl OSError, f))"

section \<open>System calls\<close>

text \<open>The file system a call finds, and the host after the call.\<close>

definition found_fs :: "'h host_scheme \<Rightarrow> fs" where
  "found_fs h = (case hs_event h (hs_tick h) of Meanwhile f \<Rightarrow> f | _ \<Rightarrow> hs_fs h)"

definition after :: "fs \<Rightarrow> 'h host_scheme \<Rightarrow> 'h host_scheme" where
  "after f h = h\<lparr>hs_tick := Suc (hs_tick h), hs_fs := f\<rparr>"

definition denied :: "'h host_scheme \<Rightarrow> bool" where
  "denied h \<longleftrightarrow> (case hs_event h (hs_tick h) of Denied \<Rightarrow> True | Cut gone \<Rightarrow> True | _ \<Rightarrow> False)"

definition sys :: "(fs \<Rightarrow> 'a res \<times> fs) \<Rightarrow> ('a, 'h) io" where
  "sys call h =
    (if denied h then Some (Inl OSError, after (found_fs h) h)
     else case call (found_fs h) of (r, f) \<Rightarrow> Some (r, after f h))"

definition sys_test :: "(fs \<Rightarrow> bool) \<Rightarrow> (bool, 'h) io" where
  "sys_test P = sys (\<lambda>f. (Inr (P f), f))"

abbreviation is_symlink :: "path \<Rightarrow> (bool, 'h) io" where "is_symlink p \<equiv> sys_test (\<lambda>f. fs_is_symlink f p)"
abbreviation is_dir :: "path \<Rightarrow> (bool, 'h) io" where "is_dir p \<equiv> sys_test (\<lambda>f. fs_is_dir f p)"
abbreviation is_file :: "path \<Rightarrow> (bool, 'h) io" where "is_file p \<equiv> sys_test (\<lambda>f. fs_is_file f p)"
abbreviation path_exists :: "path \<Rightarrow> (bool, 'h) io" where "path_exists p \<equiv> sys_test (\<lambda>f. fs_exists f p)"

definition resolve_strict :: "path \<Rightarrow> (path, 'h) io" where
  "resolve_strict p = sys (\<lambda>f. (fs_resolve f p, f))"

definition read_bytes :: "path \<Rightarrow> (bytes, 'h) io" where
  "read_bytes p = sys (\<lambda>f. (fs_read f p, f))"

text \<open>\<open>os.access(p, os.X_OK)\<close> never raises.\<close>

definition access_x :: "path \<Rightarrow> (bool, 'h) io" where
  "access_x p = io_except (sys_test (\<lambda>f. fs_executable f p))
    (\<lambda>e. if e = OSError then Some (io_return False) else None)"

definition unlink :: "path \<Rightarrow> (unit, 'h) io" where "unlink p = sys (fs_unlink p)"
definition mkdir :: "path \<Rightarrow> (unit, 'h) io" where "mkdir p = sys (fs_mkdir p)"
definition rename :: "path \<Rightarrow> path \<Rightarrow> (unit, 'h) io" where "rename p q = sys (fs_rename p q)"

text \<open>\<open>shutil.rmtree\<close> refuses a symbolic link; when it fails half-way some entries are gone.\<close>

definition rmtree :: "path \<Rightarrow> (unit, 'h) io" where
  "rmtree p h = (let f = found_fs h in
     case hs_event h (hs_tick h) of
       Denied \<Rightarrow> Some (Inl OSError, after f h)
     | Cut gone \<Rightarrow> Some (Inl OSError, after (case no_follow f p of
           None \<Rightarrow> f
         | Some c \<Rightarrow> if node_at f c = Some Dir then filter (\<lambda>qn. \<not> (strict_prefix c (fst qn) \<and> fst qn \<in> set gone)) f else f) h)
     | _ \<Rightarrow> (case no_follow f p of
           None \<Rightarrow> Some (Inl OSError, after f h)
         | Some c \<Rightarrow> if node_at f c = Some Dir then Some (Inr (), after (fs_remove_tree f c) h)
             else Some (Inl OSError, after f h)))"

section \<open>Paths\<close>

definition path_div :: "path \<Rightarrow> str \<Rightarrow> path" where
  "path_div p s = (let q = pure_posix_path s in
     if is_absolute q then q else p\<lparr>path_tail := path_tail p @ path_tail q\<rparr>)"

definition path_parent :: "path \<Rightarrow> path" where
  "path_parent p = p\<lparr>path_tail := butlast (path_tail p)\<rparr>"

definition path_name :: "path \<Rightarrow> str" where
  "path_name p = (case path_tail p of [] \<Rightarrow> [] | _ \<Rightarrow> last (path_tail p))"

definition is_relative_to :: "path \<Rightarrow> path \<Rightarrow> bool" where
  "is_relative_to p q \<longleftrightarrow> path_root p = path_root q \<and> prefix (path_tail q) (path_tail p)"

definition relative_to :: "path \<Rightarrow> path \<Rightarrow> path res" where
  "relative_to p q = (if is_relative_to p q
     then Inr \<lparr>path_root = [], path_tail = drop (length (path_tail q)) (path_tail p)\<rparr> else Inl ValueError)"

section \<open>Places\<close>

text \<open>A place without links on the way: what resolving gives, and all it keeps unchanged.\<close>

definition real_place :: "fs \<Rightarrow> str list \<Rightarrow> bool" where
  "real_place f c \<longleftrightarrow> (\<forall>k < length c. node_at f (take k c) = Some Dir) \<and>
     (\<exists>n. node_at f c = Some n \<and> (\<forall>t. n \<noteq> Link t)) \<and> [46, 46] \<notin> set c"

definition real_dir :: "fs \<Rightarrow> str list \<Rightarrow> bool" where
  "real_dir f c \<longleftrightarrow> (\<forall>k \<le> length c. node_at f (take k c) = Some Dir) \<and> [46, 46] \<notin> set c"

lemma real_dir_place: "real_dir f c \<longleftrightarrow> real_place f c \<and> node_at f c = Some Dir"
  by (auto simp: real_dir_def real_place_def le_less)

lemma real_dir_Nil [simp]: "real_dir f []"
  by (simp add: real_dir_def node_at_def)

lemma real_dir_snoc:
  "real_dir f (c @ [x]) \<longleftrightarrow> real_dir f c \<and> node_at f (c @ [x]) = Some Dir \<and> x \<noteq> [46, 46]"
  by (auto simp: real_dir_def le_Suc_eq)

lemma real_dir_butlast: "real_dir f c \<Longrightarrow> real_dir f (butlast c)"
  by (cases c rule: rev_cases) (simp_all add: real_dir_snoc)

lemma fs_walk_real:
  "fs_walk f n cur cs = Some c \<Longrightarrow> real_dir f cur \<Longrightarrow> real_place f c"
proof (induction f n cur cs rule: fs_walk.induct)
  case (1 f n cur)
  then show ?case by (simp add: real_dir_place)
next
  case (2 f n cur c' cs)
  show ?case
  proof (cases "c' = [46, 46]")
    case True
    then show ?thesis using 2 real_dir_butlast by simp
  next
    case no: False
    show ?thesis
    proof (cases "node_at f (cur @ [c'])")
      case None
      then show ?thesis using 2(4) no by simp
    next
      case (Some n)
      show ?thesis
      proof (cases n)
        case Dir
        then show ?thesis using 2 no Some by (simp add: real_dir_snoc)
      next
        case (File b x)
        then have "c = cur @ [c']" using 2(4) no Some by (simp split: if_splits)
        then show ?thesis
          using Some File no 2(5) by (auto simp: real_place_def real_dir_def less_Suc_eq_le)
      next
        case (Link t)
        then show ?thesis using 2 no Some by (auto simp: Let_def split: if_splits)
      qed
    qed
  qed
qed

lemma fs_walk_real_id:
  "real_place f (cur @ cs) \<Longrightarrow> fs_walk f n cur cs = Some (cur @ cs)"
proof (induction cs arbitrary: cur)
  case (Cons c cs)
  then have ne: "c \<noteq> [46, 46]" and dirs: "\<And>k. k < length (cur @ c # cs) \<Longrightarrow> node_at f (take k (cur @ c # cs)) = Some Dir"
    and place: "\<exists>n. node_at f (cur @ c # cs) = Some n \<and> (\<forall>t. n \<noteq> Link t)"
    unfolding real_place_def by auto
  show ?case
  proof (cases "cs = []")
    case True
    then show ?thesis using place ne by (auto split: node.splits)
  next
    case False
    then have "node_at f (cur @ [c]) = Some Dir"
      using dirs [of "Suc (length cur)"] by simp
    then show ?thesis using Cons.IH [of "cur @ [c]"] Cons.prems ne by simp
  qed
qed simp

lemma follow_real: "follow f p = Some c \<Longrightarrow> real_place f c"
  unfolding follow_def using fs_walk_real [OF _ real_dir_Nil] by blast

text \<open>A path resolves to itself exactly when no link is on the way and it has no \<open>..\<close>.\<close>

lemma resolve_self_iff:
  "fs_resolve f p = Inr p \<longleftrightarrow> path_root p = [47] \<and> real_place f (path_tail p)"
  using follow_real [of f p] fs_walk_real_id [of f "[]" "path_tail p" 40]
  by (cases p) (auto simp: fs_resolve_def follow_def host_path_def split: option.splits)

lemma real_place_butlast: "real_place f c \<Longrightarrow> c \<noteq> [] \<Longrightarrow> real_dir f (butlast c)"
  by (cases c rule: rev_cases) (auto simp: real_place_def real_dir_def less_Suc_eq_le)

lemma no_follow_real:
  assumes "real_place f (path_tail p)"
  shows "no_follow f p = Some (path_tail p)"
proof (cases "path_tail p = []")
  case False
  have "real_place f (butlast (path_tail p))"
    using real_place_butlast [OF assms False] real_dir_place by blast
  then have "fs_walk f 40 [] (butlast (path_tail p)) = Some (butlast (path_tail p))"
    using fs_walk_real_id [of f "[]"] by simp
  moreover have "last (path_tail p) \<noteq> [46, 46]"
    using assms last_in_set [OF False] unfolding real_place_def by metis
  ultimately show ?thesis
    using False by (simp add: no_follow_def del: fs_walk.simps)
qed (simp add: no_follow_def)

lemma stat_real: "real_place f c \<Longrightarrow> stat_node f (host_path c) = node_at f c"
  using fs_walk_real_id [of f "[]" c 40] by (simp add: stat_node_def follow_def host_path_def)

end
