(* ===== verification/PinnedFile.thy ===== *)
theory PinnedFile
  imports HostSystem Sha256
begin

text \<open>
  Executables pinned by path and content, the common part of \<open>TrustedExecutable\<close> in
  \<open>adapters/local/command_executor.py\<close> and \<open>_PinnedBubblewrap\<close> in
  \<open>adapters/local/linux_process_sandbox.py\<close>: both resolve and hash an absolute path when they
  are made and compare path, file type, permission and content again before each use.
\<close>

record pinned_file =
  pin_path :: path
  pin_sha256 :: bytes

definition file_sha256 :: "path \<Rightarrow> (bytes, 'h) io" where
  "file_sha256 p = io_bind (read_bytes p) (\<lambda>b. io_return (sha256_digest b))"

text \<open>\<open>except OSError as error: raise e from error\<close>\<close>

definition on_os_error :: "exn \<Rightarrow> exn \<Rightarrow> ('a, 'h) io option" where
  "on_os_error e x = (if x = OSError then Some (io_raise e) else None)"

definition pin_file :: "path \<Rightarrow> (pinned_file, 'h) io" where
  "pin_file p =
    io_bind (if \<not> is_absolute p then io_return True else is_symlink p) (\<lambda>bad.
    if bad then io_raise ValueError
    else io_except (
      io_bind (resolve_strict p) (\<lambda>resolved.
      io_bind (if resolved \<noteq> p then io_return True
        else io_bind (is_file resolved) (\<lambda>file. if \<not> file then io_return True
          else io_bind (access_x resolved) (\<lambda>x. io_return (\<not> x)))) (\<lambda>bad.
      if bad then io_raise ValueError
      else io_bind (file_sha256 resolved) (\<lambda>digest.
        io_return \<lparr>pin_path = resolved, pin_sha256 = digest\<rparr>)))) (on_os_error ValueError))"

text \<open>The tests of \<open>verify\<close>, each made only when the ones before it found nothing.\<close>

definition pin_changed :: "pinned_file \<Rightarrow> (bool, 'h) io" where
  "pin_changed f =
    io_bind (is_symlink (pin_path f)) (\<lambda>link. if link then io_return True
    else io_bind (resolve_strict (pin_path f)) (\<lambda>resolved. if resolved \<noteq> pin_path f then io_return True
    else io_bind (is_file (pin_path f)) (\<lambda>file. if \<not> file then io_return True
    else io_bind (access_x (pin_path f)) (\<lambda>x. if \<not> x then io_return True
    else io_bind (file_sha256 (pin_path f)) (\<lambda>digest. io_return (digest \<noteq> pin_sha256 f))))))"

definition verify_pin :: "exn \<Rightarrow> exn \<Rightarrow> pinned_file \<Rightarrow> (unit, 'h) io" where
  "verify_pin changed unavailable f =
    io_except (io_bind (pin_changed f) (\<lambda>c. if c then io_raise changed else io_return ()))
      (on_os_error unavailable)"

section \<open>What a check establishes\<close>

text \<open>In a file system: the path is free of links and the file is executable with the pinned content.\<close>

definition pin_intact :: "fs \<Rightarrow> pinned_file \<Rightarrow> bool" where
  "pin_intact fs f \<longleftrightarrow> path_root (pin_path f) = [47] \<and> real_place fs (path_tail (pin_path f)) \<and>
     (\<exists>b. node_at fs (path_tail (pin_path f)) = Some (File b True) \<and> sha256_digest b = pin_sha256 f)"

text \<open>Hosts on which no call fails and nothing else changes the file system.\<close>

definition calm :: "'h host_scheme \<Rightarrow> bool" where
  "calm h \<longleftrightarrow> (\<forall>n \<ge> hs_tick h. hs_event h n = Calm)"

lemma calm_after [simp]: "calm h \<Longrightarrow> calm (after f h)"
  by (simp add: calm_def after_def)

lemma calm_sys: "calm h \<Longrightarrow> sys call h = (case call (hs_fs h) of (r, f) \<Rightarrow> Some (r, after f h))"
  by (simp add: sys_def calm_def denied_def found_fs_def)

lemma hs_fs_after [simp]: "hs_fs (after f h) = f"
  by (simp add: after_def)

text \<open>A computation that leaves a calm host calm and its file system alone.\<close>

definition reads_only :: "('a, 'h) io \<Rightarrow> 'h host_scheme \<Rightarrow> ('a res \<Rightarrow> bool) \<Rightarrow> bool" where
  "reads_only m h P \<longleftrightarrow> (\<exists>r h'. m h = Some (r, h') \<and> P r \<and> hs_fs h' = hs_fs h \<and> calm h')"

lemma reads_only_return: "calm h \<Longrightarrow> reads_only (io_return x) h P \<longleftrightarrow> P (Inr x)"
  by (simp add: reads_only_def io_return_def)

lemma reads_only_raise: "calm h \<Longrightarrow> reads_only (io_raise e) h P \<longleftrightarrow> P (Inl e)"
  by (simp add: reads_only_def io_raise_def)

lemma reads_only_bind:
  assumes "reads_only m h (\<lambda>r. case r of Inl e \<Rightarrow> P (Inl e) | Inr x \<Rightarrow>
      \<forall>h'. calm h' \<and> hs_fs h' = hs_fs h \<longrightarrow> reads_only (f x) h' P)"
  shows "reads_only (io_bind m f) h P"
proof -
  obtain r h' where "m h = Some (r, h')" "hs_fs h' = hs_fs h" "calm h'"
    and "case r of Inl e \<Rightarrow> P (Inl e) | Inr x \<Rightarrow> \<forall>h'. calm h' \<and> hs_fs h' = hs_fs h \<longrightarrow> reads_only (f x) h' P"
    using assms unfolding reads_only_def by blast
  then show ?thesis by (cases r) (auto simp: reads_only_def io_bind_def)
qed

lemma reads_only_except:
  assumes "reads_only m h (\<lambda>r. case r of Inr x \<Rightarrow> P (Inr x) | Inl e \<Rightarrow> (case k e of
      None \<Rightarrow> P (Inl e) | Some c \<Rightarrow> \<forall>h'. calm h' \<and> hs_fs h' = hs_fs h \<longrightarrow> reads_only c h' P))"
  shows "reads_only (io_except m k) h P"
proof -
  obtain r h' where r: "m h = Some (r, h')" "hs_fs h' = hs_fs h" "calm h'"
    and "case r of Inr x \<Rightarrow> P (Inr x) | Inl e \<Rightarrow> (case k e of
      None \<Rightarrow> P (Inl e) | Some c \<Rightarrow> \<forall>h'. calm h' \<and> hs_fs h' = hs_fs h \<longrightarrow> reads_only c h' P)"
    using assms unfolding reads_only_def by blast
  then show ?thesis
    by (cases r) (auto simp: reads_only_def io_except_def split: option.splits)
qed

lemma reads_only_mono: "reads_only m h P \<Longrightarrow> (\<And>r. P r \<Longrightarrow> Q r) \<Longrightarrow> reads_only m h Q"
  by (auto simp: reads_only_def)

lemma reads_only_test: "calm h \<Longrightarrow> reads_only (sys_test T) h P \<longleftrightarrow> P (Inr (T (hs_fs h)))"
  by (simp add: reads_only_def sys_test_def calm_sys)

lemma reads_only_resolve: "calm h \<Longrightarrow> reads_only (resolve_strict p) h P \<longleftrightarrow> P (fs_resolve (hs_fs h) p)"
  by (simp add: reads_only_def resolve_strict_def calm_sys)

lemma reads_only_read: "calm h \<Longrightarrow> reads_only (read_bytes p) h P \<longleftrightarrow> P (fs_read (hs_fs h) p)"
  by (simp add: reads_only_def read_bytes_def calm_sys)

lemma reads_only_access: "calm h \<Longrightarrow> P (Inr (fs_executable (hs_fs h) p)) \<Longrightarrow> reads_only (access_x p) h P"
  unfolding access_x_def by (intro reads_only_except) (simp add: reads_only_test)

lemma pin_changed_calm:
  assumes "calm h"
  shows "reads_only (pin_changed f) h (\<lambda>r. (r = Inr False \<longleftrightarrow> pin_intact (hs_fs h) f) \<and>
    (\<forall>e. r = Inl e \<longrightarrow> e = OSError))"
proof (cases "path_root (pin_path f) = [47] \<and> real_place (hs_fs h) (path_tail (pin_path f))")
  case False
  then have "\<not> pin_intact (hs_fs h) f" "fs_resolve (hs_fs h) (pin_path f) \<noteq> Inr (pin_path f)"
    by (auto simp: pin_intact_def resolve_self_iff)
  then show ?thesis
    unfolding pin_changed_def
    by (auto simp: assms reads_only_test reads_only_resolve reads_only_return fs_resolve_def
        intro!: reads_only_bind split: option.splits)
next
  case True
  let ?c = "path_tail (pin_path f)"
  have p: "pin_path f = host_path ?c" using True by (cases "pin_path f") (simp add: host_path_def)
  have stat: "stat_node (hs_fs h) (pin_path f) = node_at (hs_fs h) ?c"
    using stat_real True p by metis
  have res: "fs_resolve (hs_fs h) (pin_path f) = Inr (pin_path f)" using True by (simp add: resolve_self_iff)
  have intact: "pin_intact (hs_fs h) f \<longleftrightarrow>
      (\<exists>b. node_at (hs_fs h) ?c = Some (File b True) \<and> sha256_digest b = pin_sha256 f)"
    using True by (simp add: pin_intact_def)
  have link: "\<not> fs_is_symlink (hs_fs h) (pin_path f)"
  proof -
    obtain n where "node_at (hs_fs h) ?c = Some n" "\<forall>t. n \<noteq> Link t"
      using True unfolding real_place_def by blast
    then show ?thesis
      using True no_follow_real [of "hs_fs h" "pin_path f"]
      by (cases n) (simp_all add: fs_is_symlink_def lstat_node_def)
  qed
  show ?thesis
    unfolding pin_changed_def file_sha256_def
    by (auto simp: assms reads_only_test reads_only_resolve reads_only_return reads_only_read link res intact
        fs_is_file_def fs_executable_def fs_read_def stat
        intro!: reads_only_bind reads_only_access split: option.splits node.splits)
qed

end
