(* ===== verification/HostProcess.thy ===== *)
theory HostProcess
  imports Complex_Main HostSystem
begin

text \<open>
  Child processes and clocks, the part of \<open>subprocess\<close>, \<open>selectors\<close>, \<open>os\<close> and \<open>time\<close> that the
  sandbox and the Git primitive use. What a child does is not known: at each tick its record
  says which of its pipes are ready, what a read gives, and whether it has exited. A blocking
  wait for a child that never exits does not return. The host keeps the invocations it has
  started and the children nobody has seen exit. Clock readings are exact numbers of seconds.
\<close>

datatype out_stream = STDOUT | STDERR
datatype read_answer = Chunk bytes | WouldBlock

record process =
  pr_pid :: nat
  pr_piped :: "out_stream \<Rightarrow> bool"
  pr_ready :: "nat \<Rightarrow> out_stream list"
  pr_read :: "nat \<Rightarrow> out_stream \<Rightarrow> read_answer"
  pr_poll :: "nat \<Rightarrow> int option"
  pr_wait :: "nat \<Rightarrow> int option"
  pr_wait_for :: "nat \<Rightarrow> int option"

record popen =
  po_argv :: "str list"
  po_cwd :: path
  po_env :: "(str \<times> str) list"

record process_host = host +
  hs_clock :: "nat \<Rightarrow> rat"
  hs_utc :: "nat \<Rightarrow> datetime"
  hs_children :: "nat \<Rightarrow> popen \<Rightarrow> process"
  hs_started :: "popen list"
  hs_unseen :: "nat list"

text \<open>A call that only tells something and does not fail.\<close>

definition observe :: "('h host_scheme \<Rightarrow> 'a) \<Rightarrow> ('a, 'h) io" where
  "observe g h = Some (Inr (g h), after (found_fs h) h)"

definition monotonic :: "(rat, 'h process_host_ext) io" where
  "monotonic = observe (\<lambda>h. hs_clock h (hs_tick h))"

definition utc_now :: "(datetime, 'h process_host_ext) io" where
  "utc_now = observe (\<lambda>h. hs_utc h (hs_tick h))"

text \<open>\<open>subprocess.Popen\<close>: the child's number is the tick it was started at.\<close>

definition spawn :: "popen \<Rightarrow> (process, 'h process_host_ext) io" where
  "spawn p h =
    (if denied h then Some (Inl OSError, after (found_fs h) h)
     else Some (Inr ((hs_children h (hs_tick h) p)\<lparr>pr_pid := hs_tick h\<rparr>),
       (after (found_fs h) h)\<lparr>hs_started := hs_started h @ [p], hs_unseen := hs_tick h # hs_unseen h\<rparr>))"

definition seen_exit :: "process \<Rightarrow> 'h process_host_scheme \<Rightarrow> 'h process_host_scheme" where
  "seen_exit p h = h\<lparr>hs_unseen := removeAll (pr_pid p) (hs_unseen h)\<rparr>"

definition poll :: "process \<Rightarrow> (int option, 'h process_host_ext) io" where
  "poll p h = (let h' = after (found_fs h) h in case pr_poll p (hs_tick h) of
      None \<Rightarrow> Some (Inr None, h') | Some c \<Rightarrow> Some (Inr (Some c), seen_exit p h'))"

definition wait :: "process \<Rightarrow> (int, 'h process_host_ext) io" where
  "wait p h = (let h' = after (found_fs h) h in case pr_wait p (hs_tick h) of
      None \<Rightarrow> None | Some c \<Rightarrow> Some (Inr c, seen_exit p h'))"

definition wait_for :: "process \<Rightarrow> rat \<Rightarrow> (int, 'h process_host_ext) io" where
  "wait_for p timeout h = (let h' = after (found_fs h) h in case pr_wait_for p (hs_tick h) of
      None \<Rightarrow> Some (Inl TimeoutExpired, h') | Some c \<Rightarrow> Some (Inr c, seen_exit p h'))"

datatype signal = SIGTERM | SIGKILL

definition killpg :: "process \<Rightarrow> signal \<Rightarrow> (unit, 'h process_host_ext) io" where
  "killpg p s = sys (\<lambda>f. (Inr (), f))"

definition kill :: "process \<Rightarrow> (unit, 'h process_host_ext) io" where
  "kill p = sys (\<lambda>f. (Inr (), f))"

text \<open>\<open>selector.select\<close> over the registered streams, and \<open>os.read\<close> of at most \<open>n\<close> bytes.\<close>

definition select :: "process \<Rightarrow> out_stream list \<Rightarrow> rat \<Rightarrow> (out_stream list, 'h process_host_ext) io" where
  "select p open_streams timeout =
    io_bind (sys (\<lambda>f. (Inr (), f))) (\<lambda>_.
    observe (\<lambda>h. filter (\<lambda>s. s \<in> set open_streams) (remdups (pr_ready p (hs_tick h)))))"

definition os_read :: "process \<Rightarrow> out_stream \<Rightarrow> nat \<Rightarrow> (read_answer, 'h process_host_ext) io" where
  "os_read p s n =
    io_bind (sys (\<lambda>f. (Inr (), f))) (\<lambda>_.
    observe (\<lambda>h. case pr_read p (hs_tick h) s of Chunk b \<Rightarrow> Chunk (take n b) | WouldBlock \<Rightarrow> WouldBlock))"

section \<open>Weakest preconditions\<close>

lemma wlp_observe [simp]: "wlp (observe g) Q h = Q (Inr (g h)) (after (found_fs h) h)"
  by (simp add: wlp_def observe_def)

lemma wlp_monotonic [simp]: "wlp monotonic Q h = Q (Inr (hs_clock h (hs_tick h))) (after (found_fs h) h)"
  by (simp add: monotonic_def)

lemma wlp_utc_now [simp]: "wlp utc_now Q h = Q (Inr (hs_utc h (hs_tick h))) (after (found_fs h) h)"
  by (simp add: utc_now_def)

lemma after_fields [simp]:
  "hs_event (after f h) = hs_event h" "hs_tick (after f h) = Suc (hs_tick h)"
  by (simp_all add: after_def)

lemma after_process_fields [simp]:
  "hs_clock (after f h) = hs_clock h" "hs_utc (after f h) = hs_utc h" "hs_children (after f h) = hs_children h"
  "hs_started (after f h) = hs_started h" "hs_unseen (after f h) = hs_unseen h"
  by (simp_all add: after_def)

lemma wlp_sys:
  "wlp (sys call) Q h = (if denied h then Q (Inl OSError) (after (found_fs h) h)
     else case call (found_fs h) of (r, f) \<Rightarrow> Q r (after f h))"
  by (simp add: wlp_def sys_def split: prod.splits)

lemma wlp_sys_test:
  "wlp (sys_test P) Q h = (if denied h then Q (Inl OSError) (after (found_fs h) h)
     else Q (Inr (P (found_fs h))) (after (found_fs h) h))"
  by (simp add: sys_test_def wlp_sys)

text \<open>A property of the host that neither calls nor exits of children disturb holds throughout.\<close>

definition stable :: "('h process_host_scheme \<Rightarrow> bool) \<Rightarrow> bool" where
  "stable I \<longleftrightarrow> (\<forall>f h. I h \<longrightarrow> I (after f h)) \<and> (\<forall>p h. I h \<longrightarrow> I (seen_exit p h))"

lemma stable_unseen: "stable (\<lambda>h. set (hs_unseen h) \<subseteq> X)"
  by (auto simp: stable_def seen_exit_def)

lemma stable_started: "stable (\<lambda>h. hs_started h = xs)"
  by (auto simp: stable_def seen_exit_def)

lemma stable_clock: "stable (\<lambda>h. hs_clock h = c)"
  by (auto simp: stable_def seen_exit_def)

lemma stable_utc: "stable (\<lambda>h. hs_utc h = c)"
  by (auto simp: stable_def seen_exit_def)

lemma stable_tick: "stable (\<lambda>h. n \<le> hs_tick h)"
  by (auto simp: stable_def seen_exit_def)

lemma stable_conj: "stable I \<Longrightarrow> stable J \<Longrightarrow> stable (\<lambda>h. I h \<and> J h)"
  by (simp add: stable_def)

lemma frame_sys: "stable I \<Longrightarrow> I h \<Longrightarrow> wlp (sys call) (\<lambda>r h'. I h') h"
  by (simp add: wlp_sys stable_def split: prod.splits)

lemma frame_poll: "stable I \<Longrightarrow> I h \<Longrightarrow> wlp (poll p) (\<lambda>r h'. I h') h"
  by (simp add: wlp_def poll_def stable_def Let_def split: option.splits)

lemma frame_wait: "stable I \<Longrightarrow> I h \<Longrightarrow> wlp (wait p) (\<lambda>r h'. I h') h"
  by (simp add: wlp_def wait_def stable_def Let_def split: option.splits)

lemma frame_wait_for: "stable I \<Longrightarrow> I h \<Longrightarrow> wlp (wait_for p t) (\<lambda>r h'. I h') h"
  by (simp add: wlp_def wait_for_def stable_def Let_def split: option.splits)

lemma frame_bind:
  assumes "wlp m (\<lambda>r h'. I h') h" and "\<And>x h'. I h' \<Longrightarrow> wlp (f x) (\<lambda>r h'. I h') h'"
  shows "wlp (io_bind m f) (\<lambda>r h'. I h') h"
  unfolding wlp_bind by (rule wlp_mono [OF assms(1)]) (auto simp: assms(2) split: sum.splits)

lemma frame_except:
  assumes "wlp m (\<lambda>r h'. I h') h" and "\<And>e c h'. k e = Some c \<Longrightarrow> I h' \<Longrightarrow> wlp c (\<lambda>r h'. I h') h'"
  shows "wlp (io_except m k) (\<lambda>r h'. I h') h"
  unfolding wlp_except by (rule wlp_mono [OF assms(1)]) (auto simp: assms(2) split: sum.splits option.splits)

lemma frame_select: "stable I \<Longrightarrow> I h \<Longrightarrow> wlp (select p ss t) (\<lambda>r h'. I h') h"
  unfolding select_def by (rule frame_bind [OF frame_sys]) (simp_all add: stable_def)

lemma frame_os_read: "stable I \<Longrightarrow> I h \<Longrightarrow> wlp (os_read p s n) (\<lambda>r h'. I h') h"
  unfolding os_read_def by (rule frame_bind [OF frame_sys]) (simp_all add: stable_def)

text \<open>A wait that returns has seen the exit.\<close>

lemma wait_seen:
  "set (hs_unseen h) \<subseteq> insert (pr_pid p) X \<Longrightarrow> wlp (wait p) (\<lambda>r h'. set (hs_unseen h') \<subseteq> X) h"
  by (auto simp: wlp_def wait_def seen_exit_def Let_def split: option.splits)

lemma wait_for_seen:
  "set (hs_unseen h) \<subseteq> insert (pr_pid p) X \<Longrightarrow>
   wlp (wait_for p t) (\<lambda>r h'. (\<forall>c. r = Inr c \<longrightarrow> set (hs_unseen h') \<subseteq> X) \<and>
     set (hs_unseen h') \<subseteq> insert (pr_pid p) X) h"
  by (auto simp: wlp_def wait_for_def seen_exit_def Let_def split: option.splits)

lemma poll_seen:
  "set (hs_unseen h) \<subseteq> insert (pr_pid p) X \<Longrightarrow>
   wlp (poll p) (\<lambda>r h'. (\<forall>c. r = Inr (Some c) \<longrightarrow> set (hs_unseen h') \<subseteq> X) \<and>
     set (hs_unseen h') \<subseteq> insert (pr_pid p) X) h"
  by (auto simp: wlp_def poll_def seen_exit_def Let_def split: option.splits)

end
