(* ===== verification/GitCli.thy ===== *)
theory GitCli
  imports PinnedFile HostProcess Workspace Utf8
begin

text \<open>
  \<open>adapters/local/git_cli.py\<close>: the controlled Git primitive. Git itself is not part of the
  repository: a child process does what the host says it does, and what it changes in the file
  system is what the later system calls find. Temporary directories get a name from the host.
\<close>

record git_host = process_host +
  hs_token :: "nat \<Rightarrow> str"

type_synonym ('a, 'h) git_io = "('a, 'h git_host_ext process_host_ext) io"

record git_cli =
  gc_executable :: path
  gc_timeout :: rat
  gc_max_output :: int

record materialized_baseline =
  mb_repository :: path
  mb_baseline :: baseline_sha

definition git_error :: "git_cli_cause \<Rightarrow> ('a, 'h) io" where
  "git_error c = io_raise (GitCliError c)"

text \<open>\<open>except GitCliError: raise\<close> followed by \<open>except OSError as error: raise GitCliError(c) from error\<close>\<close>

definition os_error_as :: "git_cli_cause \<Rightarrow> ('a, 'h) io \<Rightarrow> ('a, 'h) io" where
  "os_error_as c m = io_except m (on_os_error (GitCliError c))"

section \<open>Configuration\<close>

definition require_timeout :: "rat \<Rightarrow> rat res" where
  "require_timeout v = (if v \<le> 0 then Inl ValueError else Inr v)"

definition require_output_limit :: "int \<Rightarrow> int res" where
  "require_output_limit v = (if v \<le> 0 then Inl ValueError else Inr v)"

definition new_ControlledGitCli :: "path \<Rightarrow> rat \<Rightarrow> int \<Rightarrow> (git_cli, 'h) io" where
  "new_ControlledGitCli executable timeout_seconds max_output_bytes =
    (if \<not> is_absolute executable then git_error GC_INVALID_CONFIGURATION
     else io_bind (os_error_as GC_INVALID_CONFIGURATION (resolve_strict executable)) (\<lambda>resolved.
       io_bind (is_file resolved) (\<lambda>file.
       io_bind (if \<not> file then io_return False else access_x resolved) (\<lambda>ok.
       if \<not> ok then git_error GC_INVALID_CONFIGURATION
       else io_bind (io_lift (require_timeout timeout_seconds)) (\<lambda>t.
         io_bind (io_lift (require_output_limit max_output_bytes)) (\<lambda>m.
           io_return \<lparr>gc_executable = resolved, gc_timeout = t, gc_max_output = m\<rparr>))))))"

definition new_MaterializedBaseline :: "path \<Rightarrow> baseline_sha \<Rightarrow> materialized_baseline res" where
  "new_MaterializedBaseline repository sha =
    (if \<not> is_absolute repository then Inl ValueError
     else Inr \<lparr>mb_repository = repository, mb_baseline = sha\<rparr>)"

section \<open>Bounded processes\<close>

record git_capture =
  gp_open :: "out_stream list"
  gp_stdout :: bytes
  gp_stderr :: bytes

text \<open>
  \<open>_terminate\<close>. A failing \<open>killpg\<close> is suppressed; a \<open>kill\<close> that fails because the process is
  gone never gets that far, so what is left of its failures passes on.
\<close>

definition git_terminate :: "process \<Rightarrow> (unit, 'h process_host_ext) io" where
  "git_terminate p =
    io_bind (poll p) (\<lambda>code.
    io_bind (if code \<noteq> None then io_return ()
      else io_bind (io_except (killpg p SIGKILL) (\<lambda>e. if e = OSError then Some (io_return ()) else None)) (\<lambda>_. kill p)) (\<lambda>_.
    io_bind (wait p) (\<lambda>_. io_return ())))"

definition terminate_with :: "process \<Rightarrow> git_cli_cause \<Rightarrow> ('a, 'h process_host_ext) io" where
  "terminate_with p c = io_bind (git_terminate p) (\<lambda>_. git_error c)"

fun git_read_events ::
  "process \<Rightarrow> int \<Rightarrow> out_stream list \<Rightarrow> git_capture \<Rightarrow> (git_capture, 'h process_host_ext) io" where
  "git_read_events p limit [] c = io_return c"
| "git_read_events p limit (s # events) c =
    io_bind (os_read p s (nat (min 65536 (limit + 1)))) (\<lambda>answer. case answer of
      WouldBlock \<Rightarrow> io_raise OSError
    | Chunk chunk \<Rightarrow>
        if chunk = [] then git_read_events p limit events (c\<lparr>gp_open := removeAll s (gp_open c)\<rparr>)
        else let c' = (if s = STDOUT then c\<lparr>gp_stdout := gp_stdout c @ chunk\<rparr>
            else c\<lparr>gp_stderr := gp_stderr c @ chunk\<rparr>) in
          if int (length (gp_stdout c') + length (gp_stderr c')) > limit then terminate_with p GC_OUTPUT_LIMIT
          else git_read_events p limit events c')"

definition git_round ::
  "process \<Rightarrow> int \<Rightarrow> rat \<Rightarrow> git_capture \<Rightarrow> (git_capture + git_capture, 'h process_host_ext) io" where
  "git_round p limit deadline c =
    (if gp_open c = [] then io_return (Inl c)
     else io_bind monotonic (\<lambda>now.
       let remaining = deadline - now in
       if remaining \<le> 0 then terminate_with p GC_TIMEOUT
       else io_bind (select p (gp_open c) remaining) (\<lambda>events.
         if events = [] then terminate_with p GC_TIMEOUT
         else io_bind (git_read_events p limit events c) (\<lambda>c'. io_return (Inr c')))))"

definition capture_bounded :: "git_cli \<Rightarrow> process \<Rightarrow> (bytes \<times> bytes \<times> int, 'h process_host_ext) io" where
  "capture_bounded g p =
    io_bind monotonic (\<lambda>now.
    io_bind (sys (\<lambda>f. (Inr (), f))) (\<lambda>_.
    io_bind (io_loop (git_round p (gc_max_output g) (now + gc_timeout g))
        \<lparr>gp_open = [STDOUT, STDERR], gp_stdout = [], gp_stderr = []\<rparr>) (\<lambda>c.
    io_bind (wait p) (\<lambda>returncode. io_return (gp_stdout c, gp_stderr c, returncode)))))"

definition git_run ::
  "git_cli \<Rightarrow> str list \<Rightarrow> path \<Rightarrow> (str \<times> str) list \<Rightarrow> (str, 'h process_host_ext) io" where
  "git_run g arguments cwd environment =
    io_bind (os_error_as GC_COMMAND_FAILED
      (io_bind (spawn \<lparr>po_argv = as_posix (gc_executable g) # arguments, po_cwd = cwd, po_env = environment\<rparr>)
        (capture_bounded g))) (\<lambda>(stdout, _, returncode).
    if returncode \<noteq> 0 then git_error GC_COMMAND_FAILED
    else case utf8_decode stdout of
        Inl e \<Rightarrow> git_error GC_COMMAND_FAILED
      | Inr text \<Rightarrow> io_return text)"

section \<open>Environment and temporary directories\<close>

definition git_environment :: "path \<Rightarrow> path \<Rightarrow> path \<Rightarrow> (str \<times> str) list" where
  "git_environment home config hooks =
    [(lit ''GIT_ALLOW_PROTOCOL'', lit ''file''), (lit ''GIT_ASKPASS'', []),
     (lit ''GIT_CONFIG_COUNT'', lit ''1''), (lit ''GIT_CONFIG_KEY_0'', lit ''core.hooksPath''),
     (lit ''GIT_CONFIG_NOSYSTEM'', lit ''1''), (lit ''GIT_CONFIG_VALUE_0'', as_posix hooks),
     (lit ''GIT_TERMINAL_PROMPT'', lit ''0''), (lit ''HOME'', as_posix home),
     (lit ''LANG'', lit ''C.UTF-8''), (lit ''LC_ALL'', lit ''C.UTF-8''), (lit ''XDG_CONFIG_HOME'', as_posix config)]"

text \<open>
  \<open>tempfile.TemporaryDirectory\<close>: the directory is removed when the body is left, and it is
  no error when it is gone by then. A name that is taken is an \<open>OSError\<close>.
\<close>

definition mkdtemp :: "str \<Rightarrow> path \<Rightarrow> (path, 'h) git_io" where
  "mkdtemp prefix_text dir =
    io_bind (observe (\<lambda>h. path_div dir (prefix_text @ hs_token h (hs_tick h)))) (\<lambda>p.
    io_bind (mkdir p) (\<lambda>_. io_return p))"

definition cleanup_tree :: "path \<Rightarrow> (unit, 'h) io" where
  "cleanup_tree p h =
    (if \<not> denied h \<and> lstat_node (found_fs h) p = None then Some (Inr (), after (found_fs h) h) else rmtree p h)"

definition with_tempdir :: "str \<Rightarrow> path \<Rightarrow> (path \<Rightarrow> ('a, 'h) git_io) \<Rightarrow> ('a, 'h) git_io" where
  "with_tempdir prefix_text dir body =
    io_bind (mkdtemp prefix_text dir) (\<lambda>p. io_finally (body p) (cleanup_tree p))"

text \<open>The preamble the three operations share: control directories and the environment over them.\<close>

definition control_environment :: "path \<Rightarrow> ((str \<times> str) list, 'h) git_io" where
  "control_environment control =
    (let hooks = path_div control (lit ''hooks''); home = path_div control (lit ''home'');
         config = path_div control (lit ''config'') in
     io_bind (mkdir hooks) (\<lambda>_. io_bind (mkdir home) (\<lambda>_. io_bind (mkdir config) (\<lambda>_.
       io_return (git_environment home config hooks)))))"

section \<open>Validation of paths\<close>

definition validate_paths :: "path \<Rightarrow> path \<Rightarrow> (path \<times> path, 'h) io" where
  "validate_paths source destination =
    (if \<not> is_absolute source \<or> \<not> is_absolute destination then git_error GC_INVALID_PATH
     else io_bind (os_error_as GC_INVALID_PATH (io_bind (resolve_strict source) (\<lambda>s.
         io_bind (resolve_strict (path_parent destination)) (\<lambda>d. io_return (s, d))))) (\<lambda>(trusted_source, trusted_parent).
       let trusted_destination = path_div trusted_parent (path_name destination) in
       io_bind (is_dir trusted_source) (\<lambda>dir.
       if \<not> dir then git_error GC_INVALID_PATH
       else if path_name destination \<in> {[], lit ''.'', lit ''..''} then git_error GC_INVALID_PATH
       else io_bind (path_exists trusted_destination) (\<lambda>exists.
         io_bind (if exists then io_return True else is_symlink trusted_destination) (\<lambda>taken.
         if taken then git_error GC_DESTINATION_EXISTS
         else if is_relative_to trusted_destination trusted_source then git_error GC_INVALID_PATH
         else io_return (trusted_source, trusted_destination))))))"

definition validate_repository :: "path \<Rightarrow> (path, 'h) io" where
  "validate_repository repository =
    (if \<not> is_absolute repository then git_error GC_INVALID_PATH
     else io_bind (os_error_as GC_INVALID_PATH (resolve_strict repository)) (\<lambda>trusted.
       let git_directory = path_div trusted (lit ''.git'') in
       io_bind (is_dir trusted) (\<lambda>dir.
       io_bind (if \<not> dir then io_return True
         else io_bind (is_dir git_directory) (\<lambda>git. if \<not> git then io_return True else is_symlink git_directory)) (\<lambda>bad.
       if bad then git_error GC_INVALID_PATH else io_return trusted))))"

section \<open>Operations\<close>

definition discard_partial :: "path \<Rightarrow> (unit, 'h) io" where
  "discard_partial destination =
    io_bind (path_exists destination) (\<lambda>exists.
    io_bind (if \<not> exists then io_return False else is_dir destination) (\<lambda>dir.
    io_bind (if \<not> dir then io_return False else io_bind (is_symlink destination) (\<lambda>link. io_return (\<not> link))) (\<lambda>discard.
    if discard then rmtree destination else io_return ())))"

definition head_of :: "git_cli \<Rightarrow> path \<Rightarrow> path \<Rightarrow> (str \<times> str) list \<Rightarrow> (str, 'h process_host_ext) io" where
  "head_of g repository cwd environment =
    io_bind (git_run g [lit ''-C'', as_posix repository, lit ''rev-parse'', lit ''--verify'', lit ''HEAD^{commit}'']
        cwd environment) (\<lambda>output. io_return (strip output))"

definition materialize_body ::
  "git_cli \<Rightarrow> path \<Rightarrow> path \<Rightarrow> baseline_sha \<Rightarrow> path \<Rightarrow> (unit, 'h) git_io" where
  "materialize_body g source destination sha control =
    io_bind (control_environment control) (\<lambda>environment.
    let parent = path_parent destination in
    io_bind (git_run g [lit ''clone'', lit ''--no-local'', lit ''--no-hardlinks'', lit ''--no-checkout'',
        lit ''--no-tags'', as_posix source, as_posix destination] parent environment) (\<lambda>_.
    io_bind (git_run g [lit ''-C'', as_posix destination, lit ''checkout'', lit ''--detach'', lit ''--force'',
        baseline_sha_value sha, lit ''--''] parent environment) (\<lambda>_.
    io_bind (head_of g destination parent environment) (\<lambda>resolved_head.
    if resolved_head \<noteq> baseline_sha_value sha then git_error GC_BASELINE_MISMATCH
    else io_bind (git_run g [lit ''-C'', as_posix destination, lit ''remote'', lit ''remove'', lit ''origin'']
        parent environment) (\<lambda>_. io_return ())))))"

definition materialize_baseline ::
  "git_cli \<Rightarrow> path \<Rightarrow> path \<Rightarrow> baseline_sha \<Rightarrow> (materialized_baseline, 'h) git_io" where
  "materialize_baseline g source destination sha =
    io_bind (validate_paths source destination) (\<lambda>(trusted_source, trusted_destination).
    io_bind (io_except
        (with_tempdir (lit ''.alicerce-git-control-'') (path_parent trusted_destination)
          (materialize_body g trusted_source trusted_destination sha))
        (\<lambda>e. case e of
            GitCliError c \<Rightarrow> Some (io_bind (discard_partial trusted_destination) (\<lambda>_. io_raise (GitCliError c)))
          | OSError \<Rightarrow> Some (io_bind (discard_partial trusted_destination) (\<lambda>_. git_error GC_COMMAND_FAILED))
          | _ \<Rightarrow> None)) (\<lambda>_.
      io_lift (new_MaterializedBaseline trusted_destination sha)))"

definition verify_baseline :: "git_cli \<Rightarrow> path \<Rightarrow> baseline_sha \<Rightarrow> (materialized_baseline, 'h) git_io" where
  "verify_baseline g repository sha =
    io_bind (validate_repository repository) (\<lambda>trusted.
    io_bind (os_error_as GC_COMMAND_FAILED
        (with_tempdir (lit ''.alicerce-git-control-'') (path_parent trusted) (\<lambda>control.
          io_bind (control_environment control) (\<lambda>environment.
          io_bind (head_of g trusted (path_parent trusted) environment) (\<lambda>resolved_head.
          io_bind (git_run g [lit ''-C'', as_posix trusted, lit ''remote''] (path_parent trusted) environment) (\<lambda>output.
            io_return (resolved_head, strip output))))))) (\<lambda>(resolved_head, remotes).
    if resolved_head \<noteq> baseline_sha_value sha then git_error GC_BASELINE_MISMATCH
    else if remotes \<noteq> [] then git_error GC_BASELINE_MISMATCH
    else io_lift (new_MaterializedBaseline trusted sha)))"

definition snapshot_candidate :: "git_cli \<Rightarrow> path \<Rightarrow> (candidate_sha, 'h) git_io" where
  "snapshot_candidate g repository =
    io_bind (validate_repository repository) (\<lambda>trusted.
    io_except (io_bind
        (with_tempdir (lit ''.alicerce-git-snapshot-'') (path_parent trusted) (\<lambda>control.
          io_bind (control_environment control) (\<lambda>base.
          let environment = base @ [(lit ''GIT_INDEX_FILE'', as_posix (path_div control (lit ''candidate.index'')))];
              parent = path_parent trusted in
          io_bind (git_run g [lit ''-C'', as_posix trusted, lit ''read-tree'', lit ''HEAD''] parent environment) (\<lambda>_.
          io_bind (git_run g [lit ''-C'', as_posix trusted, lit ''add'', lit ''-A'', lit ''--'', lit ''.''] parent environment) (\<lambda>_.
          io_bind (git_run g [lit ''-C'', as_posix trusted, lit ''write-tree''] parent environment) (\<lambda>output.
            io_return (strip output)))))))
        (\<lambda>tree_sha. io_lift (new_CandidateSha tree_sha)))
      (\<lambda>e. if e = OSError \<or> is_type_or_value_error e then Some (git_error GC_COMMAND_FAILED) else None))"

end
