(* ===== verification/GitWorkspace.thy ===== *)
theory GitWorkspace
  imports GitCli
begin

text \<open>
  \<open>adapters/local/git_workspace.py\<close>: workspaces as capabilities over directories of one root. The
  attributes the operations change, the records and the index of runs, are part of the host;
  the roots and the Git primitive are fixed when the adapter is made. The lock of the adapter
  makes each operation run alone among the operations of the process.
\<close>

record workspace_record =
  wr_identity :: workspace_identity
  wr_path :: path
  wr_config_digest :: bytes

record workspace_host = git_host +
  wh_records :: "workspace_id \<Rightarrow> workspace_record option"
  wh_run_index :: "run_id \<Rightarrow> workspace_id option"

type_synonym ('a, 'h) ws_io = "('a, 'h workspace_host_ext git_host_ext process_host_ext) io"

record local_git_workspace =
  gw_source :: path
  gw_root :: path
  gw_protected :: "path list"
  gw_git :: git_cli

definition ws_error :: "workspace_cause \<Rightarrow> ('a, 'h) io" where
  "ws_error c = io_raise (WorkspaceError c)"

definition storage_failure_on_os_error :: "('a, 'h) io \<Rightarrow> ('a, 'h) io" where
  "storage_failure_on_os_error m = io_except m (on_os_error (WorkspaceError WS_STORAGE_FAILURE))"

text \<open>\<open>a or b\<close> and \<open>not a\<close> over tests of the host.\<close>

definition io_or :: "(bool, 'h) io \<Rightarrow> (bool, 'h) io \<Rightarrow> (bool, 'h) io" where
  "io_or m n = io_bind m (\<lambda>b. if b then io_return True else n)"

definition io_not :: "(bool, 'h) io \<Rightarrow> (bool, 'h) io" where
  "io_not m = io_bind m (\<lambda>b. io_return (\<not> b))"

definition io_and :: "(bool, 'h) io \<Rightarrow> (bool, 'h) io \<Rightarrow> (bool, 'h) io" where
  "io_and m n = io_bind m (\<lambda>b. if b then n else io_return False)"

section \<open>Construction\<close>

definition overlaps :: "path \<Rightarrow> path \<Rightarrow> bool" where
  "overlaps left right \<longleftrightarrow> left = right \<or> is_relative_to left right \<or> is_relative_to right left"

definition resolve_directory :: "path \<Rightarrow> (path, 'h) io" where
  "resolve_directory p =
    io_bind (if \<not> is_absolute p then io_return True else is_symlink p) (\<lambda>bad.
    if bad then io_raise ValueError
    else io_bind (io_except (resolve_strict p) (on_os_error ValueError)) (\<lambda>resolved.
      io_bind (is_dir resolved) (\<lambda>dir. if \<not> dir then io_raise ValueError else io_return resolved)))"

fun resolve_directories :: "path list \<Rightarrow> (path list, 'h) io" where
  "resolve_directories [] = io_return []"
| "resolve_directories (p # ps) =
    io_bind (resolve_directory p) (\<lambda>q. io_bind (resolve_directories ps) (\<lambda>qs. io_return (q # qs)))"

definition new_LocalGitWorkspace ::
  "path \<Rightarrow> path \<Rightarrow> path list \<Rightarrow> git_cli \<Rightarrow> (local_git_workspace, 'h) ws_io" where
  "new_LocalGitWorkspace source_repository workspace_root protected_roots git =
    io_bind (resolve_directory source_repository) (\<lambda>source.
    io_bind (resolve_directory workspace_root) (\<lambda>root.
    io_bind (resolve_directories protected_roots) (\<lambda>protected.
    if \<exists>p \<in> set (source # protected). overlaps root p then io_raise ValueError
    else (\<lambda>h. Some (Inr \<lparr>gw_source = source, gw_root = root, gw_protected = source # protected, gw_git = git\<rparr>,
      h\<lparr>wh_records := (\<lambda>_. None), wh_run_index := (\<lambda>_. None)\<rparr>)))))"

section \<open>Integrity checks\<close>

definition assert_root_integrity :: "local_git_workspace \<Rightarrow> (unit, 'h) io" where
  "assert_root_integrity g =
    io_bind (storage_failure_on_os_error (resolve_strict (gw_root g))) (\<lambda>resolved.
    io_bind (io_or (is_symlink (gw_root g)) (io_or (io_not (is_dir (gw_root g))) (io_return (resolved \<noteq> gw_root g)))) (\<lambda>bad.
    if bad then ws_error WS_ISOLATION_FAILURE else io_return ()))"

definition path_for :: "local_git_workspace \<Rightarrow> workspace_id \<Rightarrow> path res" where
  "path_for g wid =
    (let p = path_div (gw_root g) (workspace_id_value wid) in
     if path_parent p \<noteq> gw_root g then Inl (WorkspaceError WS_ISOLATION_FAILURE) else Inr p)"

definition is_protected :: "local_git_workspace \<Rightarrow> path \<Rightarrow> bool" where
  "is_protected g p \<longleftrightarrow> (\<exists>q \<in> set (gw_protected g). overlaps p q)"

definition isolation_causes :: "git_cli_cause set" where
  "isolation_causes = {GC_INVALID_CONFIGURATION, GC_INVALID_PATH, GC_DESTINATION_EXISTS, GC_BASELINE_MISMATCH}"

definition translate_git_error :: "git_cli_cause \<Rightarrow> exn" where
  "translate_git_error c =
    WorkspaceError (if c \<in> isolation_causes then WS_ISOLATION_FAILURE else WS_STORAGE_FAILURE)"

definition translating_git :: "('a, 'h) io \<Rightarrow> ('a, 'h) io" where
  "translating_git m =
    io_except m (\<lambda>e. case e of GitCliError c \<Rightarrow> Some (io_raise (translate_git_error c)) | _ \<Rightarrow> None)"

definition config_digest :: "path \<Rightarrow> (bytes, 'h) io" where
  "config_digest workspace =
    (let config = path_div (path_div workspace (lit ''.git'')) (lit ''config'') in
     io_bind (io_or (is_symlink config) (io_not (is_file config))) (\<lambda>bad.
     if bad then ws_error WS_ISOLATION_FAILURE
     else storage_failure_on_os_error (file_sha256 config)))"

section \<open>The walk over a workspace\<close>

text \<open>\<open>os.scandir\<close>: the names in a directory, and whether each is a directory, links followed.\<close>

definition fs_scandir :: "fs \<Rightarrow> path \<Rightarrow> (str \<times> bool) list res" where
  "fs_scandir f p = (case follow f p of
      None \<Rightarrow> Inl OSError
    | Some c \<Rightarrow> if node_at f c \<noteq> Some Dir then Inl OSError
        else Inr (map (\<lambda>qn. (last (fst qn), fs_is_dir f (host_path (fst qn))))
          (filter (\<lambda>qn. fst qn \<noteq> [] \<and> butlast (fst qn) = c) f)))"

definition scandir :: "path \<Rightarrow> ((str \<times> bool) list, 'h) io" where
  "scandir p = sys (\<lambda>f. (fs_scandir f p, f))"

text \<open>The names of one directory in turn; the result is what is left to descend into.\<close>

fun check_names :: "path \<Rightarrow> path \<Rightarrow> str list \<Rightarrow> str list \<Rightarrow> (str list, 'h) io" where
  "check_names workspace current [] directories = io_return directories"
| "check_names workspace current (name # names) directories =
    (let p = path_div current name in
     io_bind (is_symlink p) (\<lambda>link.
     if \<not> link then check_names workspace current names directories
     else io_bind (io_except (resolve_strict p) (on_os_error (WorkspaceError WS_ISOLATION_FAILURE))) (\<lambda>target.
       if \<not> is_relative_to target workspace then ws_error WS_ISOLATION_FAILURE
       else check_names workspace current names (remove1 name directories))))"

text \<open>\<open>os.walk\<close> pushes the directories that are not links, the first one last.\<close>

fun push_directories :: "path \<Rightarrow> str list \<Rightarrow> path list \<Rightarrow> (path list, 'h) io" where
  "push_directories current [] stack = io_return stack"
| "push_directories current (name # names) stack =
    io_bind (io_except (is_symlink (path_div current name)) (\<lambda>e. if e = OSError then Some (io_return False) else None)) (\<lambda>link.
      push_directories current names (if link then stack else path_div current name # stack))"

definition walk_round :: "path \<Rightarrow> path list \<Rightarrow> (unit + path list, 'h) io" where
  "walk_round workspace stack = (case stack of
      [] \<Rightarrow> io_return (Inl ())
    | current # rest \<Rightarrow>
        io_bind (storage_failure_on_os_error (scandir current)) (\<lambda>entries.
        let directories = map fst (filter snd entries); filenames = map fst (filter (\<lambda>e. \<not> snd e) entries);
            directories = (if current = workspace then filter (\<lambda>name. name \<noteq> lit ''.git'') directories else directories) in
        io_bind (check_names workspace current (directories @ filenames) directories) (\<lambda>left.
        io_bind (push_directories current (rev left) rest) (\<lambda>stack'. io_return (Inr stack')))))"

definition validate_symlinks :: "path \<Rightarrow> (unit, 'h) io" where
  "validate_symlinks workspace = io_loop (walk_round workspace) [workspace]"

section \<open>Records\<close>

definition require_record :: "workspace_identity \<Rightarrow> (workspace_record, 'h) ws_io" where
  "require_record w h = (case wh_records h (wi_workspace_id w) of
      None \<Rightarrow> ws_error WS_NOT_FOUND h
    | Some r \<Rightarrow> if wr_identity r \<noteq> w then ws_error WS_CONFLICT h else io_return r h)"

definition validate_record :: "local_git_workspace \<Rightarrow> workspace_record \<Rightarrow> (unit, 'h) ws_io" where
  "validate_record g r =
    io_bind (assert_root_integrity g) (\<lambda>_.
    io_bind (io_lift (path_for g (wi_workspace_id (wr_identity r)))) (\<lambda>expected.
    if wr_path r \<noteq> expected then ws_error WS_ISOLATION_FAILURE
    else io_bind (io_or (is_symlink (wr_path r)) (io_or (io_not (is_dir (wr_path r))) (io_return (is_protected g (wr_path r))))) (\<lambda>bad.
    if bad then ws_error WS_ISOLATION_FAILURE
    else io_bind (validate_symlinks (wr_path r)) (\<lambda>_.
    io_bind (config_digest (wr_path r)) (\<lambda>digest.
    if digest \<noteq> wr_config_digest r then ws_error WS_ISOLATION_FAILURE
    else io_bind (translating_git (verify_baseline (gw_git g) (wr_path r) (wi_baseline_sha (wr_identity r)))) (\<lambda>_.
      io_return ()))))))"

definition forget :: "workspace_record \<Rightarrow> (unit, 'h) ws_io" where
  "forget r h = Some (Inr (), h\<lparr>wh_records := (wh_records h)(wi_workspace_id (wr_identity r) := None),
     wh_run_index := (wh_run_index h)(wi_run_id (wr_identity r) := None)\<rparr>)"

definition publish :: "workspace_record \<Rightarrow> (unit, 'h) ws_io" where
  "publish r h = Some (Inr (), h\<lparr>wh_records := (wh_records h)(wi_workspace_id (wr_identity r) \<mapsto> r),
     wh_run_index := (wh_run_index h)(wi_run_id (wr_identity r) \<mapsto> wi_workspace_id (wr_identity r))\<rparr>)"

definition discard_unpublished :: "local_git_workspace \<Rightarrow> path \<Rightarrow> (unit, 'h) io" where
  "discard_unpublished g p =
    (if path_parent p \<noteq> gw_root g \<or> is_protected g p then io_return ()
     else io_except (
       io_bind (io_or (is_symlink p) (io_and (path_exists p) (io_not (is_dir p)))) (\<lambda>single.
       if single then unlink p
       else io_bind (is_dir p) (\<lambda>dir. if dir then rmtree p else io_return ())))
       (\<lambda>e. if e = OSError then Some (io_return ()) else None))"

section \<open>Operations\<close>

text \<open>The \<open>try\<close> statement of \<open>prepare\<close>: materialize and check, or discard and translate.\<close>

definition prepare_checked :: "local_git_workspace \<Rightarrow> path \<Rightarrow> baseline_sha \<Rightarrow> (bytes, 'h) ws_io" where
  "prepare_checked g destination sha = io_except
    (io_bind (materialize_baseline (gw_git g) (gw_source g) destination sha) (\<lambda>_.
     io_bind (validate_symlinks destination) (\<lambda>_.
     io_bind (config_digest destination) (\<lambda>digest.
     io_bind (verify_baseline (gw_git g) destination sha) (\<lambda>_. io_return digest)))))
    (\<lambda>e. case e of
        GitCliError c \<Rightarrow> Some (io_bind (discard_unpublished g destination) (\<lambda>_. io_raise (translate_git_error c)))
      | WorkspaceError c \<Rightarrow> Some (io_bind (discard_unpublished g destination) (\<lambda>_. ws_error c))
      | OSError \<Rightarrow> Some (io_bind (discard_unpublished g destination) (\<lambda>_. ws_error WS_STORAGE_FAILURE))
      | _ \<Rightarrow> None)"

text \<open>From the choice of the capability on.\<close>

definition prepare_at ::
  "local_git_workspace \<Rightarrow> run_identity \<Rightarrow> workspace_id \<Rightarrow> path \<Rightarrow> (workspace_identity, 'h) ws_io" where
  "prepare_at g identity wid destination h =
    (if wh_records h wid \<noteq> None then ws_error WS_ALREADY_EXISTS h
     else io_bind (io_or (path_exists destination) (is_symlink destination)) (\<lambda>taken.
       if taken then ws_error WS_ALREADY_EXISTS
       else io_bind (prepare_checked g destination (ri_baseline_sha identity)) (\<lambda>digest.
         let workspace = \<lparr>wi_workspace_id = wid, wi_run_id = ri_run_id identity,
               wi_baseline_sha = ri_baseline_sha identity\<rparr> in
         io_bind (publish \<lparr>wr_identity = workspace, wr_path = destination, wr_config_digest = digest\<rparr>) (\<lambda>_.
         io_return workspace))) h)"

definition ws_prepare ::
  "local_git_workspace \<Rightarrow> workspace_id res \<Rightarrow> run_identity \<Rightarrow> (workspace_identity, 'h) ws_io" where
  "ws_prepare g new_workspace_id identity =
    io_bind (assert_root_integrity g) (\<lambda>_ h.
    if wh_run_index h (ri_run_id identity) \<noteq> None then ws_error WS_ALREADY_EXISTS h
    else io_bind (io_lift new_workspace_id) (\<lambda>wid.
      io_bind (io_lift (path_for g wid)) (prepare_at g identity wid)) h)"

definition ws_load :: "local_git_workspace \<Rightarrow> workspace_id \<Rightarrow> (workspace_identity option, 'h) ws_io" where
  "ws_load g wid h = (case wh_records h wid of
      None \<Rightarrow> io_return None h
    | Some r \<Rightarrow> io_bind (validate_record g r) (\<lambda>_. io_return (Some (wr_identity r))) h)"

definition ws_snapshot :: "local_git_workspace \<Rightarrow> workspace_identity \<Rightarrow> (candidate_identity, 'h) ws_io" where
  "ws_snapshot g w =
    io_bind (require_record w) (\<lambda>r.
    io_bind (validate_record g r) (\<lambda>_.
    io_bind (translating_git (
        io_bind (snapshot_candidate (gw_git g) (wr_path r)) (\<lambda>sha.
        io_bind (validate_record g r) (\<lambda>_. io_return sha)))) (\<lambda>sha.
      io_lift (bind_candidate (wr_identity r) sha))))"

definition quarantine_path :: "local_git_workspace \<Rightarrow> workspace_id \<Rightarrow> path" where
  "quarantine_path g wid = path_div (gw_root g) (lit ''.release-'' @ workspace_id_value wid)"

text \<open>The workspace is gone already: what an earlier release left in quarantine is removed.\<close>

definition recover_quarantine :: "path \<Rightarrow> (unit, 'h) io" where
  "recover_quarantine q =
    io_bind (io_or (path_exists q) (is_symlink q)) (\<lambda>occupied.
    if \<not> occupied then io_return ()
    else storage_failure_on_os_error (
      io_bind (io_or (is_symlink q) (io_not (is_dir q))) (\<lambda>single. if single then unlink q else rmtree q)))"

text \<open>The rename into quarantine and the removal from there.\<close>

definition remove_workspace :: "workspace_record \<Rightarrow> path \<Rightarrow> (unit, 'h) ws_io" where
  "remove_workspace r q =
    io_bind (rename (wr_path r) q) (\<lambda>_.
    io_bind (is_symlink q) (\<lambda>link.
    if link then io_bind (unlink q) (\<lambda>_. io_bind (forget r) (\<lambda>_. ws_error WS_ISOLATION_FAILURE))
    else io_bind (is_dir q) (\<lambda>dir.
      if \<not> dir then io_bind (unlink q) (\<lambda>_. io_bind (forget r) (\<lambda>_. ws_error WS_ISOLATION_FAILURE))
      else rmtree q)))"

definition restore_workspace :: "workspace_record \<Rightarrow> path \<Rightarrow> ('a, 'h) io" where
  "restore_workspace r q =
    io_bind (io_and (path_exists q) (io_not (path_exists (wr_path r)))) (\<lambda>moved.
    io_bind (if moved then io_except (rename q (wr_path r)) (\<lambda>e. if e = OSError then Some (io_return ()) else None)
      else io_return ()) (\<lambda>_. ws_error WS_STORAGE_FAILURE))"

definition ws_release :: "local_git_workspace \<Rightarrow> workspace_identity \<Rightarrow> (unit, 'h) ws_io" where
  "ws_release g w h = (case wh_records h (wi_workspace_id w) of
      None \<Rightarrow> io_return () h
    | Some r \<Rightarrow>
        if wr_identity r \<noteq> w then ws_error WS_CONFLICT h
        else io_bind (assert_root_integrity g) (\<lambda>_.
          io_bind (io_lift (path_for g (wi_workspace_id w))) (\<lambda>expected.
          if wr_path r \<noteq> expected \<or> is_protected g (wr_path r) then ws_error WS_ISOLATION_FAILURE
          else let q = quarantine_path g (wi_workspace_id w) in
            io_bind (io_and (io_not (path_exists (wr_path r))) (io_not (is_symlink (wr_path r)))) (\<lambda>gone.
            if gone then io_bind (recover_quarantine q) (\<lambda>_. forget r)
            else io_bind (io_or (path_exists q) (is_symlink q)) (\<lambda>occupied.
              if occupied then ws_error WS_STORAGE_FAILURE
              else io_bind (io_except (remove_workspace r q)
                  (\<lambda>e. if e = OSError then Some (restore_workspace r q) else None)) (\<lambda>_. forget r))))) h)"

text \<open>The context manager \<open>execution_lease\<close>, over the body of the \<open>with\<close> statement.\<close>

definition execution_lease ::
  "local_git_workspace \<Rightarrow> workspace_identity \<Rightarrow> (path \<Rightarrow> ('a, 'h) ws_io) \<Rightarrow> ('a, 'h) ws_io" where
  "execution_lease g w body =
    io_bind (require_record w) (\<lambda>r.
    io_bind (validate_record g r) (\<lambda>_.
    io_finally (body (wr_path r)) (validate_record g r)))"

end
