(* ===== verification/LinuxSandbox.thy ===== *)
theory LinuxSandbox
  imports PinnedFile HostProcess Command
begin

text \<open>
  \<open>adapters/local/process_sandbox.py\<close> and \<open>adapters/local/linux_process_sandbox.py\<close>: one command
  inside a bubblewrap sandbox, with its command line, the bounded capture of its output under a
  deadline, and the termination of its process tree.
\<close>

section \<open>Invocations and results\<close>

record sandbox_invocation =
  si_executable :: path
  si_arguments :: "str list"
  si_workspace_root :: path
  si_working_directory :: path
  si_environment :: "environment_variable list"
  si_network_policy :: network_policy
  si_limits :: command_limits

record sandbox_result =
  sr_termination :: execution_termination
  sr_exit_code :: "int option"
  sr_stdout :: bytes
  sr_stderr :: bytes
  sr_started_at :: datetime
  sr_finished_at :: datetime

definition READ_CHUNK_BYTES :: nat where
  "READ_CHUNK_BYTES = 64 * 1024"

definition PROBE_TIMEOUT_SECONDS :: rat where
  "PROBE_TIMEOUT_SECONDS = 5"

definition SANDBOX_EXECUTABLE :: path where
  "SANDBOX_EXECUTABLE = pure_posix_path (lit ''/alicerce/executable'')"

definition SANDBOX_WORKSPACE :: path where
  "SANDBOX_WORKSPACE = pure_posix_path (lit ''/workspace'')"

definition pin_bubblewrap :: "path \<Rightarrow> (pinned_file, 'h) io" where
  "pin_bubblewrap = pin_file"

definition verify_bubblewrap :: "pinned_file \<Rightarrow> (unit, 'h) io" where
  "verify_bubblewrap = verify_pin (SandboxError SB_ISOLATION_FAILURE) (SandboxError SB_ISOLATION_FAILURE)"

section \<open>Command line\<close>

definition base_command :: "pinned_file \<Rightarrow> str list" where
  "base_command bubblewrap = as_posix (pin_path bubblewrap) # map lit
    [''--unshare-net'', ''--unshare-pid'', ''--unshare-ipc'', ''--unshare-uts'', ''--die-with-parent'',
     ''--new-session'', ''--clearenv'', ''--proc'', ''/proc'', ''--dev'', ''/dev'',
     ''--ro-bind'', ''/usr'', ''/usr'', ''--symlink'', ''usr/bin'', ''/bin'',
     ''--symlink'', ''usr/lib'', ''/lib'', ''--symlink'', ''usr/lib64'', ''/lib64'']"

definition build_command :: "pinned_file \<Rightarrow> sandbox_invocation \<Rightarrow> str list res" where
  "build_command bubblewrap i =
    sum_bind (catching (\<lambda>e. e = ValueError) (SandboxError SB_ISOLATION_FAILURE)
        (relative_to (si_working_directory i) (si_workspace_root i))) (\<lambda>relative.
    let inside = SANDBOX_WORKSPACE\<lparr>path_tail := path_tail SANDBOX_WORKSPACE @ path_tail relative\<rparr> in
    Inr (base_command bubblewrap @
      [lit ''--dir'', lit ''/alicerce''] @
      [lit ''--ro-bind'', as_posix (si_executable i), as_posix SANDBOX_EXECUTABLE] @
      [lit ''--chmod'', lit ''0555'', lit ''/alicerce''] @
      [lit ''--dir'', as_posix SANDBOX_WORKSPACE] @
      [lit ''--bind'', as_posix (si_workspace_root i), as_posix SANDBOX_WORKSPACE] @
      [lit ''--chdir'', as_posix inside] @
      concat (map (\<lambda>e. [lit ''--setenv'', env_name e, env_value e]) (si_environment i)) @
      [lit ''--''] @ [as_posix SANDBOX_EXECUTABLE] @ si_arguments i))"

section \<open>The probe\<close>

text \<open>
  \<open>subprocess.run\<close> with a timeout: a child that has not exited by then is killed and waited for,
  and the call raises \<open>TimeoutExpired\<close>, a \<open>SubprocessError\<close>.
\<close>

definition run_probe :: "popen \<Rightarrow> (int, 'h process_host_ext) io" where
  "run_probe p =
    io_bind (spawn p) (\<lambda>child.
    io_except (wait_for child PROBE_TIMEOUT_SECONDS)
      (\<lambda>e. if e = TimeoutExpired
        then Some (io_bind (kill child) (\<lambda>_. io_bind (wait child) (\<lambda>_. io_raise TimeoutExpired)))
        else None))"

definition host_root :: path where
  "host_root = pure_posix_path (lit ''/'')"

definition supports :: "pinned_file \<Rightarrow> path \<Rightarrow> network_policy \<Rightarrow> (bool, 'h process_host_ext) io" where
  "supports bubblewrap cwd network =
    (if network \<noteq> DENY_ALL then io_return False
     else io_bind (verify_bubblewrap bubblewrap) (\<lambda>_.
       io_except (io_bind (run_probe \<lparr>po_argv = base_command bubblewrap @ [lit ''--'', lit ''/usr/bin/true''],
             po_cwd = cwd, po_env = []\<rparr>) (\<lambda>returncode. io_return (returncode = 0)))
         (\<lambda>e. if e = OSError \<or> e = TimeoutExpired then Some (io_return False) else None)))"

section \<open>Capture\<close>

record capture =
  cap_open :: "out_stream list"
  cap_stdout :: bytes
  cap_stderr :: bytes
  cap_termination :: execution_termination

definition enter_capture :: "process \<Rightarrow> (out_stream list, 'h process_host_ext) io" where
  "enter_capture p =
    (if \<not> pr_piped p STDOUT then io_raise (SandboxError SB_SPAWN_FAILED)
     else io_bind (sys (\<lambda>f. (Inr (), f))) (\<lambda>_.
     if \<not> pr_piped p STDERR then io_raise (SandboxError SB_SPAWN_FAILED)
     else io_bind (sys (\<lambda>f. (Inr (), f))) (\<lambda>_. io_return [STDOUT, STDERR])))"

definition captured :: "out_stream \<Rightarrow> capture \<Rightarrow> bytes" where
  "captured s c = (if s = STDOUT then cap_stdout c else cap_stderr c)"

definition ceiling_of :: "out_stream \<Rightarrow> command_limits \<Rightarrow> int" where
  "ceiling_of s l = (if s = STDOUT then stdout_max_bytes l else stderr_max_bytes l)"

text \<open>\<open>target.extend(chunk[:available])\<close>, and the termination when the chunk was longer.\<close>

definition keep_chunk :: "command_limits \<Rightarrow> out_stream \<Rightarrow> bytes \<Rightarrow> capture \<Rightarrow> capture" where
  "keep_chunk l s chunk c =
    (let available = max 0 (ceiling_of s l - int (length (captured s c)));
         target = captured s c @ take (nat available) chunk;
         c' = (if s = STDOUT then c\<lparr>cap_stdout := target\<rparr> else c\<lparr>cap_stderr := target\<rparr>)
     in if int (length chunk) > available then c'\<lparr>cap_termination := OUTPUT_LIMIT\<rparr> else c')"

fun read_events ::
  "process \<Rightarrow> command_limits \<Rightarrow> out_stream list \<Rightarrow> capture \<Rightarrow> (capture, 'h process_host_ext) io" where
  "read_events p l [] c = io_return c"
| "read_events p l (s # events) c =
    io_bind (os_read p s READ_CHUNK_BYTES) (\<lambda>answer. case answer of
      WouldBlock \<Rightarrow> read_events p l events c
    | Chunk chunk \<Rightarrow>
        if chunk = [] then read_events p l events (c\<lparr>cap_open := removeAll s (cap_open c)\<rparr>)
        else let c' = keep_chunk l s chunk c in
          if cap_termination c' = OUTPUT_LIMIT then io_return c' else read_events p l events c')"

text \<open>One round of \<open>while capture.selector.get_map()\<close>; \<open>Inl\<close> leaves the loop.\<close>

definition capture_round ::
  "process \<Rightarrow> command_limits \<Rightarrow> rat \<Rightarrow> capture \<Rightarrow> (capture + capture, 'h process_host_ext) io" where
  "capture_round p l deadline c =
    (if cap_open c = [] then io_return (Inl c)
     else io_bind monotonic (\<lambda>now.
       let remaining = deadline - now in
       if remaining \<le> 0 then io_return (Inl (c\<lparr>cap_termination := TIMED_OUT\<rparr>))
       else io_bind (select p (cap_open c) remaining) (\<lambda>events.
       if events = [] then io_bind (poll p) (\<lambda>_. io_return (Inr c))
       else io_bind (read_events p l events c) (\<lambda>c'.
         io_return (if cap_termination c' \<noteq> EXITED then Inl c' else Inr c')))))"

definition capture_output ::
  "process \<Rightarrow> command_limits \<Rightarrow> rat \<Rightarrow> (capture, 'h process_host_ext) io" where
  "capture_output p l deadline =
    io_bind (enter_capture p) (\<lambda>streams.
    io_loop (capture_round p l deadline)
      \<lparr>cap_open = streams, cap_stdout = [], cap_stderr = [], cap_termination = EXITED\<rparr>)"

section \<open>Execution\<close>

definition terminate_tree :: "process \<Rightarrow> int \<Rightarrow> (unit, 'h process_host_ext) io" where
  "terminate_tree p grace_ms =
    io_bind (poll p) (\<lambda>code. if code \<noteq> None then io_return ()
    else io_except (
      io_bind (killpg p SIGTERM) (\<lambda>_.
      io_except (io_bind (wait_for p (of_int grace_ms / 1000)) (\<lambda>_. io_return ()))
        (\<lambda>e. if e = TimeoutExpired
          then Some (io_bind (killpg p SIGKILL) (\<lambda>_.
            io_bind (wait_for p (max (of_int grace_ms / 1000) (1 / 10))) (\<lambda>_. io_return ())))
          else None)))
      (\<lambda>e. if e = OSError \<or> e = TimeoutExpired then Some (io_raise (SandboxError SB_CLEANUP_FAILED)) else None))"

text \<open>The body of the \<open>try\<close>: the capture and the exit code.\<close>

definition supervise ::
  "process \<Rightarrow> command_limits \<Rightarrow> rat \<Rightarrow> (capture \<times> int option, 'h process_host_ext) io" where
  "supervise p l deadline =
    io_bind (capture_output p l deadline) (\<lambda>c.
    if cap_termination c \<noteq> EXITED
    then io_bind (terminate_tree p (termination_grace_ms l)) (\<lambda>_. io_return (c, None))
    else io_bind (wait p) (\<lambda>code. io_return (c, Some code)))"

text \<open>From the start of the child on.\<close>

definition run_child ::
  "pinned_file \<Rightarrow> sandbox_invocation \<Rightarrow> datetime \<Rightarrow> process \<Rightarrow> (sandbox_result, 'h process_host_ext) io" where
  "run_child bubblewrap i started_at child =
    io_bind monotonic (\<lambda>now.
    io_bind (io_finally
        (io_except (supervise child (si_limits i) (now + of_int (timeout_ms (si_limits i)) / 1000))
          (\<lambda>e. if e = OSError
            then Some (io_bind (terminate_tree child (termination_grace_ms (si_limits i))) (\<lambda>_.
              io_raise (SandboxError SB_CLEANUP_FAILED)))
            else None))
        (verify_bubblewrap bubblewrap)) (\<lambda>(c, code).
    io_bind utc_now (\<lambda>finished_at.
      io_return \<lparr>sr_termination = cap_termination c, sr_exit_code = code, sr_stdout = cap_stdout c,
        sr_stderr = cap_stderr c, sr_started_at = started_at, sr_finished_at = finished_at\<rparr>)))"

definition sandbox_execute ::
  "pinned_file \<Rightarrow> path \<Rightarrow> sandbox_invocation \<Rightarrow> (sandbox_result, 'h process_host_ext) io" where
  "sandbox_execute bubblewrap cwd i =
    io_bind (if si_network_policy i \<noteq> DENY_ALL then io_return False
      else supports bubblewrap cwd (si_network_policy i)) (\<lambda>supported.
    if \<not> supported then io_raise (SandboxError SB_ISOLATION_FAILURE)
    else io_bind (verify_bubblewrap bubblewrap) (\<lambda>_.
    io_bind (io_lift (build_command bubblewrap i)) (\<lambda>command.
    io_bind utc_now (\<lambda>started_at.
    io_bind (io_except (spawn \<lparr>po_argv = command, po_cwd = host_root, po_env = []\<rparr>)
        (on_os_error (SandboxError SB_SPAWN_FAILED))) (\<lambda>child.
      run_child bubblewrap i started_at child)))))"

end
