(* ===== verification/SandboxBounds.thy ===== *)
theory SandboxBounds
  imports LinuxSandbox
begin

text \<open>
  What an execution in the sandbox guarantees on every host, whatever the child, the clock and
  other processes do: the captures stay within the ceilings, an exit code comes with a normal
  exit only, a child that was started has been seen to exit when a result is returned, and
  nothing is started but the probe and the command. The capture ends once the clock passes the
  deadline; the wait for a child that has closed its streams does not.
\<close>

section \<open>Capture\<close>

definition within_ceilings :: "command_limits \<Rightarrow> bytes \<Rightarrow> bytes \<Rightarrow> bool" where
  "within_ceilings l outb errb \<longleftrightarrow> int (length outb) \<le> stdout_max_bytes l \<and> int (length errb) \<le> stderr_max_bytes l"

definition forced :: "execution_termination \<Rightarrow> bool" where
  "forced t \<longleftrightarrow> t = TIMED_OUT \<or> t = OUTPUT_LIMIT"

lemma keep_chunk_bounds:
  assumes "within_ceilings l (cap_stdout c) (cap_stderr c)"
  shows "within_ceilings l (cap_stdout (keep_chunk l s b c)) (cap_stderr (keep_chunk l s b c))"
proof -
  have "int (length xs + length (take (nat (max 0 (m - int (length xs)))) b)) \<le> m" if "int (length xs) \<le> m"
    for xs :: bytes and m
    using that by (auto simp: min_def le_nat_iff)
  then show ?thesis
    using assms by (auto simp: within_ceilings_def keep_chunk_def captured_def ceiling_of_def Let_def)
qed

lemma keep_chunk_termination:
  "cap_termination c = EXITED \<Longrightarrow> cap_termination (keep_chunk l s b c) \<in> {EXITED, OUTPUT_LIMIT}"
  by (simp add: keep_chunk_def Let_def)

lemma read_events_bounds:
  assumes "stable I" and "I h" and "within_ceilings l (cap_stdout c) (cap_stderr c)" and "cap_termination c = EXITED"
  shows "wlp (read_events p l events c) (\<lambda>r h'. I h' \<and> (\<forall>c'. r = Inr c' \<longrightarrow>
    within_ceilings l (cap_stdout c') (cap_stderr c') \<and> cap_termination c' \<in> {EXITED, OUTPUT_LIMIT})) h"
  using assms(2-4)
proof (induction events arbitrary: c h)
  case Nil
  then show ?case by simp
next
  case (Cons s events)
  show ?case
    unfolding read_events.simps wlp_bind
  proof (rule wlp_mono [OF frame_os_read [OF assms(1) Cons.prems(1)]])
    fix r h' assume i: "I h'"
    show "case r of Inl e \<Rightarrow> I h' \<and> (\<forall>c'. Inl e = Inr c' \<longrightarrow> within_ceilings l (cap_stdout c') (cap_stderr c') \<and>
          cap_termination c' \<in> {EXITED, OUTPUT_LIMIT})
      | Inr x \<Rightarrow> wlp (case x of Chunk chunk \<Rightarrow>
          if chunk = [] then read_events p l events (c\<lparr>cap_open := removeAll s (cap_open c)\<rparr>)
          else let c' = keep_chunk l s chunk c in
            if cap_termination c' = OUTPUT_LIMIT then io_return c' else read_events p l events c'
        | WouldBlock \<Rightarrow> read_events p l events c)
        (\<lambda>r h'. I h' \<and> (\<forall>c'. r = Inr c' \<longrightarrow> within_ceilings l (cap_stdout c') (cap_stderr c') \<and>
          cap_termination c' \<in> {EXITED, OUTPUT_LIMIT})) h'"
    proof (cases r)
      case (Inl e)
      then show ?thesis using i by simp
    next
      case (Inr x)
      show ?thesis
      proof (cases x)
        case WouldBlock
        then show ?thesis using Inr Cons.IH [OF i Cons.prems(2,3)] by simp
      next
        case (Chunk b)
        have "cap_termination (keep_chunk l s b c) \<in> {EXITED, OUTPUT_LIMIT}"
          by (rule keep_chunk_termination [OF Cons.prems(3)])
        then show ?thesis
          using Inr Chunk i Cons.prems(2,3) keep_chunk_bounds [OF Cons.prems(2)]
            Cons.IH [OF i, of "c\<lparr>cap_open := removeAll s (cap_open c)\<rparr>"] Cons.IH [OF i, of "keep_chunk l s b c"]
          by (auto simp: Let_def)
      qed
    qed
  qed
qed

definition capture_ok :: "command_limits \<Rightarrow> capture \<Rightarrow> bool" where
  "capture_ok l c \<longleftrightarrow> within_ceilings l (cap_stdout c) (cap_stderr c) \<and>
     (cap_termination c = EXITED \<or> forced (cap_termination c))"

lemma capture_round_bounds:
  assumes "stable I" and "I h" and "within_ceilings l (cap_stdout c) (cap_stderr c)" and "cap_termination c = EXITED"
  shows "wlp (capture_round p l deadline c) (\<lambda>r h'. I h' \<and>
    (\<forall>c'. r = Inr (Inl c') \<longrightarrow> capture_ok l c') \<and>
    (\<forall>c'. r = Inr (Inr c') \<longrightarrow> within_ceilings l (cap_stdout c') (cap_stderr c') \<and> cap_termination c' = EXITED)) h"
proof -
  have tick: "I (after f h')" if "I h'" for f h' using assms(1) that by (simp add: stable_def)
  have rounds: "wlp (if events = [] then io_bind (poll p) (\<lambda>_. io_return (Inr c))
       else io_bind (read_events p l events c) (\<lambda>c'. io_return (if cap_termination c' \<noteq> EXITED then Inl c' else Inr c')))
     (\<lambda>r h'. I h' \<and> (\<forall>c'. r = Inr (Inl c') \<longrightarrow> capture_ok l c') \<and>
       (\<forall>c'. r = Inr (Inr c') \<longrightarrow> within_ceilings l (cap_stdout c') (cap_stderr c') \<and> cap_termination c' = EXITED)) h'"
    if i: "I h'" for events h'
  proof (cases "events = []")
    case True
    then show ?thesis
      using assms(3,4) by (auto simp: wlp_unfold intro!: wlp_mono [OF frame_poll [OF assms(1) i]] split: sum.splits)
  next
    case False
    then show ?thesis
      by (auto simp: wlp_unfold capture_ok_def forced_def intro!: wlp_mono [OF read_events_bounds [OF assms(1) i assms(3,4)]]
          split: sum.splits)
  qed
  show ?thesis
  proof (cases "cap_open c = []")
    case True
    then show ?thesis using assms by (simp add: capture_round_def capture_ok_def)
  next
    case False
    let ?Q = "\<lambda>r h'. I h' \<and> (\<forall>c'. r = Inr (Inl c') \<longrightarrow> capture_ok l c') \<and>
       (\<forall>c'. r = Inr (Inr c') \<longrightarrow> within_ceilings l (cap_stdout c') (cap_stderr c') \<and> cap_termination c' = EXITED)"
    have "wlp (io_bind (select p (cap_open c) t) (\<lambda>events.
        if events = [] then io_bind (poll p) (\<lambda>_. io_return (Inr c))
        else io_bind (read_events p l events c)
          (\<lambda>c'. io_return (if cap_termination c' \<noteq> EXITED then Inl c' else Inr c')))) ?Q (after f h)" for t f
      unfolding wlp_bind [of "select p (cap_open c) t"]
      by (rule wlp_mono [OF frame_select [OF assms(1) tick [OF assms(2)]]])
        (auto intro: rounds split: sum.splits split del: if_split)
    then show ?thesis
      using False assms(3) tick [OF assms(2)]
      by (simp add: capture_round_def wlp_bind [of monotonic] wlp_if Let_def capture_ok_def forced_def)
  qed
qed

lemma capture_output_bounds:
  assumes "stable I" and "I h" and "wf_limits l"
  shows "wlp (capture_output p l deadline) (\<lambda>r h'. I h' \<and> (\<forall>c. r = Inr c \<longrightarrow> capture_ok l c)) h"
proof -
  have loop: "wlp (io_loop (capture_round p l deadline)
      \<lparr>cap_open = streams, cap_stdout = [], cap_stderr = [], cap_termination = EXITED\<rparr>)
      (\<lambda>r h'. I h' \<and> (\<forall>c. r = Inr c \<longrightarrow> capture_ok l c)) h'" if "I h'" for streams h'
  proof (rule wlp_loop [where P = "\<lambda>c h. I h \<and> within_ceilings l (cap_stdout c) (cap_stderr c) \<and> cap_termination c = EXITED"])
    show "I h' \<and> within_ceilings l (cap_stdout \<lparr>cap_open = streams, cap_stdout = [], cap_stderr = [], cap_termination = EXITED\<rparr>)
        (cap_stderr \<lparr>cap_open = streams, cap_stdout = [], cap_stderr = [], cap_termination = EXITED\<rparr>) \<and>
        cap_termination \<lparr>cap_open = streams, cap_stdout = [], cap_stderr = [], cap_termination = EXITED\<rparr> = EXITED"
      using that assms(3) by (simp add: within_ceilings_def wf_limits_def)
  next
    fix c :: capture and h
    assume "I h \<and> within_ceilings l (cap_stdout c) (cap_stderr c) \<and> cap_termination c = EXITED"
    then show "wlp (capture_round p l deadline c) (\<lambda>r h'. case r of
        Inl e \<Rightarrow> I h' \<and> (\<forall>c. Inl e = Inr c \<longrightarrow> capture_ok l c)
      | Inr (Inl b) \<Rightarrow> I h' \<and> (\<forall>c. Inr b = Inr c \<longrightarrow> capture_ok l c)
      | Inr (Inr c) \<Rightarrow> I h' \<and> within_ceilings l (cap_stdout c) (cap_stderr c) \<and> cap_termination c = EXITED) h"
      by (auto intro!: wlp_mono [OF capture_round_bounds [OF assms(1)]] split: sum.splits)
  qed
  have tick: "I (after f h')" if "I h'" for f h' using assms(1) that by (simp add: stable_def)
  show ?thesis
    unfolding capture_output_def enter_capture_def
    using assms(2) loop by (auto simp: wlp_unfold wlp_sys tick split: sum.splits)
qed

section \<open>Termination of the tree\<close>

text \<open>Facts of the host that no call changes: its clocks; time and the list of started children grow.\<close>

definition since :: "'h process_host_scheme \<Rightarrow> nat \<Rightarrow> popen list \<Rightarrow> 'h process_host_scheme \<Rightarrow> bool" where
  "since h0 n xs h \<longleftrightarrow> hs_utc h = hs_utc h0 \<and> hs_clock h = hs_clock h0 \<and> n \<le> hs_tick h \<and> hs_started h = xs"

lemma stable_since: "stable (since h0 n xs)"
  by (auto simp: stable_def since_def seen_exit_def)

lemma since_after: "since h0 n xs h \<Longrightarrow> since h0 n xs (after f h)"
  using stable_since unfolding stable_def by blast

lemma frame_terminate_tree:
  assumes "stable I" and "I h"
  shows "wlp (terminate_tree p g) (\<lambda>r h'. I h') h"
  unfolding terminate_tree_def killpg_def
  by (intro frame_bind frame_poll frame_except frame_sys frame_wait_for assms conjI impI)
    (auto intro!: frame_bind frame_except frame_sys frame_wait_for assms split: if_splits)

lemma terminate_tree_seen:
  assumes "set (hs_unseen h) \<subseteq> insert (pr_pid p) X"
  shows "wlp (terminate_tree p g) (\<lambda>r h'. r = Inr () \<longrightarrow> set (hs_unseen h') \<subseteq> X) h"
proof -
  let ?U = "\<lambda>h. set (hs_unseen h) \<subseteq> insert (pr_pid p) X"
  have wait_done: "wlp (wait_for p t) (\<lambda>r h'. case r of Inl e \<Rightarrow> ?U h' | Inr c \<Rightarrow> set (hs_unseen h') \<subseteq> X) h'"
    if "?U h'" for t h'
    by (rule wlp_mono [OF wait_for_seen [OF that]]) (auto split: sum.splits)
  have kill: "wlp (io_bind (killpg p SIGKILL) (\<lambda>_. io_bind (wait_for p t) (\<lambda>_. io_return ())))
      (\<lambda>r h'. r = Inr () \<longrightarrow> set (hs_unseen h') \<subseteq> X) h'" if "?U h'" for t h'
    using that by (auto simp: wlp_unfold killpg_def wlp_sys intro!: wlp_mono [OF wait_done] split: sum.splits)
  have ask: "wlp (io_except (io_bind (wait_for p t) (\<lambda>_. io_return ()))
        (\<lambda>e. if e = TimeoutExpired then Some (io_bind (killpg p SIGKILL) (\<lambda>_. io_bind (wait_for p t') (\<lambda>_. io_return ())))
          else None)) (\<lambda>r h'. r = Inr () \<longrightarrow> set (hs_unseen h') \<subseteq> X) h'" if "?U h'" for t t' h'
    unfolding wlp_except wlp_bind [of "wait_for p t"]
    by (rule wlp_mono [OF wait_done [OF that]]) (auto simp: kill split: sum.splits)
  have both: "wlp (io_bind (killpg p SIGTERM) (\<lambda>_. io_except (io_bind (wait_for p t) (\<lambda>_. io_return ()))
        (\<lambda>e. if e = TimeoutExpired then Some (io_bind (killpg p SIGKILL) (\<lambda>_. io_bind (wait_for p t') (\<lambda>_. io_return ())))
          else None))) (\<lambda>r h'. r = Inr () \<longrightarrow> set (hs_unseen h') \<subseteq> X) h'" if "?U h'" for t t' h'
    unfolding killpg_def [of p SIGTERM] wlp_bind [of "sys call" for call] wlp_sys
    using ask [of "after (found_fs h') h'"] that by simp
  show ?thesis
    unfolding terminate_tree_def wlp_bind [of "poll p"]
    by (rule wlp_mono [OF poll_seen [OF assms]])
      (auto simp: wlp_if wlp_except [of "io_bind (killpg p SIGTERM) F" for F] intro!: wlp_mono [OF both] split: sum.splits)
qed

lemma supervise_bounds:
  assumes "since h0 n xs h" and "set (hs_unseen h) \<subseteq> insert (pr_pid p) X" and "wf_limits l"
  shows "wlp (supervise p l deadline) (\<lambda>r h'. since h0 n xs h' \<and> set (hs_unseen h') \<subseteq> insert (pr_pid p) X \<and>
    (\<forall>c code. r = Inr (c, code) \<longrightarrow> capture_ok l c \<and> (code \<noteq> None \<longleftrightarrow> cap_termination c = EXITED) \<and>
      set (hs_unseen h') \<subseteq> X)) h"
proof -
  let ?I = "\<lambda>h'. since h0 n xs h' \<and> set (hs_unseen h') \<subseteq> insert (pr_pid p) X"
  let ?Q = "\<lambda>r h'. ?I h' \<and> (\<forall>c code. r = Inr (c, code) \<longrightarrow> capture_ok l c \<and>
    (code \<noteq> None \<longleftrightarrow> cap_termination c = EXITED) \<and> set (hs_unseen h') \<subseteq> X)"
  have st: "stable ?I" by (rule stable_conj [OF stable_since stable_unseen])
  have finish: "wlp (if cap_termination c \<noteq> EXITED
      then io_bind (terminate_tree p (termination_grace_ms l)) (\<lambda>_. io_return (c, None))
      else io_bind (wait p) (\<lambda>code. io_return (c, Some code))) ?Q h'" if "?I h'" and "capture_ok l c" for c h'
  proof (cases "cap_termination c = EXITED")
    case True
    have "wlp (wait p) (\<lambda>r h'. ?I h' \<and> set (hs_unseen h') \<subseteq> X) h'"
      using wlp_conj [OF frame_wait [OF st] wait_seen] that(1) by blast
    then show ?thesis
      using True that(2) by (auto simp: wlp_unfold elim!: wlp_mono split: sum.splits)
  next
    case False
    have "wlp (terminate_tree p (termination_grace_ms l)) (\<lambda>r h'. ?I h' \<and> (r = Inr () \<longrightarrow> set (hs_unseen h') \<subseteq> X)) h'"
      using wlp_conj [OF frame_terminate_tree [OF st] terminate_tree_seen] that(1) by blast
    then show ?thesis
      using False that(2) by (auto simp: wlp_unfold elim!: wlp_mono split: sum.splits)
  qed
  show ?thesis
    unfolding supervise_def wlp_bind [of "capture_output p l deadline"]
    by (rule wlp_mono [OF capture_output_bounds [OF st _ assms(3)]])
      (use assms(1,2) finish in \<open>auto split: sum.splits split del: if_split\<close>)
qed

section \<open>Execution\<close>

definition probe_of :: "pinned_file \<Rightarrow> path \<Rightarrow> popen" where
  "probe_of b cwd = \<lparr>po_argv = base_command b @ [lit ''--'', lit ''/usr/bin/true''], po_cwd = cwd, po_env = []\<rparr>"

definition command_of :: "pinned_file \<Rightarrow> sandbox_invocation \<Rightarrow> popen" where
  "command_of b i = \<lparr>po_argv = projr (build_command b i), po_cwd = host_root, po_env = []\<rparr>"

lemma frame_verify_pin:
  assumes "stable I" and "I h"
  shows "wlp (verify_pin e e' b) (\<lambda>r h'. I h') h"
  unfolding verify_pin_def pin_changed_def access_x_def sys_test_def resolve_strict_def file_sha256_def
    read_bytes_def on_os_error_def
  by (intro frame_bind frame_except frame_sys assms)
    (auto intro!: frame_bind frame_except frame_sys assms split: if_splits)

lemma wlp_spawn:
  assumes "since h0 n xs h" and "set (hs_unseen h) \<subseteq> X"
  shows "wlp (spawn p) (\<lambda>r h'. case r of
      Inl e \<Rightarrow> e = OSError \<and> since h0 n xs h' \<and> set (hs_unseen h') \<subseteq> X
    | Inr child \<Rightarrow> since h0 n (xs @ [p]) h' \<and> set (hs_unseen h') \<subseteq> insert (pr_pid child) X) h"
  using assms by (auto simp: wlp_def spawn_def since_def)

text \<open>The probe says yes only after its child has been seen to exit.\<close>

lemma supports_bounds:
  assumes "since h0 n xs h" and "set (hs_unseen h) \<subseteq> X"
  shows "wlp (supports b cwd net) (\<lambda>r h'.
    (since h0 n xs h' \<or> since h0 n (xs @ [probe_of b cwd]) h') \<and>
    (r = Inr True \<longrightarrow> since h0 n (xs @ [probe_of b cwd]) h' \<and> set (hs_unseen h') \<subseteq> X)) h"
proof (cases "net = DENY_ALL")
  case False
  then show ?thesis using assms by (simp add: supports_def)
next
  case True
  let ?new = "since h0 n (xs @ [probe_of b cwd])"
  let ?I = "\<lambda>h. since h0 n xs h \<and> set (hs_unseen h) \<subseteq> X"
  have running: "wlp (io_except (wait_for child PROBE_TIMEOUT_SECONDS)
      (\<lambda>e. if e = TimeoutExpired then Some (io_bind (kill child) (\<lambda>_. io_bind (wait child) (\<lambda>_. io_raise TimeoutExpired)))
        else None)) (\<lambda>r h'. ?new h' \<and> (\<forall>c. r = Inr c \<longrightarrow> set (hs_unseen h') \<subseteq> X)) h'"
    if "?new h'" and "set (hs_unseen h') \<subseteq> insert (pr_pid child) X" for child :: process and h'
  proof -
    have w: "wlp (wait_for child PROBE_TIMEOUT_SECONDS)
        (\<lambda>r h'. ?new h' \<and> (\<forall>c. r = Inr c \<longrightarrow> set (hs_unseen h') \<subseteq> X)) h'"
      by (rule wlp_mono [OF wlp_conj [OF frame_wait_for [OF stable_since that(1)] wait_for_seen [OF that(2)]]]) blast
    have k: "wlp (io_bind (kill child) (\<lambda>_. io_bind (wait child) (\<lambda>_. io_raise TimeoutExpired)))
        (\<lambda>r h'. ?new h' \<and> (\<forall>c :: int. r = Inr c \<longrightarrow> set (hs_unseen h') \<subseteq> X)) h''" if "?new h''" for h''
      using that since_after
      by (auto simp: wlp_unfold kill_def wlp_sys intro!: wlp_mono [OF frame_wait [OF stable_since]] split: sum.splits)
    show ?thesis
      unfolding wlp_except by (rule wlp_mono [OF w]) (auto intro!: wlp_mono [OF k] split: sum.splits)
  qed
  have probe: "wlp (run_probe (probe_of b cwd)) (\<lambda>r h'. (since h0 n xs h' \<or> ?new h') \<and>
      (\<forall>c. r = Inr c \<longrightarrow> ?new h' \<and> set (hs_unseen h') \<subseteq> X)) h'" if "?I h'" for h'
    unfolding run_probe_def wlp_bind [of "spawn p" for p]
    by (rule wlp_mono [OF wlp_spawn]) (use that in \<open>auto intro: wlp_mono [OF running] split: sum.splits\<close>)
  have "wlp (verify_bubblewrap b) (\<lambda>r h'. ?I h') h"
    unfolding verify_bubblewrap_def by (rule frame_verify_pin [OF stable_conj [OF stable_since stable_unseen]]) (use assms in simp)
  then show ?thesis
    unfolding supports_def probe_of_def [symmetric] using True
    by (auto simp: wlp_unfold intro!: wlp_mono [OF probe] elim!: wlp_mono split: sum.splits)
qed

text \<open>A result that respects the invocation, with times the host has read in this order.\<close>

definition result_ok :: "command_limits \<Rightarrow> (nat \<Rightarrow> datetime) \<Rightarrow> sandbox_result \<Rightarrow> bool" where
  "result_ok l utc res \<longleftrightarrow> within_ceilings l (sr_stdout res) (sr_stderr res) \<and>
     (sr_termination res = EXITED \<or> forced (sr_termination res)) \<and>
     (sr_exit_code res \<noteq> None \<longleftrightarrow> sr_termination res = EXITED) \<and>
     (\<exists>n m. n \<le> m \<and> sr_started_at res = utc n \<and> sr_finished_at res = utc m)"

lemma run_child_bounds:
  assumes "since h0 n xs h" and "set (hs_unseen h) \<subseteq> insert (pr_pid p) X" and "wf_limits (si_limits i)"
    and "started_at = hs_utc h0 k" and "k \<le> n"
  shows "wlp (run_child b i started_at p) (\<lambda>r h'. since h0 n xs h' \<and>
    (case r of Inl e \<Rightarrow> True | Inr res \<Rightarrow> result_ok (si_limits i) (hs_utc h0) res \<and> set (hs_unseen h') \<subseteq> X)) h"
proof -
  let ?l = "si_limits i"
  let ?good = "\<lambda>(c, code). capture_ok ?l c \<and> (code \<noteq> None \<longleftrightarrow> cap_termination c = EXITED)"
  let ?S = "since h0 n xs"
  have handled: "wlp (io_except (supervise p ?l t) (\<lambda>e. if e = OSError
      then Some (io_bind (terminate_tree p (termination_grace_ms ?l)) (\<lambda>_. io_raise (SandboxError SB_CLEANUP_FAILED)))
      else None))
      (\<lambda>r h'. ?S h' \<and> (case r of Inl e \<Rightarrow> True | Inr x \<Rightarrow> ?good x \<and> set (hs_unseen h') \<subseteq> X)) h'"
    if "?S h'" and "set (hs_unseen h') \<subseteq> insert (pr_pid p) X" for t h'
  proof -
    have cleanup: "wlp (io_bind (terminate_tree p (termination_grace_ms ?l)) (\<lambda>_. io_raise (SandboxError SB_CLEANUP_FAILED)))
        (\<lambda>r h'. ?S h' \<and> (case r of Inl e \<Rightarrow> True | Inr x \<Rightarrow> ?good x \<and> set (hs_unseen h') \<subseteq> X)) h''" if "?S h''" for h''
      using that by (auto simp: wlp_bind intro!: wlp_mono [OF frame_terminate_tree [OF stable_since]] split: sum.splits)
    then show ?thesis
      unfolding wlp_except
      by (intro wlp_mono [OF supervise_bounds [OF that assms(3)]])
        (auto intro!: wlp_mono [OF cleanup] split: sum.splits)
  qed
  have verified: "wlp (verify_bubblewrap b) (\<lambda>u h''. ?S h'') h'" if "?S h'" for h'
    unfolding verify_bubblewrap_def by (rule frame_verify_pin [OF stable_since that])
  have seen: "wlp (verify_bubblewrap b) (\<lambda>u h''. set (hs_unseen h'') \<subseteq> X) h'" if "set (hs_unseen h') \<subseteq> X" for h'
    unfolding verify_bubblewrap_def by (rule frame_verify_pin [OF stable_unseen that])
  have final: "wlp (io_finally (io_except (supervise p ?l t) (\<lambda>e. if e = OSError
      then Some (io_bind (terminate_tree p (termination_grace_ms ?l)) (\<lambda>_. io_raise (SandboxError SB_CLEANUP_FAILED)))
      else None)) (verify_bubblewrap b))
      (\<lambda>r h'. ?S h' \<and> (case r of Inl e \<Rightarrow> True | Inr x \<Rightarrow> ?good x \<and> set (hs_unseen h') \<subseteq> X)) h'"
    if "?S h'" and "set (hs_unseen h') \<subseteq> insert (pr_pid p) X" for t h'
    unfolding wlp_finally
  proof (rule wlp_mono [OF handled [OF that]])
    fix r h'' assume r: "?S h'' \<and> (case r of Inl e \<Rightarrow> True | Inr x \<Rightarrow> ?good x \<and> set (hs_unseen h'') \<subseteq> X)"
    show "wlp (verify_bubblewrap b) (\<lambda>u h'. case u of
        Inl e \<Rightarrow> ?S h' \<and> (case Inl e of Inl e \<Rightarrow> True | Inr x \<Rightarrow> ?good x \<and> set (hs_unseen h') \<subseteq> X)
      | Inr _ \<Rightarrow> ?S h' \<and> (case r of Inl e \<Rightarrow> True | Inr x \<Rightarrow> ?good x \<and> set (hs_unseen h') \<subseteq> X)) h''"
    proof (cases r)
      case (Inl e)
      then show ?thesis using r by (auto intro!: wlp_mono [OF verified] split: sum.splits)
    next
      case (Inr x)
      then show ?thesis
        using r by (auto intro!: wlp_mono [OF wlp_conj [OF verified seen]] split: sum.splits)
    qed
  qed
  have times: "\<exists>n' m. n' \<le> m \<and> started_at = hs_utc h0 n' \<and> hs_utc h' (hs_tick h') = hs_utc h0 m" if "?S h'" for h'
    using that assms(4,5) by (metis since_def order_trans)
  show ?thesis
    unfolding run_child_def wlp_bind [of monotonic] wlp_monotonic sum.case wlp_bind [of "io_finally m c" for m c]
    by (rule wlp_mono [OF final])
      (use assms(1,2) times since_after in \<open>auto simp: wlp_bind result_ok_def capture_ok_def split: sum.splits\<close>)
qed

text \<open>What an execution has started, and what its result is.\<close>

definition execution_ok ::
  "pinned_file \<Rightarrow> path \<Rightarrow> sandbox_invocation \<Rightarrow> 'h process_host_scheme \<Rightarrow> sandbox_result res \<Rightarrow>
   'h process_host_scheme \<Rightarrow> bool" where
  "execution_ok b cwd i h r h' \<longleftrightarrow>
    (\<exists>k. hs_started h' = hs_started h @ take k [probe_of b cwd, command_of b i]) \<and>
    (case r of Inl e \<Rightarrow> True | Inr res \<Rightarrow> result_ok (si_limits i) (hs_utc h) res \<and>
      set (hs_unseen h') \<subseteq> set (hs_unseen h) \<and>
      hs_started h' = hs_started h @ [probe_of b cwd, command_of b i])"

lemma execution_ok_raised:
  "since h n (hs_started h) h' \<Longrightarrow> execution_ok b cwd i h (Inl e) h'"
  "since h n (hs_started h @ [probe_of b cwd]) h' \<Longrightarrow> execution_ok b cwd i h (Inl e) h'"
  "since h n (hs_started h @ [probe_of b cwd, command_of b i]) h' \<Longrightarrow> execution_ok b cwd i h (Inl e) h'"
  by (auto simp: since_def execution_ok_def intro: exI [of _ 0] exI [of _ "Suc 0"] exI [of _ 2])

lemma execution_ok_returned:
  "since h n (hs_started h @ [probe_of b cwd, command_of b i]) h' \<Longrightarrow> result_ok (si_limits i) (hs_utc h) res \<Longrightarrow>
   set (hs_unseen h') \<subseteq> set (hs_unseen h) \<Longrightarrow> execution_ok b cwd i h (Inr res) h'"
  by (auto simp: since_def execution_ok_def intro: exI [of _ 2])

lemma spawned_bounds:
  assumes "wf_limits (si_limits i)" and "build_command b i = Inr command"
    and "since h n (hs_started h @ [probe_of b cwd]) h'" and "set (hs_unseen h') \<subseteq> set (hs_unseen h)"
    and "started_at = hs_utc h k" and "k \<le> n"
  shows "wlp (io_bind (io_except (spawn \<lparr>po_argv = command, po_cwd = host_root, po_env = []\<rparr>)
      (on_os_error (SandboxError SB_SPAWN_FAILED))) (\<lambda>child. run_child b i started_at child)) (execution_ok b cwd i h) h'"
proof -
  let ?S = "since h n (hs_started h @ [probe_of b cwd, command_of b i])"
  have c: "\<lparr>po_argv = command, po_cwd = host_root, po_env = []\<rparr> = command_of b i"
    using assms(2) by (simp add: command_of_def)
  have run: "wlp (run_child b i started_at child) (execution_ok b cwd i h) h''"
    if "?S h''" and "set (hs_unseen h'') \<subseteq> insert (pr_pid child) (set (hs_unseen h))" for child h''
    by (rule wlp_mono [OF run_child_bounds [OF that assms(1,5,6)]])
      (auto intro: execution_ok_raised(3) execution_ok_returned split: sum.splits)
  show ?thesis
    unfolding c wlp_bind wlp_except
    by (rule wlp_mono [OF wlp_spawn [OF assms(3,4)]])
      (auto simp: on_os_error_def intro: execution_ok_raised(2) run split: sum.splits)
qed

lemma sandbox_execute_bounds:
  assumes "wf_limits (si_limits i)"
  shows "wlp (sandbox_execute b cwd i) (execution_ok b cwd i h) h"
proof -
  let ?xs = "hs_started h" and ?X = "set (hs_unseen h)" and ?probe = "probe_of b cwd"
  have verified: "wlp (io_bind (verify_bubblewrap b) (\<lambda>_. io_bind (io_lift (build_command b i)) (\<lambda>command.
      io_bind utc_now (\<lambda>started_at. io_bind (io_except (spawn \<lparr>po_argv = command, po_cwd = host_root, po_env = []\<rparr>)
        (on_os_error (SandboxError SB_SPAWN_FAILED))) (\<lambda>child. run_child b i started_at child)))))
      (execution_ok b cwd i h) h'"
    if "since h n (?xs @ [?probe]) h'" "set (hs_unseen h') \<subseteq> ?X" for h' n
  proof -
    have "wlp (verify_bubblewrap b) (\<lambda>r h'. since h n (?xs @ [?probe]) h' \<and> set (hs_unseen h') \<subseteq> ?X) h'"
      unfolding verify_bubblewrap_def
      by (rule frame_verify_pin [OF stable_conj [OF stable_since stable_unseen]]) (use that in simp)
    moreover have "wlp (io_bind (io_lift (build_command b i)) (\<lambda>command.
        io_bind utc_now (\<lambda>started_at. io_bind (io_except (spawn \<lparr>po_argv = command, po_cwd = host_root, po_env = []\<rparr>)
          (on_os_error (SandboxError SB_SPAWN_FAILED))) (\<lambda>child. run_child b i started_at child))))
        (execution_ok b cwd i h) h''"
      if "since h n (?xs @ [?probe]) h''" "set (hs_unseen h'') \<subseteq> ?X" for h''
    proof (cases "build_command b i")
      case (Inl e)
      then show ?thesis using execution_ok_raised(2) [OF that(1)] by (simp add: wlp_bind)
    next
      case (Inr command)
      have "since h (hs_tick h'') (?xs @ [?probe]) (after (found_fs h'') h'')" "hs_utc h'' = hs_utc h"
        using that(1) by (simp_all add: since_def)
      then show ?thesis
        unfolding wlp_bind [of "io_lift r" for r] wlp_bind [of utc_now] wlp_simps wlp_utc_now Inr sum.case
        by (intro spawned_bounds [OF assms Inr]) (use that(2) in auto)
    qed
    ultimately show ?thesis
      unfolding wlp_bind [of "verify_bubblewrap b"]
      by (elim wlp_mono) (auto intro: execution_ok_raised(2) split: sum.splits)
  qed
  have "wlp (if si_network_policy i \<noteq> DENY_ALL then io_return False else supports b cwd (si_network_policy i))
      (\<lambda>r h'. (since h 0 ?xs h' \<or> since h 0 (?xs @ [?probe]) h') \<and>
        (r = Inr True \<longrightarrow> since h 0 (?xs @ [?probe]) h' \<and> set (hs_unseen h') \<subseteq> ?X)) h"
    using supports_bounds [of h 0 ?xs h ?X b cwd] by (simp add: since_def)
  then show ?thesis
    unfolding sandbox_execute_def wlp_bind [of "if c then io_return x else m" for c x m]
    by (elim wlp_mono) (auto simp: wlp_if intro: execution_ok_raised verified split: sum.splits)
qed

section \<open>The command line\<close>

text \<open>Nothing of an invocation is lost or confused in the list of arguments.\<close>

definition setenv_args :: "environment_variable list \<Rightarrow> str list" where
  "setenv_args es = concat (map (\<lambda>e. [lit ''--setenv'', env_name e, env_value e]) es)"

lemma setenv_args_inject:
  "setenv_args es @ lit ''--'' # r = setenv_args es' @ lit ''--'' # r' \<longleftrightarrow> es = es' \<and> r = r'"
proof (induction es arbitrary: es')
  case Nil
  then show ?case by (cases es') (simp_all add: setenv_args_def)
next
  case (Cons e es)
  then show ?case
  proof (cases es')
    case Nil
    then show ?thesis by (simp add: setenv_args_def)
  next
    case (Cons e' fs)
    then show ?thesis
      using Cons.IH [of fs] by (cases e; cases e') (auto simp: setenv_args_def)
  qed
qed

lemma build_command_Inr:
  "build_command b i = Inr cmd \<longleftrightarrow> (\<exists>rel. relative_to (si_working_directory i) (si_workspace_root i) = Inr rel \<and>
     cmd = base_command b @ [lit ''--dir'', lit ''/alicerce'', lit ''--ro-bind'', as_posix (si_executable i),
       as_posix SANDBOX_EXECUTABLE, lit ''--chmod'', lit ''0555'', lit ''/alicerce'', lit ''--dir'',
       as_posix SANDBOX_WORKSPACE, lit ''--bind'', as_posix (si_workspace_root i), as_posix SANDBOX_WORKSPACE,
       lit ''--chdir'', as_posix (SANDBOX_WORKSPACE\<lparr>path_tail := path_tail SANDBOX_WORKSPACE @ path_tail rel\<rparr>)] @
       setenv_args (si_environment i) @ lit ''--'' # as_posix SANDBOX_EXECUTABLE # si_arguments i)"
  by (auto simp: build_command_def setenv_args_def Let_def simp del: lit_simps)

lemma build_command_inject:
  assumes "build_command b i = Inr cmd" and "build_command b i' = Inr cmd"
  shows "si_arguments i = si_arguments i' \<and> si_environment i = si_environment i' \<and>
    as_posix (si_executable i) = as_posix (si_executable i') \<and>
    as_posix (si_workspace_root i) = as_posix (si_workspace_root i')"
  using assms by (auto simp: build_command_Inr setenv_args_inject simp del: lit_simps)

lemma build_command_Inl:
  "build_command b i = Inl e \<longleftrightarrow> e = SandboxError SB_ISOLATION_FAILURE \<and>
     \<not> is_relative_to (si_working_directory i) (si_workspace_root i)"
  by (auto simp: build_command_def relative_to_def Let_def)

end
