(* ===== verification/WorkspaceRecords.thy ===== *)
theory WorkspaceRecords
  imports GitWorkspace SandboxBounds
begin

text \<open>
  What the operations of the Git primitive and of the workspace adapter leave alone, on every
  host: they start no process but Git in its restricted environment, and only publishing and
  forgetting change the records. From this the index of runs and the records always agree.
\<close>

section \<open>Frames\<close>

text \<open>The children the Git primitive starts: its executable, under a restricted environment.\<close>

definition git_child :: "git_cli \<Rightarrow> popen \<Rightarrow> bool" where
  "git_child g q \<longleftrightarrow> (\<exists>arguments. po_argv q = as_posix (gc_executable g) # arguments) \<and>
     (\<exists>home config hooks extra. po_env q = git_environment home config hooks @ extra \<and>
       (extra = [] \<or> (\<exists>index. extra = [(lit ''GIT_INDEX_FILE'', index)])))"

definition framed :: "git_cli \<Rightarrow> ('h process_host_scheme \<Rightarrow> bool) \<Rightarrow> bool" where
  "framed g I \<longleftrightarrow> stable I \<and> (\<forall>q h. git_child g q \<longrightarrow> I h \<longrightarrow> wlp (spawn q) (\<lambda>r h'. I h') h)"

lemma frame_loop:
  assumes "I h" and "\<And>a h. I h \<Longrightarrow> wlp (body a) (\<lambda>r h'. I h') h"
  shows "wlp (io_loop body a) (\<lambda>r h'. I h') h"
  by (rule wlp_loop [where P = "\<lambda>a h. I h"]) (auto simp: assms(1) intro: wlp_mono [OF assms(2)] split: sum.splits)

lemma frame_finally:
  assumes "wlp m (\<lambda>r h'. I h') h" and "\<And>h'. I h' \<Longrightarrow> wlp c (\<lambda>r h'. I h') h'"
  shows "wlp (io_finally m c) (\<lambda>r h'. I h') h"
  unfolding wlp_finally by (rule wlp_mono [OF assms(1)]) (auto intro: wlp_mono [OF assms(2)] split: sum.splits)

lemma frame_return:
  "I h \<Longrightarrow> wlp (io_return x) (\<lambda>r h'. I h') h" "I h \<Longrightarrow> wlp (io_raise e) (\<lambda>r h'. I h') h"
  "I h \<Longrightarrow> wlp (io_lift r) (\<lambda>r h'. I h') h"
  by simp_all

lemma frame_if:
  "(b \<Longrightarrow> wlp m (\<lambda>r h'. I h') h) \<Longrightarrow> (\<not> b \<Longrightarrow> wlp n (\<lambda>r h'. I h') h) \<Longrightarrow> wlp (if b then m else n) (\<lambda>r h'. I h') h"
  by simp

lemma frame_case_prod:
  "(\<And>a b. p = (a, b) \<Longrightarrow> wlp (f a b) (\<lambda>r h'. I h') h) \<Longrightarrow> wlp (case p of (a, b) \<Rightarrow> f a b) (\<lambda>r h'. I h') h"
  by (cases p) simp

lemma frame_case_sum:
  "(\<And>a. v = Inl a \<Longrightarrow> wlp (f a) (\<lambda>r h'. I h') h) \<Longrightarrow> (\<And>b. v = Inr b \<Longrightarrow> wlp (k b) (\<lambda>r h'. I h') h) \<Longrightarrow>
   wlp (case v of Inl a \<Rightarrow> f a | Inr b \<Rightarrow> k b) (\<lambda>r h'. I h') h"
  by (cases v) simp_all

lemma frame_case_list:
  "(v = [] \<Longrightarrow> wlp f (\<lambda>r h'. I h') h) \<Longrightarrow> (\<And>x xs. v = x # xs \<Longrightarrow> wlp (k x xs) (\<lambda>r h'. I h') h) \<Longrightarrow>
   wlp (case v of [] \<Rightarrow> f | x # xs \<Rightarrow> k x xs) (\<lambda>r h'. I h') h"
  by (cases v) simp_all

lemma frame_case_answer:
  "(\<And>b. v = Chunk b \<Longrightarrow> wlp (f b) (\<lambda>r h'. I h') h) \<Longrightarrow> (v = WouldBlock \<Longrightarrow> wlp k (\<lambda>r h'. I h') h) \<Longrightarrow>
   wlp (case v of Chunk b \<Rightarrow> f b | WouldBlock \<Rightarrow> k) (\<lambda>r h'. I h') h"
  by (cases v) simp_all

lemmas frame_rules = frame_bind frame_finally frame_if frame_case_prod frame_case_sum frame_case_list
  frame_case_answer frame_return

lemma frame_handled:
  assumes "wlp m (\<lambda>r h'. I h') h" and "\<And>c h'. I h' \<Longrightarrow> wlp (io_raise c) (\<lambda>r h'. I h') h'"
  shows "wlp (io_except m (on_os_error e)) (\<lambda>r h'. I h') h"
  by (rule frame_except [OF assms(1)]) (auto simp: on_os_error_def split: if_splits)

lemma framed_stable: "framed g I \<Longrightarrow> stable I"
  by (simp add: framed_def)

lemma framed_after: "framed g I \<Longrightarrow> I h \<Longrightarrow> I (after f h)"
  using framed_stable unfolding stable_def by blast

lemma frame_rmtree: "framed g I \<Longrightarrow> I h \<Longrightarrow> wlp (rmtree p) (\<lambda>r h'. I h') h"
  by (auto simp: wlp_def rmtree_def Let_def framed_after split: host_event.splits option.splits)

lemma frame_calls:
  assumes "framed g I" and "I h"
  shows "wlp (sys call) (\<lambda>r h'. I h') h" "wlp (sys_test P) (\<lambda>r h'. I h') h"
    "wlp (resolve_strict p) (\<lambda>r h'. I h') h" "wlp (read_bytes p) (\<lambda>r h'. I h') h"
    "wlp (access_x p) (\<lambda>r h'. I h') h" "wlp (unlink p) (\<lambda>r h'. I h') h" "wlp (mkdir p) (\<lambda>r h'. I h') h"
    "wlp (rename p q) (\<lambda>r h'. I h') h" "wlp (rmtree p) (\<lambda>r h'. I h') h" "wlp (cleanup_tree p) (\<lambda>r h'. I h') h"
    "wlp (observe f) (\<lambda>r h'. I h') h" "wlp monotonic (\<lambda>r h'. I h') h" "wlp (kill c) (\<lambda>r h'. I h') h"
    "wlp (killpg c s) (\<lambda>r h'. I h') h" "wlp (wait c) (\<lambda>r h'. I h') h" "wlp (poll c) (\<lambda>r h'. I h') h"
    "wlp (select c ss t) (\<lambda>r h'. I h') h" "wlp (os_read c st n) (\<lambda>r h'. I h') h"
    "wlp (scandir p) (\<lambda>r h'. I h') h" "wlp (file_sha256 p) (\<lambda>r h'. I h') h"
proof -
  note st = framed_stable [OF assms(1)]
  show sys: "wlp (sys call) (\<lambda>r h'. I h') h" for call :: "fs \<Rightarrow> 'x res \<times> fs"
    by (rule frame_sys [OF st assms(2)])
  show "wlp (sys_test P) (\<lambda>r h'. I h') h" "wlp (resolve_strict p) (\<lambda>r h'. I h') h" "wlp (read_bytes p) (\<lambda>r h'. I h') h"
    "wlp (unlink p) (\<lambda>r h'. I h') h" "wlp (mkdir p) (\<lambda>r h'. I h') h" "wlp (rename p q) (\<lambda>r h'. I h') h"
    "wlp (kill c) (\<lambda>r h'. I h') h" "wlp (killpg c s) (\<lambda>r h'. I h') h" "wlp (scandir p) (\<lambda>r h'. I h') h"
    by (simp_all add: sys_test_def resolve_strict_def read_bytes_def unlink_def mkdir_def rename_def kill_def
        killpg_def scandir_def sys)
  show "wlp (access_x p) (\<lambda>r h'. I h') h"
    unfolding access_x_def sys_test_def by (rule frame_except [OF sys]) (auto split: if_splits)
  show "wlp (rmtree p) (\<lambda>r h'. I h') h" by (rule frame_rmtree [OF assms])
  then show "wlp (cleanup_tree p) (\<lambda>r h'. I h') h"
    using framed_after [OF assms] by (simp add: wlp_def cleanup_tree_def)
  show "wlp (observe f) (\<lambda>r h'. I h') h" "wlp monotonic (\<lambda>r h'. I h') h"
    using framed_after [OF assms] by simp_all
  show "wlp (wait c) (\<lambda>r h'. I h') h" "wlp (poll c) (\<lambda>r h'. I h') h" "wlp (select c ss t) (\<lambda>r h'. I h') h"
    "wlp (os_read c st n) (\<lambda>r h'. I h') h"
    by (intro frame_wait frame_poll frame_select frame_os_read st assms(2))+
  show "wlp (file_sha256 p) (\<lambda>r h'. I h') h"
    unfolding file_sha256_def read_bytes_def by (rule frame_bind [OF sys]) simp
qed

section \<open>The Git primitive\<close>

lemma frame_git_terminate: "framed g I \<Longrightarrow> I h \<Longrightarrow> wlp (terminate_with p c) (\<lambda>r h'. I h') h"
  unfolding terminate_with_def git_terminate_def git_error_def
  by (intro frame_rules frame_except frame_calls) (auto intro: frame_calls split: if_splits)

lemma frame_git_read_events: "framed g I \<Longrightarrow> I h \<Longrightarrow> wlp (git_read_events p l events c) (\<lambda>r h'. I h') h"
proof (induction events arbitrary: c h)
  case (Cons s events)
  then show ?case
    unfolding git_read_events.simps Let_def
    by (intro frame_rules frame_calls frame_git_terminate) auto
qed simp

lemma frame_capture_bounded:
  assumes "framed g I" and "I h"
  shows "wlp (capture_bounded gc p) (\<lambda>r h'. I h') h"
  unfolding capture_bounded_def git_round_def Let_def
  by (intro frame_rules frame_loop frame_calls [OF assms(1)] frame_git_terminate [OF assms(1)]
      frame_git_read_events [OF assms(1)] assms(2))

lemma frame_git_run:
  assumes "framed g I" and "I h" and "\<And>arguments. git_child g \<lparr>po_argv = as_posix (gc_executable g) # arguments, po_cwd = cwd, po_env = env\<rparr>"
  shows "wlp (git_run g arguments cwd env) (\<lambda>r h'. I h') h"
proof -
  have "wlp (spawn \<lparr>po_argv = as_posix (gc_executable g) # arguments, po_cwd = cwd, po_env = env\<rparr>) (\<lambda>r h'. I h') h"
    using assms by (simp add: framed_def)
  then show ?thesis
    unfolding git_run_def os_error_as_def git_error_def
    by (intro frame_rules frame_handled frame_capture_bounded [OF assms(1)])
qed

text \<open>The environment of the children is the one the control directories determine.\<close>

definition restricted :: "(str \<times> str) list \<Rightarrow> bool" where
  "restricted env \<longleftrightarrow> (\<exists>home config hooks. env = git_environment home config hooks)"

lemma frame_bind_value:
  assumes "wlp m (\<lambda>r h'. I h' \<and> (\<forall>x. r = Inr x \<longrightarrow> P x)) h" and "\<And>x h'. I h' \<Longrightarrow> P x \<Longrightarrow> wlp (f x) (\<lambda>r h'. I h') h'"
  shows "wlp (io_bind m f) (\<lambda>r h'. I h') h"
  unfolding wlp_bind by (rule wlp_mono [OF assms(1)]) (auto simp: assms(2) split: sum.splits)

lemma control_environment_restricted:
  assumes "framed g I" and "I h"
  shows "wlp (control_environment control) (\<lambda>r h'. I h' \<and> (\<forall>env. r = Inr env \<longrightarrow> restricted env)) h"
  unfolding control_environment_def Let_def wlp_bind
  by (intro wlp_mono [OF frame_calls(7) [OF assms]])
    (auto simp: wlp_bind restricted_def intro!: wlp_mono [OF frame_calls(7) [OF assms(1)]] split: sum.splits)

lemma restricted_child:
  "restricted env \<Longrightarrow> git_child g \<lparr>po_argv = as_posix (gc_executable g) # arguments, po_cwd = cwd, po_env = env\<rparr>"
  "restricted env \<Longrightarrow> git_child g \<lparr>po_argv = as_posix (gc_executable g) # arguments, po_cwd = cwd,
     po_env = env @ [(lit ''GIT_INDEX_FILE'', index)]\<rparr>"
  unfolding git_child_def restricted_def by (auto simp del: lit_simps) (metis append_Nil2)+

lemma frame_with_tempdir:
  assumes "framed g I" and "I h" and "\<And>control h'. I h' \<Longrightarrow> wlp (body control) (\<lambda>r h'. I h') h'"
  shows "wlp (with_tempdir pre dir body) (\<lambda>r h'. I h') h"
  unfolding with_tempdir_def mkdtemp_def
  by (intro frame_rules frame_calls [OF assms(1)] assms(2,3))

lemma frame_head_of:
  "framed g I \<Longrightarrow> I h \<Longrightarrow> restricted env \<Longrightarrow> wlp (head_of g repo cwd env) (\<lambda>r h'. I h') h"
  unfolding head_of_def by (intro frame_rules frame_git_run restricted_child)

lemma frame_materialize_body:
  assumes "framed g I" and "I h"
  shows "wlp (materialize_body g source destination sha control) (\<lambda>r h'. I h') h"
  unfolding materialize_body_def Let_def git_error_def
  by (rule frame_bind_value [OF control_environment_restricted [OF assms]])
    (intro frame_rules frame_git_run frame_head_of restricted_child assms(1); assumption)

lemma frame_validate_paths: "framed g I \<Longrightarrow> I h \<Longrightarrow> wlp (validate_paths s d) (\<lambda>r h'. I h') h"
  unfolding validate_paths_def os_error_as_def git_error_def Let_def
  by (intro frame_rules frame_handled frame_calls)

lemma frame_validate_repository: "framed g I \<Longrightarrow> I h \<Longrightarrow> wlp (validate_repository p) (\<lambda>r h'. I h') h"
  unfolding validate_repository_def os_error_as_def git_error_def Let_def
  by (intro frame_rules frame_handled frame_calls)

lemma frame_discard_partial: "framed g I \<Longrightarrow> I h \<Longrightarrow> wlp (discard_partial p) (\<lambda>r h'. I h') h"
  unfolding discard_partial_def by (intro frame_rules frame_calls)

lemma frame_materialize:
  assumes "framed g I" and "I h"
  shows "wlp (materialize_baseline g s d sha) (\<lambda>r h'. I h') h"
proof -
  have "wlp (io_bind (discard_partial p) (\<lambda>_. io_raise e)) (\<lambda>r h'. I h') h'" if "I h'" for p e h'
    by (intro frame_rules frame_discard_partial [OF assms(1)] that)
  then show ?thesis
    unfolding materialize_baseline_def git_error_def
    by (intro frame_rules frame_validate_paths [OF assms] frame_except frame_with_tempdir [OF assms(1)]
        frame_materialize_body [OF assms(1)]) (auto split: exn.splits)
qed

lemma frame_verify_baseline:
  assumes "framed g I" and "I h"
  shows "wlp (verify_baseline g p sha) (\<lambda>r h'. I h') h"
proof -
  have body: "wlp (io_bind (control_environment control) (\<lambda>environment.
      io_bind (head_of g t (path_parent t) environment) (\<lambda>resolved_head.
      io_bind (git_run g [lit ''-C'', as_posix t, lit ''remote''] (path_parent t) environment) (\<lambda>output.
        io_return (resolved_head, strip output))))) (\<lambda>r h'. I h') h'" if "I h'" for control t h'
    by (rule frame_bind_value [OF control_environment_restricted [OF assms(1) that]])
      (intro frame_rules frame_git_run frame_head_of restricted_child assms(1); assumption)
  show ?thesis
    unfolding verify_baseline_def git_error_def os_error_as_def
    by (rule frame_bind [OF frame_validate_repository [OF assms]],
        rule frame_bind [OF frame_handled [OF frame_with_tempdir [OF assms(1) _ body]]])
      (auto intro!: frame_rules)
qed

lemma frame_snapshot:
  assumes "framed g I" and "I h"
  shows "wlp (snapshot_candidate g p) (\<lambda>r h'. I h') h"
proof -
  have body: "wlp (io_bind (control_environment control) (\<lambda>base.
      let environment = base @ [(lit ''GIT_INDEX_FILE'', as_posix (path_div control (lit ''candidate.index'')))];
          parent = path_parent t in
      io_bind (git_run g [lit ''-C'', as_posix t, lit ''read-tree'', lit ''HEAD''] parent environment) (\<lambda>_.
      io_bind (git_run g [lit ''-C'', as_posix t, lit ''add'', lit ''-A'', lit ''--'', lit ''.''] parent environment) (\<lambda>_.
      io_bind (git_run g [lit ''-C'', as_posix t, lit ''write-tree''] parent environment) (\<lambda>output.
        io_return (strip output)))))) (\<lambda>r h'. I h') h'" if "I h'" for control t h'
    unfolding Let_def
    by (rule frame_bind_value [OF control_environment_restricted [OF assms(1) that]])
      (intro frame_rules frame_git_run restricted_child assms(1); assumption)
  show ?thesis
    unfolding snapshot_candidate_def git_error_def
    by (rule frame_bind [OF frame_validate_repository [OF assms]], rule frame_except,
        rule frame_bind [OF frame_with_tempdir [OF assms(1) _ body]])
      (auto intro!: frame_rules split: if_splits)
qed

section \<open>The workspace adapter\<close>

lemma frame_io_tests:
  "wlp m (\<lambda>r h'. I h') h \<Longrightarrow> (\<And>h'. I h' \<Longrightarrow> wlp n (\<lambda>r h'. I h') h') \<Longrightarrow> wlp (io_or m n) (\<lambda>r h'. I h') h"
  "wlp m (\<lambda>r h'. I h') h \<Longrightarrow> (\<And>h'. I h' \<Longrightarrow> wlp n (\<lambda>r h'. I h') h') \<Longrightarrow> wlp (io_and m n) (\<lambda>r h'. I h') h"
  "wlp m (\<lambda>r h'. I h') h \<Longrightarrow> wlp (io_not m) (\<lambda>r h'. I h') h"
  unfolding io_or_def io_and_def io_not_def by (intro frame_rules; assumption)+

lemma frame_storage:
  "wlp m (\<lambda>r h'. I h') h \<Longrightarrow> wlp (storage_failure_on_os_error m) (\<lambda>r h'. I h') h"
  unfolding storage_failure_on_os_error_def by (intro frame_handled frame_rules)

lemma frame_assert_root: "framed g I \<Longrightarrow> I h \<Longrightarrow> wlp (assert_root_integrity a) (\<lambda>r h'. I h') h"
  unfolding assert_root_integrity_def ws_error_def
  by (intro frame_rules frame_storage frame_io_tests frame_calls)

lemma frame_config_digest: "framed g I \<Longrightarrow> I h \<Longrightarrow> wlp (config_digest p) (\<lambda>r h'. I h') h"
  unfolding config_digest_def ws_error_def Let_def
  by (intro frame_rules frame_storage frame_io_tests frame_calls)

lemma frame_check_names: "framed g I \<Longrightarrow> I h \<Longrightarrow> wlp (check_names w c names dirs) (\<lambda>r h'. I h') h"
proof (induction names arbitrary: dirs h)
  case (Cons name names)
  then show ?case
    unfolding check_names.simps Let_def ws_error_def
    by (intro frame_rules frame_handled frame_calls) auto
qed simp

lemma frame_push: "framed g I \<Longrightarrow> I h \<Longrightarrow> wlp (push_directories c names stack) (\<lambda>r h'. I h') h"
proof (induction names arbitrary: stack h)
  case (Cons name names)
  then show ?case
    unfolding push_directories.simps
    by (intro frame_rules frame_except frame_calls) (auto split: if_splits)
qed simp

lemma frame_validate_symlinks:
  assumes "framed g I" and "I h"
  shows "wlp (validate_symlinks w) (\<lambda>r h'. I h') h"
  unfolding validate_symlinks_def walk_round_def Let_def
  by (intro frame_rules frame_loop frame_storage frame_calls [OF assms(1)] frame_check_names [OF assms(1)]
      frame_push [OF assms(1)] assms(2))

lemma frame_discard_unpublished: "framed g I \<Longrightarrow> I h \<Longrightarrow> wlp (discard_unpublished a p) (\<lambda>r h'. I h') h"
  unfolding discard_unpublished_def
  by (intro frame_rules frame_except frame_io_tests frame_calls) (auto split: if_splits)

lemma frame_translating: "wlp m (\<lambda>r h'. I h') h \<Longrightarrow> wlp (translating_git m) (\<lambda>r h'. I h') h"
  unfolding translating_git_def by (rule frame_except) (auto split: exn.splits)

lemma frame_validate_record:
  "framed (gw_git a) I \<Longrightarrow> I h \<Longrightarrow> wlp (validate_record a r) (\<lambda>r h'. I h') h"
  unfolding validate_record_def ws_error_def
  by (intro frame_rules frame_assert_root frame_io_tests frame_calls frame_validate_symlinks frame_config_digest
      frame_translating frame_verify_baseline)

section \<open>Records\<close>

definition same_records :: "'h workspace_host_ext git_host_ext process_host_scheme \<Rightarrow>
    'h workspace_host_ext git_host_ext process_host_scheme \<Rightarrow> bool" where
  "same_records h0 h \<longleftrightarrow> wh_records h = wh_records h0 \<and> wh_run_index h = wh_run_index h0"

lemma same_records_refl [simp]: "same_records h h"
  by (simp add: same_records_def)

lemma framed_same_records: "framed g (same_records h0)"
  by (auto simp: framed_def stable_def same_records_def after_def seen_exit_def wlp_def spawn_def)

text \<open>Computations that look at the host themselves.\<close>

lemma wlp_if_state: "wlp (\<lambda>h. if P h then m h else n h) Q h' = (if P h' then wlp m Q h' else wlp n Q h')"
  by (simp add: wlp_def)

lemma wlp_bind_state: "wlp (\<lambda>h. io_bind (m h) f h) Q h' = wlp (io_bind (m h') f) Q h'"
  by (simp add: wlp_def io_bind_def)

lemma wlp_publish [simp]:
  "wlp (publish r) Q h = Q (Inr ()) (h\<lparr>wh_records := (wh_records h)(wi_workspace_id (wr_identity r) \<mapsto> r),
     wh_run_index := (wh_run_index h)(wi_run_id (wr_identity r) \<mapsto> wi_workspace_id (wr_identity r))\<rparr>)"
  by (simp add: wlp_def publish_def)

lemma wlp_forget [simp]:
  "wlp (forget r) Q h = Q (Inr ()) (h\<lparr>wh_records := (wh_records h)(wi_workspace_id (wr_identity r) := None),
     wh_run_index := (wh_run_index h)(wi_run_id (wr_identity r) := None)\<rparr>)"
  by (simp add: wlp_def forget_def)

text \<open>A preparation publishes one fresh record, and only when everything has succeeded.\<close>

definition published ::
  "local_git_workspace \<Rightarrow> workspace_id res \<Rightarrow> run_identity \<Rightarrow> workspace_identity \<Rightarrow>
   'h workspace_host_ext git_host_ext process_host_scheme \<Rightarrow>
   'h workspace_host_ext git_host_ext process_host_scheme \<Rightarrow> bool" where
  "published a nid i w h h' \<longleftrightarrow> (\<exists>wid p digest. nid = Inr wid \<and> path_for a wid = Inr p \<and>
     wh_records h wid = None \<and> wh_run_index h (ri_run_id i) = None \<and>
     w = \<lparr>wi_workspace_id = wid, wi_run_id = ri_run_id i, wi_baseline_sha = ri_baseline_sha i\<rparr> \<and>
     wh_records h' = (wh_records h)(wid \<mapsto> \<lparr>wr_identity = w, wr_path = p, wr_config_digest = digest\<rparr>) \<and>
     wh_run_index h' = (wh_run_index h)(ri_run_id i \<mapsto> wid))"

lemma frame_prepare_checked:
  assumes "framed (gw_git a) I" and "I h"
  shows "wlp (prepare_checked a d sha) (\<lambda>r h'. I h') h"
proof -
  have discard: "wlp (io_bind (discard_unpublished a d) (\<lambda>_. io_raise e)) (\<lambda>r h'. I h') h'" if "I h'" for e h'
    by (intro frame_rules frame_discard_unpublished [OF assms(1)] that)
  have "wlp (io_bind (materialize_baseline (gw_git a) (gw_source a) d sha) (\<lambda>_. io_bind (validate_symlinks d) (\<lambda>_.
      io_bind (config_digest d) (\<lambda>digest. io_bind (verify_baseline (gw_git a) d sha) (\<lambda>_. io_return digest)))))
      (\<lambda>r h'. I h') h"
    by (intro frame_rules frame_materialize [OF assms(1)] frame_validate_symlinks [OF assms(1)]
        frame_config_digest [OF assms(1)] frame_verify_baseline [OF assms(1)] assms(2))
  then show ?thesis
    unfolding prepare_checked_def ws_error_def by (rule frame_except) (auto intro: discard split: exn.splits)
qed

lemma same_records_trans: "same_records h h' \<Longrightarrow> same_records h' h'' \<Longrightarrow> same_records h h''"
  by (simp add: same_records_def)

lemma prepare_at_outcome:
  assumes "path_for a wid = Inr d" and "wh_run_index h (ri_run_id i) = None"
  shows "wlp (prepare_at a i wid d) (\<lambda>r h'. case r of Inl e \<Rightarrow> same_records h h' | Inr w \<Rightarrow> published a (Inr wid) i w h h') h"
proof (cases "wh_records h wid")
  case (Some r)
  then show ?thesis by (simp add: wlp_def prepare_at_def ws_error_def io_raise_def)
next
  case None
  let ?Q = "\<lambda>r h'. case r of Inl e \<Rightarrow> same_records h h' | Inr w \<Rightarrow> published a (Inr wid) i w h h'"
  let ?w = "\<lparr>wi_workspace_id = wid, wi_run_id = ri_run_id i, wi_baseline_sha = ri_baseline_sha i\<rparr>"
  note F = framed_same_records [of "gw_git a" h]
  have checked: "wlp (io_bind (prepare_checked a d (ri_baseline_sha i)) (\<lambda>digest.
      io_bind (publish \<lparr>wr_identity = ?w, wr_path = d, wr_config_digest = digest\<rparr>) (\<lambda>_. io_return ?w))) ?Q h'"
    if "same_records h h'" for h'
    unfolding wlp_bind [of "prepare_checked a d sha" for sha]
    by (rule wlp_mono [OF frame_prepare_checked [OF F that]])
      (use assms None in \<open>auto simp: wlp_bind same_records_def published_def split: sum.splits\<close>)
  have "wlp (io_or (path_exists d) (is_symlink d)) (\<lambda>r h'. same_records h h') h"
    by (intro frame_io_tests frame_calls [OF F]) simp_all
  then have "wlp (io_bind (io_or (path_exists d) (is_symlink d)) (\<lambda>taken. if taken then ws_error WS_ALREADY_EXISTS
      else io_bind (prepare_checked a d (ri_baseline_sha i)) (\<lambda>digest.
      io_bind (publish \<lparr>wr_identity = ?w, wr_path = d, wr_config_digest = digest\<rparr>) (\<lambda>_. io_return ?w)))) ?Q h"
    unfolding wlp_bind [of "io_or m n" for m n]
  proof (rule wlp_mono)
    fix r h' assume "same_records h h'"
    then show "case r of Inl e \<Rightarrow> ?Q (Inl e) h' | Inr taken \<Rightarrow> wlp (if taken then ws_error WS_ALREADY_EXISTS
      else io_bind (prepare_checked a d (ri_baseline_sha i)) (\<lambda>digest.
      io_bind (publish \<lparr>wr_identity = ?w, wr_path = d, wr_config_digest = digest\<rparr>) (\<lambda>_. io_return ?w))) ?Q h'"
      using checked [of h'] by (cases r) (simp_all only: sum.case wlp_if ws_error_def wlp_simps split: if_split, simp)
  qed
  then show ?thesis
    using None unfolding wlp_def prepare_at_def Let_def by simp
qed

lemma ws_prepare_outcome:
  "wlp (ws_prepare a nid i) (\<lambda>r h'. case r of Inl e \<Rightarrow> same_records h h' | Inr w \<Rightarrow> published a nid i w h h') h"
  unfolding ws_prepare_def wlp_bind [of "assert_root_integrity a"]
proof (rule wlp_mono [OF frame_assert_root [OF framed_same_records same_records_refl]])
  let ?Q = "\<lambda>r h'. case r of Inl e \<Rightarrow> same_records h h' | Inr w \<Rightarrow> published a nid i w h h'"
  fix r h1 assume J: "same_records h h1"
  then have J': "published a nid i w h1 h' = published a nid i w h h'" "same_records h1 h' = same_records h h'" for nid w h'
    by (simp_all add: published_def same_records_def)
  show "case r of Inl e \<Rightarrow> ?Q (Inl e) h1 | Inr _ \<Rightarrow> wlp (\<lambda>h.
      if wh_run_index h (ri_run_id i) \<noteq> None then ws_error WS_ALREADY_EXISTS h
      else io_bind (io_lift nid) (\<lambda>wid. io_bind (io_lift (path_for a wid)) (prepare_at a i wid)) h) ?Q h1"
    using J prepare_at_outcome [of a _ _ h1 i] unfolding wlp_if_state
    by (cases r; cases nid; cases "path_for a (projr nid)")
      (simp_all only: sum.case wlp_bind wlp_simps ws_error_def J' wlp_if sum.sel split: if_split, simp_all)
qed

end
