(* ===== verification/WorkspaceIsolation.thy ===== *)
theory WorkspaceIsolation
  imports WorkspaceRecords
begin

text \<open>
  The states the workspace adapter reaches, on every host: the records and the index of runs
  agree, every workspace is a directory of its own directly below the root, away from the
  protected roots and from the quarantine of a release, and the operations start no process but
  Git in its restricted environment.
\<close>

section \<open>Processes\<close>

definition started_only :: "git_cli \<Rightarrow> 'h process_host_scheme \<Rightarrow> 'h process_host_scheme \<Rightarrow> bool" where
  "started_only g h0 h \<longleftrightarrow> (\<exists>qs. hs_started h = hs_started h0 @ qs \<and> list_all (git_child g) qs)"

lemma started_only_refl [simp]: "started_only g h h"
  by (simp add: started_only_def)

lemma framed_started: "framed g (started_only g h0)"
  by (fastforce simp: framed_def stable_def started_only_def after_def seen_exit_def wlp_def spawn_def)

text \<open>An invariant of the host that the adapter's own attributes play no part in.\<close>

definition framed_ws :: "local_git_workspace \<Rightarrow>
    ('h workspace_host_ext git_host_ext process_host_scheme \<Rightarrow> bool) \<Rightarrow> bool" where
  "framed_ws a I \<longleftrightarrow> framed (gw_git a) I \<and> (\<forall>r i h. I h \<longrightarrow> I (h\<lparr>wh_records := r, wh_run_index := i\<rparr>))"

lemma framed_ws_started: "framed_ws a (started_only (gw_git a) h0)"
  using framed_started by (simp add: framed_ws_def started_only_def)

lemma frame_records:
  "framed_ws a I \<Longrightarrow> I h \<Longrightarrow> wlp (publish r) (\<lambda>r h'. I h') h" "framed_ws a I \<Longrightarrow> I h \<Longrightarrow> wlp (forget r) (\<lambda>r h'. I h') h"
  by (simp_all add: framed_ws_def)

text \<open>The operations that look at the records first, at a given host.\<close>

lemma wlp_looking:
  "wlp (prepare_at a i wid d) Q h =
    wlp (if wh_records h wid \<noteq> None then ws_error WS_ALREADY_EXISTS
     else io_bind (io_or (path_exists d) (is_symlink d)) (\<lambda>taken.
       if taken then ws_error WS_ALREADY_EXISTS
       else io_bind (prepare_checked a d (ri_baseline_sha i)) (\<lambda>digest.
         let w = \<lparr>wi_workspace_id = wid, wi_run_id = ri_run_id i, wi_baseline_sha = ri_baseline_sha i\<rparr> in
         io_bind (publish \<lparr>wr_identity = w, wr_path = d, wr_config_digest = digest\<rparr>) (\<lambda>_. io_return w)))) Q h"
  "wlp (ws_load a wid) R h = wlp (case wh_records h wid of
      None \<Rightarrow> io_return None
    | Some r \<Rightarrow> io_bind (validate_record a r) (\<lambda>_. io_return (Some (wr_identity r)))) R h"
  by (simp_all add: wlp_def prepare_at_def ws_load_def split: option.split)

lemma wlp_releasing:
  "wh_records h (wi_workspace_id w) = None \<Longrightarrow> wlp (ws_release a w) Q h = Q (Inr ()) h"
  "wh_records h (wi_workspace_id w) = Some r \<Longrightarrow> wlp (ws_release a w) Q h =
    wlp (if wr_identity r \<noteq> w then ws_error WS_CONFLICT
      else io_bind (assert_root_integrity a) (\<lambda>_.
        io_bind (io_lift (path_for a (wi_workspace_id w))) (\<lambda>expected.
        if wr_path r \<noteq> expected \<or> is_protected a (wr_path r) then ws_error WS_ISOLATION_FAILURE
        else let q = quarantine_path a (wi_workspace_id w) in
          io_bind (io_and (io_not (path_exists (wr_path r))) (io_not (is_symlink (wr_path r)))) (\<lambda>gone.
          if gone then io_bind (recover_quarantine q) (\<lambda>_. forget r)
          else io_bind (io_or (path_exists q) (is_symlink q)) (\<lambda>occupied.
            if occupied then ws_error WS_STORAGE_FAILURE
            else io_bind (io_except (remove_workspace r q)
                (\<lambda>e. if e = OSError then Some (restore_workspace r q) else None)) (\<lambda>_. forget r)))))) Q h"
  by (simp_all add: wlp_def ws_release_def io_return_def)

lemma frame_prepare:
  assumes "framed_ws a I" and "I h"
  shows "wlp (ws_prepare a nid i) (\<lambda>r h'. I h') h"
proof -
  have F: "framed (gw_git a) I" using assms(1) by (simp add: framed_ws_def)
  have at: "wlp (prepare_at a i wid d) (\<lambda>r h'. I h') h'" if "I h'" for wid d h'
    unfolding wlp_looking Let_def ws_error_def
    by (intro frame_rules frame_io_tests frame_calls [OF F] frame_prepare_checked [OF F]
        frame_records [OF assms(1)] that)
  have chosen: "wlp (io_bind (io_lift nid) (\<lambda>wid. io_bind (io_lift (path_for a wid)) (prepare_at a i wid))) (\<lambda>r h'. I h') h'"
    if "I h'" for h'
    by (intro frame_bind frame_return at that)
  show ?thesis
    unfolding ws_prepare_def
    by (rule frame_bind [OF frame_assert_root [OF F assms(2)]]) (simp add: wlp_if_state ws_error_def chosen)
qed

lemma frame_load:
  assumes "framed (gw_git a) I" and "I h"
  shows "wlp (ws_load a wid) (\<lambda>r h'. I h') h"
  unfolding wlp_looking
  by (auto split: option.split intro!: frame_bind frame_validate_record [OF assms] simp: assms(2))

lemma frame_require: "I h \<Longrightarrow> wlp (require_record w) (\<lambda>r h'. I h') h"
  by (auto simp: wlp_def require_record_def ws_error_def io_raise_def io_return_def split: option.split)

lemma frame_ws_snapshot:
  assumes "framed (gw_git a) I" and "I h"
  shows "wlp (ws_snapshot a w) (\<lambda>r h'. I h') h"
  unfolding ws_snapshot_def
  by (intro frame_rules frame_require frame_validate_record [OF assms(1)] frame_translating
      frame_snapshot [OF assms(1)] assms(2))

section \<open>Release\<close>

lemma wlp_after:
  "wlp m (\<lambda>r h'. I h') h \<Longrightarrow> (\<And>x h'. I h' \<Longrightarrow> wlp (f x) Q h') \<Longrightarrow> (\<And>e h'. I h' \<Longrightarrow> Q (Inl e) h') \<Longrightarrow>
   wlp (io_bind m f) Q h"
  unfolding wlp_bind by (rule wlp_mono, assumption) (auto split: sum.splits)

definition released :: "workspace_identity \<Rightarrow> 'h workspace_host_ext git_host_ext process_host_scheme \<Rightarrow>
   'h workspace_host_ext git_host_ext process_host_scheme \<Rightarrow> bool" where
  "released w h h' \<longleftrightarrow> wh_records h' = (wh_records h)(wi_workspace_id w := None) \<and>
     wh_run_index h' = (wh_run_index h)(wi_run_id w := None)"

text \<open>
  A release that returns has forgotten the workspace. One that raises has left the records alone,
  or it found something else in place of the workspace, removed that and forgot the workspace.
\<close>

definition release_failed :: "workspace_identity \<Rightarrow> 'h workspace_host_ext git_host_ext process_host_scheme \<Rightarrow> exn \<Rightarrow>
   'h workspace_host_ext git_host_ext process_host_scheme \<Rightarrow> bool" where
  "release_failed w h e h' \<longleftrightarrow> same_records h h' \<or> (released w h h' \<and> e = WorkspaceError WS_ISOLATION_FAILURE)"

lemma same_failed [simp]: "same_records h h' \<Longrightarrow> release_failed w h e h'"
  by (simp add: release_failed_def)

lemma frame_forgetting:
  "same_records h h' \<Longrightarrow> wlp (rename p q) (\<lambda>r h''. same_records h h'') h'"
  "same_records h h' \<Longrightarrow> wlp (rmtree q) (\<lambda>r h''. same_records h h'') h'"
  "same_records h h' \<Longrightarrow> wlp (unlink q) (\<lambda>r h''. same_records h h'') h'"
  "same_records h h' \<Longrightarrow> wlp (sys_test T) (\<lambda>r h''. same_records h h'') h'"
  by (rule frame_calls [OF framed_same_records], assumption)+

lemma wlp_forget_failed:
  "wr_identity r = w \<Longrightarrow> same_records h h' \<Longrightarrow>
   wlp (io_bind (forget r) (\<lambda>_. ws_error WS_ISOLATION_FAILURE))
     (\<lambda>u h''. case u of Inl e \<Rightarrow> release_failed w h e h'' \<and> (e = OSError \<longrightarrow> same_records h h'') | Inr _ \<Rightarrow> same_records h h'') h'"
  by (simp add: wlp_bind ws_error_def release_failed_def released_def same_records_def)

lemma remove_workspace_outcome:
  assumes "wr_identity r = w" and "same_records h h'"
  shows "wlp (remove_workspace r q)
    (\<lambda>u h''. case u of Inl e \<Rightarrow> release_failed w h e h'' \<and> (e = OSError \<longrightarrow> same_records h h'') | Inr _ \<Rightarrow> same_records h h'') h'"
proof -
  let ?Q = "\<lambda>u h''. case u of Inl e \<Rightarrow> release_failed w h e h'' \<and> (e = OSError \<longrightarrow> same_records h h'') | Inr _ \<Rightarrow> same_records h h''"
  have single: "wlp (io_bind (unlink q) (\<lambda>_. io_bind (forget r) (\<lambda>_. ws_error WS_ISOLATION_FAILURE))) ?Q h''"
    if "same_records h h''" for h''
    by (rule wlp_after [OF frame_forgetting(3) [OF that]]) (simp_all add: wlp_forget_failed [OF assms(1)])
  have tree: "wlp (rmtree q) ?Q h''" if "same_records h h''" for h''
    by (rule wlp_mono [OF frame_forgetting(2) [OF that]]) (simp split: sum.split)
  show ?thesis
    unfolding remove_workspace_def
    by (intro wlp_after [where I = "same_records h"] frame_forgetting assms(2))
      (simp_all add: wlp_if single tree wlp_after [OF frame_forgetting(4)])
qed

lemma restore_workspace_outcome:
  assumes "same_records h h'"
  shows "wlp (restore_workspace r q) (\<lambda>u h''. case u of Inl e \<Rightarrow> same_records h h'' | Inr _ \<Rightarrow> False) h'"
  unfolding restore_workspace_def ws_error_def
  by (rule wlp_after [where I = "same_records h"], intro frame_io_tests frame_forgetting assms,
      assumption, rule wlp_after [where I = "same_records h"], intro frame_if frame_except frame_forgetting)
    (auto split: if_splits)

lemma ws_release_outcome:
  "wlp (ws_release a w) (\<lambda>u h'. case u of
      Inl e \<Rightarrow> release_failed w h e h'
    | Inr _ \<Rightarrow> if wh_records h (wi_workspace_id w) = None then same_records h h' else released w h h') h"
proof (cases "wh_records h (wi_workspace_id w)")
  case None
  then show ?thesis by (simp add: wlp_releasing)
next
  case (Some r)
  let ?Q = "\<lambda>u h'. case u of Inl e \<Rightarrow> release_failed w h e h' | Inr _ \<Rightarrow> released w h h'"
  let ?S = "same_records h"
  note F = framed_same_records [of "gw_git a" h]
  show ?thesis
  proof (cases "wr_identity r = w")
    case False
    then show ?thesis by (simp add: wlp_releasing(2) [OF Some] Some ws_error_def)
  next
    case True
    have forget: "wlp (forget r) ?Q h'" if "?S h'" for h'
      using that True by (simp add: released_def same_records_def)
    have recover: "wlp (recover_quarantine q) (\<lambda>u h'. ?S h') h'" if "?S h'" for q h'
      unfolding recover_quarantine_def
      by (intro frame_rules frame_io_tests frame_storage frame_calls [OF F] that)
    have removal: "wlp (io_bind (io_except (remove_workspace r q)
        (\<lambda>e. if e = OSError then Some (restore_workspace r q) else None)) (\<lambda>_. forget r)) ?Q h'" if "?S h'" for q h'
      unfolding wlp_bind wlp_except
      by (rule wlp_mono [OF remove_workspace_outcome [OF True that]])
        (auto split: sum.splits if_splits simp: True released_def same_records_def intro!: wlp_mono [OF restore_workspace_outcome])
    have rest: "wlp (io_bind (io_and (io_not (path_exists (wr_path r))) (io_not (is_symlink (wr_path r)))) (\<lambda>gone.
        if gone then io_bind (recover_quarantine q) (\<lambda>_. forget r)
        else io_bind (io_or (path_exists q) (is_symlink q)) (\<lambda>occupied.
          if occupied then ws_error WS_STORAGE_FAILURE
          else io_bind (io_except (remove_workspace r q)
              (\<lambda>e. if e = OSError then Some (restore_workspace r q) else None)) (\<lambda>_. forget r)))) ?Q h'"
      if "?S h'" for q h'
      by (rule wlp_after [where I = ?S], intro frame_io_tests frame_calls [OF F] that)
        (auto simp: wlp_if ws_error_def simp del: wlp_forget intro!: removal forget wlp_after [where I = ?S] recover frame_io_tests frame_calls [OF F])
    have guarded: "wlp (if wr_path r \<noteq> expected \<or> is_protected a (wr_path r) then ws_error WS_ISOLATION_FAILURE
        else let q = quarantine_path a (wi_workspace_id w) in
          io_bind (io_and (io_not (path_exists (wr_path r))) (io_not (is_symlink (wr_path r)))) (\<lambda>gone.
          if gone then io_bind (recover_quarantine q) (\<lambda>_. forget r)
          else io_bind (io_or (path_exists q) (is_symlink q)) (\<lambda>occupied.
            if occupied then ws_error WS_STORAGE_FAILURE
            else io_bind (io_except (remove_workspace r q)
                (\<lambda>e. if e = OSError then Some (restore_workspace r q) else None)) (\<lambda>_. forget r)))) ?Q h'"
      if "?S h'" for expected h'
      using that rest [of h'] unfolding Let_def wlp_if by (auto simp: ws_error_def)
    have "wlp (ws_release a w) ?Q h"
      unfolding wlp_releasing(2) [OF Some] using True
      by (simp only: not_True_eq_False if_False simp_thms)
        (intro wlp_after [where I = ?S] frame_assert_root [OF F] frame_return guarded same_records_refl; simp)
    then show ?thesis using Some by simp
  qed
qed

section \<open>Paths of workspaces\<close>

text \<open>A workspace id is one path component, which is not a dot name and does not start with a dot.\<close>

lemma split_no_slash: "47 \<notin> set s \<Longrightarrow> split_slash s = [s]"
  by (induction s) simp_all

lemma handle_component:
  assumes "match_head_tail is_alnum is_handle_char 127 v"
  shows "pure_posix_path v = \<lparr>path_root = [], path_tail = [v]\<rparr>" "hd v \<noteq> 46" "v \<noteq> []"
proof -
  have chars: "list_all is_handle_char v" by (rule match_handle_chars [OF assms])
  then have "47 \<notin> set v"
    by (auto simp: list_all_iff is_handle_char_def is_alnum_def is_lower_def is_upper_def is_digit_def)
  moreover show ne: "v \<noteq> []" and hd: "hd v \<noteq> 46"
    using assms by (auto simp: match_head_tail_def is_alnum_def is_lower_def is_upper_def is_digit_def split: list.splits)
  ultimately show "pure_posix_path v = \<lparr>path_root = [], path_tail = [v]\<rparr>"
    using split_no_slash [of v] by (cases v) (auto simp: pure_posix_path_def posix_root_def)
qed

lemma path_for_handle:
  assumes "WORKSPACE_ID_PATTERN (workspace_id_value wid)"
  shows "path_for a wid = Inr ((gw_root a)\<lparr>path_tail := path_tail (gw_root a) @ [workspace_id_value wid]\<rparr>)"
  using handle_component(1) [OF assms [unfolded WORKSPACE_ID_PATTERN_def]]
  by (simp add: path_for_def path_div_def path_parent_def is_absolute_def Let_def)

text \<open>Nothing below a root that overlaps none of the protected directories overlaps one.\<close>

lemma below_disjoint:
  assumes "\<not> overlaps base q"
  shows "\<not> overlaps (base\<lparr>path_tail := path_tail base @ [c]\<rparr>) q"
proof -
  have "path_root base = path_root q \<Longrightarrow> \<not> prefix (path_tail base) (path_tail q) \<and> \<not> prefix (path_tail q) (path_tail base)"
    using assms by (auto simp: overlaps_def is_relative_to_def)
  then show ?thesis
    by (auto simp: overlaps_def is_relative_to_def dest: prefix_order.trans append_prefixD)
qed

section \<open>Reachable states\<close>

text \<open>
  The states of an adapter from its construction on: its operations, with any answer of the id
  generator and whatever their outcome, and anything else that leaves its attributes alone.
\<close>

inductive ws_reachable :: "local_git_workspace \<Rightarrow> 'h workspace_host_ext git_host_ext process_host_scheme \<Rightarrow> bool"
  for a :: local_git_workspace where
  made: "new_LocalGitWorkspace source base protected g h = Some (Inr a, h') \<Longrightarrow> ws_reachable a h'"
| prepared: "ws_reachable a h \<Longrightarrow> ws_prepare a (sum_bind v new_WorkspaceId) i h = Some (r, h') \<Longrightarrow> ws_reachable a h'"
| loaded: "ws_reachable a h \<Longrightarrow> ws_load a wid h = Some (x, h') \<Longrightarrow> ws_reachable a h'"
| snapped: "ws_reachable a h \<Longrightarrow> ws_snapshot a w h = Some (c, h') \<Longrightarrow> ws_reachable a h'"
| released: "ws_reachable a h \<Longrightarrow> ws_release a w h = Some (u, h') \<Longrightarrow> ws_reachable a h'"
| elsewhere: "ws_reachable a h \<Longrightarrow> same_records h h' \<Longrightarrow> ws_reachable a h'"

definition coherent :: "local_git_workspace \<Rightarrow> 'h workspace_host_ext git_host_ext process_host_scheme \<Rightarrow> bool" where
  "coherent a h \<longleftrightarrow>
    (\<forall>q \<in> set (gw_protected a). \<not> overlaps (gw_root a) q) \<and>
    (\<forall>wid r. wh_records h wid = Some r \<longrightarrow> WORKSPACE_ID_PATTERN (workspace_id_value wid) \<and>
       wi_workspace_id (wr_identity r) = wid \<and> path_for a wid = Inr (wr_path r) \<and>
       wh_run_index h (wi_run_id (wr_identity r)) = Some wid) \<and>
    (\<forall>run wid. wh_run_index h run = Some wid \<longrightarrow> (\<exists>r. wh_records h wid = Some r \<and> wi_run_id (wr_identity r) = run))"

lemma coherent_record:
  assumes "coherent a h" and "wh_records h wid = Some r"
  shows "WORKSPACE_ID_PATTERN (workspace_id_value wid)" "wi_workspace_id (wr_identity r) = wid"
    "path_for a wid = Inr (wr_path r)" "wh_run_index h (wi_run_id (wr_identity r)) = Some wid"
  using assms unfolding coherent_def by blast+

lemma coherent_index:
  "coherent a h \<Longrightarrow> wh_run_index h run = Some wid \<Longrightarrow> \<exists>r. wh_records h wid = Some r \<and> wi_run_id (wr_identity r) = run"
  unfolding coherent_def by blast

lemma coherent_same: "same_records h h' \<Longrightarrow> coherent a h \<Longrightarrow> coherent a h'"
  by (simp add: coherent_def same_records_def)

lemma coherent_made:
  assumes "new_LocalGitWorkspace source base protected g h = Some (Inr a, h')"
  shows "coherent a h'"
  using assms
  by (auto simp: new_LocalGitWorkspace_def io_bind_def io_raise_def coherent_def split: option.splits sum.splits if_splits)

lemma coherentI:
  assumes "coherent a h"
    and "\<And>wid r. wh_records h' wid = Some r \<Longrightarrow> WORKSPACE_ID_PATTERN (workspace_id_value wid) \<and>
       wi_workspace_id (wr_identity r) = wid \<and> path_for a wid = Inr (wr_path r) \<and>
       wh_run_index h' (wi_run_id (wr_identity r)) = Some wid"
    and "\<And>run wid. wh_run_index h' run = Some wid \<Longrightarrow> \<exists>r. wh_records h' wid = Some r \<and> wi_run_id (wr_identity r) = run"
  shows "coherent a h'"
  using assms by (simp add: coherent_def)

lemma coherent_published:
  assumes "coherent a h" and "published a (sum_bind v new_WorkspaceId) i w h h'"
  shows "coherent a h'"
proof -
  obtain wid p digest where "sum_bind v new_WorkspaceId = Inr wid" and p: "path_for a wid = Inr p"
    and fresh: "wh_records h wid = None" "wh_run_index h (ri_run_id i) = None"
    and w: "w = \<lparr>wi_workspace_id = wid, wi_run_id = ri_run_id i, wi_baseline_sha = ri_baseline_sha i\<rparr>"
    and h': "wh_records h' = (wh_records h)(wid \<mapsto> \<lparr>wr_identity = w, wr_path = p, wr_config_digest = digest\<rparr>)"
      "wh_run_index h' = (wh_run_index h)(ri_run_id i \<mapsto> wid)"
    using assms(2) unfolding published_def by blast
  then have pattern: "WORKSPACE_ID_PATTERN (workspace_id_value wid)"
    by (cases v) (auto simp: new_WorkspaceId_Inr)
  show ?thesis
  proof (rule coherentI [OF assms(1)])
    fix x r assume r: "wh_records h' x = Some r"
    show "WORKSPACE_ID_PATTERN (workspace_id_value x) \<and> wi_workspace_id (wr_identity r) = x \<and>
        path_for a x = Inr (wr_path r) \<and> wh_run_index h' (wi_run_id (wr_identity r)) = Some x"
    proof (cases "x = wid")
      case True
      then show ?thesis using r pattern p w h' by auto
    next
      case False
      then have old: "wh_records h x = Some r" using r h' by simp
      then have "wi_run_id (wr_identity r) \<noteq> ri_run_id i"
        using coherent_record(4) [OF assms(1) old] fresh(2) by auto
      then show ?thesis using coherent_record [OF assms(1) old] h' by simp
    qed
  next
    fix run x assume "wh_run_index h' run = Some x"
    then show "\<exists>r. wh_records h' x = Some r \<and> wi_run_id (wr_identity r) = run"
      using h' w fresh coherent_index [OF assms(1), of run x] by (auto split: if_splits)
  qed
qed

lemma coherent_released:
  assumes "coherent a h" and "wh_records h (wi_workspace_id w) = Some r" and "wr_identity r = w" and "released w h h'"
  shows "coherent a h'"
proof (rule coherentI [OF assms(1)])
  fix x s assume s: "wh_records h' x = Some s"
  then have x: "x \<noteq> wi_workspace_id w" and old: "wh_records h x = Some s"
    using assms(4) by (auto simp: released_def split: if_splits)
  then have "wi_run_id (wr_identity s) \<noteq> wi_run_id w"
    using coherent_record(4) [OF assms(1) old] coherent_record(4) [OF assms(1,2)] assms(3) by auto
  then show "WORKSPACE_ID_PATTERN (workspace_id_value x) \<and> wi_workspace_id (wr_identity s) = x \<and>
      path_for a x = Inr (wr_path s) \<and> wh_run_index h' (wi_run_id (wr_identity s)) = Some x"
    using coherent_record [OF assms(1) old] assms(4) by (simp add: released_def)
next
  fix run x assume "wh_run_index h' run = Some x"
  then have run: "run \<noteq> wi_run_id w" "wh_run_index h run = Some x"
    using assms(4) by (auto simp: released_def split: if_splits)
  then obtain s where "wh_records h x = Some s" "wi_run_id (wr_identity s) = run"
    using coherent_index [OF assms(1)] by blast
  moreover from this run(1) have "x \<noteq> wi_workspace_id w" using assms(2,3) by auto
  ultimately show "\<exists>r. wh_records h' x = Some r \<and> wi_run_id (wr_identity r) = run"
    using assms(4) by (simp add: released_def)
qed

text \<open>A record that a release refuses to match leaves the records alone.\<close>

lemma release_coherent:
  assumes "coherent a h" and "ws_release a w h = Some (u, h')"
  shows "coherent a h'"
proof (cases "wh_records h (wi_workspace_id w)")
  case None
  then have "wlp (ws_release a w) (\<lambda>u. same_records h) h" by (simp add: wlp_releasing)
  then show ?thesis using wlpD assms coherent_same by blast
next
  case (Some r)
  show ?thesis
  proof (cases "wr_identity r = w")
    case True
    then show ?thesis
      using wlpD [OF ws_release_outcome assms(2)] coherent_released [OF assms(1) Some True] coherent_same [OF _ assms(1)] Some
      by (auto simp: release_failed_def split: sum.splits)
  next
    case False
    then have "wlp (ws_release a w) (\<lambda>u. same_records h) h"
      by (simp add: wlp_releasing(2) [OF Some] ws_error_def)
    then show ?thesis using wlpD assms coherent_same by blast
  qed
qed

lemma ws_reachable_coherent: "ws_reachable a h \<Longrightarrow> coherent a h"
proof (induction rule: ws_reachable.induct)
  case (prepared h v i r h')
  then show ?case
    using wlpD [OF ws_prepare_outcome prepared.hyps(2)] coherent_published coherent_same [of h h'] by (cases r) auto
next
  case (loaded h wid x h')
  then show ?case using wlpD [OF frame_load [OF framed_same_records same_records_refl]] coherent_same by blast
next
  case (snapped h w c h')
  then show ?case using wlpD [OF frame_ws_snapshot [OF framed_same_records same_records_refl]] coherent_same by blast
qed (auto intro: coherent_made coherent_same release_coherent)

lemma path_update_inject: "p\<lparr>path_tail := s\<rparr> = p\<lparr>path_tail := t\<rparr> \<longleftrightarrow> s = t"
  by (metis posix_path.select_convs(2) posix_path.surjective posix_path.update_convs(2))

lemma path_name_snoc: "path_tail p = t @ [c] \<Longrightarrow> path_name p = c"
  by (cases t) (simp_all add: path_name_def)

text \<open>Two workspaces share neither a run nor any part of the file system.\<close>

lemma coherent_isolated:
  assumes "coherent a h" and "wh_records h v = Some r" and "wh_records h w = Some s" and "v \<noteq> w"
  shows "wi_run_id (wr_identity r) \<noteq> wi_run_id (wr_identity s)" "\<not> overlaps (wr_path r) (wr_path s)"
proof -
  show "wi_run_id (wr_identity r) \<noteq> wi_run_id (wr_identity s)"
    using coherent_record(4) [OF assms(1,2)] coherent_record(4) [OF assms(1,3)] assms(4) by auto
  have "workspace_id_value v \<noteq> workspace_id_value w"
    using assms(4) by (cases v; cases w) simp
  then show "\<not> overlaps (wr_path r) (wr_path s)"
    using path_for_handle [OF coherent_record(1) [OF assms(1,2)], of a] coherent_record(3) [OF assms(1,2)]
      path_for_handle [OF coherent_record(1) [OF assms(1,3)], of a] coherent_record(3) [OF assms(1,3)]
    by (auto simp: overlaps_def is_relative_to_def path_update_inject)
qed

lemma coherent_placed:
  assumes "coherent a h" and "wh_records h v = Some r"
  shows "path_parent (wr_path r) = gw_root a" "path_name (wr_path r) = workspace_id_value v" "\<not> is_protected a (wr_path r)"
proof -
  have p: "wr_path r = (gw_root a)\<lparr>path_tail := path_tail (gw_root a) @ [workspace_id_value v]\<rparr>"
    using path_for_handle [OF coherent_record(1) [OF assms], of a] coherent_record(3) [OF assms] by simp
  then show "path_parent (wr_path r) = gw_root a" "path_name (wr_path r) = workspace_id_value v"
    by (auto simp: path_parent_def path_name_snoc)
  show "\<not> is_protected a (wr_path r)"
    using assms(1) below_disjoint unfolding p is_protected_def coherent_def by blast
qed

text \<open>The quarantine of a release is never the directory of a workspace: it starts with a dot.\<close>

lemma quarantine_tail:
  assumes "WORKSPACE_ID_PATTERN (workspace_id_value wid)"
  shows "path_tail (quarantine_path a wid) = path_tail (gw_root a) @ [lit ''.release-'' @ workspace_id_value wid]"
proof -
  have "47 \<notin> set (lit ''.release-'' @ workspace_id_value wid)"
    using match_handle_chars [OF assms [unfolded WORKSPACE_ID_PATTERN_def]]
    by (auto simp: list_all_iff is_handle_char_def is_alnum_def is_lower_def is_upper_def is_digit_def)
  then have "path_tail (pure_posix_path (lit ''.release-'' @ workspace_id_value wid)) = [lit ''.release-'' @ workspace_id_value wid]"
    "\<not> is_absolute (pure_posix_path (lit ''.release-'' @ workspace_id_value wid))"
    using split_no_slash [of "lit ''.release-'' @ workspace_id_value wid"]
    by (simp_all add: pure_posix_path_def posix_root_def is_absolute_def)
  then show ?thesis by (simp add: quarantine_path_def path_div_def Let_def)
qed

lemma quarantine_name: "path_name (quarantine_path a wid) \<noteq> workspace_id_value v"
  if "WORKSPACE_ID_PATTERN (workspace_id_value v)" "WORKSPACE_ID_PATTERN (workspace_id_value wid)"
  using handle_component(2) [OF that(1) [unfolded WORKSPACE_ID_PATTERN_def]] path_name_snoc [OF quarantine_tail [OF that(2)]]
  by (auto dest: arg_cong [where f = hd])

end
