(* ===== verification/SandboxLiveness.thy ===== *)
theory SandboxLiveness
  imports SandboxBounds
begin

text \<open>
  When an execution in the sandbox comes to an end. The capture ends as soon as the clock has
  passed the deadline for good; the whole execution ends when, besides, every child that is
  waited for without a timeout exits. The last condition cannot be dropped: a child that closes
  its output streams and goes on keeps the caller waiting, whatever the timeout.
\<close>

definition ends :: "('a, 'h) io \<Rightarrow> 'h host_scheme \<Rightarrow> bool" where
  "ends m h \<longleftrightarrow> m h \<noteq> None"

lemma ends_simple [simp]:
  "ends (io_return x) h" "ends (io_raise e) h" "ends (io_lift r) h" "ends (sys call) h" "ends (observe g) h"
  by (auto simp: ends_def io_return_def io_raise_def io_lift_def sys_def observe_def split: prod.splits)

lemma ends_process [simp]:
  "ends monotonic h" "ends utc_now h" "ends (poll p) h" "ends (wait_for p t) h" "ends (spawn q) h"
  by (auto simp: ends_def observe_def monotonic_def utc_now_def poll_def wait_for_def spawn_def Let_def
      split: option.splits)

lemma ends_wait: "(\<And>n. pr_wait p n \<noteq> None) \<Longrightarrow> ends (wait p) h"
  by (auto simp: ends_def wait_def Let_def split: option.splits)

text \<open>Sequences end when their parts do, each in the states that keep an invariant.\<close>

lemma ends_bind:
  assumes "ends m h" and "wlp m (\<lambda>r h'. I h') h" and "\<And>x h'. I h' \<Longrightarrow> ends (f x) h'"
  shows "ends (io_bind m f) h"
  using assms by (auto simp: ends_def wlp_def io_bind_def split: option.splits sum.splits)

lemma ends_except:
  assumes "ends m h" and "wlp m (\<lambda>r h'. I h') h" and "\<And>e c h'. k e = Some c \<Longrightarrow> I h' \<Longrightarrow> ends c h'"
  shows "ends (io_except m k) h"
  using assms by (auto simp: ends_def wlp_def io_except_def split: option.splits sum.splits)

lemma ends_finally:
  assumes "ends m h" and "\<And>h'. ends c h'"
  shows "ends (io_finally m c) h"
proof -
  obtain r h' where "m h = Some (r, h')" using assms(1) by (force simp: ends_def)
  moreover obtain u h'' where "c h' = Some (u, h'')" using assms(2) [of h'] by (force simp: ends_def)
  ultimately show ?thesis by (simp add: ends_def io_finally_def split: sum.splits)
qed

lemma ends_then: "ends m h \<Longrightarrow> (\<And>x h'. ends (f x) h') \<Longrightarrow> ends (io_bind m f) h"
  by (rule ends_bind [where I = "\<lambda>_. True"]) simp_all

lemma ends_handled: "ends m h \<Longrightarrow> (\<And>e c h'. k e = Some c \<Longrightarrow> ends c h') \<Longrightarrow> ends (io_except m k) h"
  by (rule ends_except [where I = "\<lambda>_. True"]) simp_all

lemma ends_select [simp]: "ends (select p ss t) h"
  unfolding select_def by (rule ends_then) simp_all

lemma ends_os_read [simp]: "ends (os_read p s n) h"
  unfolding os_read_def by (rule ends_then) simp_all

lemma ends_read_events [simp]: "ends (read_events p l events c) h"
proof (induction events arbitrary: c h)
  case (Cons s events)
  then show ?case
    unfolding read_events.simps by (intro ends_then) (simp_all add: Let_def split: read_answer.split)
qed simp

lemma ends_terminate_tree [simp]: "ends (terminate_tree p g) h"
  unfolding terminate_tree_def killpg_def
  by (intro ends_then; (simp, (intro impI ends_handled ends_then)?)) (auto intro!: ends_then ends_handled split: if_splits)

lemma ends_verify_pin [simp]: "ends (verify_pin e e' b) h"
  unfolding verify_pin_def pin_changed_def access_x_def sys_test_def resolve_strict_def file_sha256_def
    read_bytes_def on_os_error_def
  by (intro ends_handled ends_then) (auto intro!: ends_then ends_handled split: if_splits)

section \<open>The capture under a clock\<close>

definition passes :: "rat \<Rightarrow> nat \<Rightarrow> (nat \<Rightarrow> rat) \<Rightarrow> bool" where
  "passes deadline N clock \<longleftrightarrow> (\<forall>n \<ge> N. deadline \<le> clock n)"


lemma capture_round_ends:
  "ends (capture_round p l deadline c) h"
  unfolding capture_round_def
  by (auto simp: Let_def intro!: ends_then)

lemma capture_round_wlp:
  "wlp (capture_round p l deadline c) (\<lambda>r h'. hs_clock h' = hs_clock h \<and>
     (\<forall>c'. r = Inr (Inr c') \<longrightarrow> hs_tick h < hs_tick h' \<and> hs_clock h (hs_tick h) < deadline)) h"
proof (cases "cap_open c = [] \<or> deadline \<le> hs_clock h (hs_tick h)")
  case True
  then show ?thesis by (auto simp: capture_round_def wlp_unfold Let_def)
next
  case False
  let ?I = "\<lambda>h'. hs_clock h' = hs_clock h \<and> Suc (hs_tick h) \<le> hs_tick h'"
  have st: "stable ?I" by (rule stable_conj [OF stable_clock stable_tick])
  have events: "wlp (read_events p l es c) (\<lambda>r h'. ?I h') h'" if "?I h'" for es c h'
    using that
  proof (induction es arbitrary: c h')
    case (Cons s es)
    then show ?case
      unfolding read_events.simps
      by (intro frame_bind [OF frame_os_read [OF st]]) (auto simp: Let_def split: read_answer.split)
  qed simp
  have sel: "wlp (io_bind (select p (cap_open c) t) (\<lambda>events.
      if events = [] then io_bind (poll p) (\<lambda>_. io_return (Inr c))
      else io_bind (read_events p l events c)
        (\<lambda>c'. io_return (if cap_termination c' \<noteq> EXITED then Inl c' else Inr c')))) (\<lambda>r h'. ?I h') (after f h)" for t f
    by (intro frame_bind [OF frame_select [OF st]])
      (auto intro!: frame_bind [OF frame_poll [OF st]] frame_bind [OF events] simp: wlp_if)
  show ?thesis
    using False by (auto simp: capture_round_def wlp_bind [of monotonic] wlp_if Let_def intro!: wlp_mono [OF sel])
qed

lemma capture_loop_ends:
  assumes "passes deadline N (hs_clock h)"
  shows "ends (io_loop (capture_round p l deadline) c) h"
proof -
  have "\<exists>out. io_loop (capture_round p l deadline) c h = Some out"
  proof (rule io_loop_ends [where P = "\<lambda>c h. passes deadline N (hs_clock h)" and measure_of = "\<lambda>c h. N - hs_tick h"])
    fix c and h :: "'a process_host_scheme"
    assume p: "passes deadline N (hs_clock h)"
    obtain r h' where out: "capture_round p l deadline c h = Some (r, h')"
      using capture_round_ends by (force simp: ends_def)
    with capture_round_wlp [of p l deadline c h] have
      clock: "hs_clock h' = hs_clock h" and
      again: "\<And>c'. r = Inr (Inr c') \<Longrightarrow> hs_tick h < hs_tick h' \<and> hs_clock h (hs_tick h) < deadline"
      by (auto simp: wlp_def)
    have "hs_tick h < N" if "r = Inr (Inr c')" for c'
      using again [OF that] p unfolding passes_def by (metis not_le)
    then show "\<exists>r h'. capture_round p l deadline c h = Some (r, h') \<and>
        (\<forall>c'. r = Inr (Inr c') \<longrightarrow> passes deadline N (hs_clock h') \<and> N - hs_tick h' < N - hs_tick h)"
      using out clock again p by (metis diff_less_mono2)
  qed (rule assms)
  then show ?thesis by (auto simp: ends_def)
qed

section \<open>The whole execution\<close>

text \<open>Hosts whose clock passes every deadline and whose children exit when waited for.\<close>

definition keeps :: "'h process_host_scheme \<Rightarrow> 'h process_host_scheme \<Rightarrow> bool" where
  "keeps h0 h \<longleftrightarrow> hs_clock h = hs_clock h0 \<and> hs_children h = hs_children h0"

lemma stable_keeps: "stable (keeps h0)"
  by (auto simp: stable_def keeps_def seen_exit_def)

lemma keeps_refl [simp]: "keeps h h"
  by (simp add: keeps_def)

definition cooperative :: "'h process_host_scheme \<Rightarrow> bool" where
  "cooperative h \<longleftrightarrow> (\<forall>d. \<exists>N. passes d N (hs_clock h)) \<and> (\<forall>n q k. pr_wait (hs_children h n q) k \<noteq> None)"

lemma cooperative_keeps: "cooperative h0 \<Longrightarrow> keeps h0 h \<Longrightarrow> cooperative h"
  by (simp add: cooperative_def keeps_def)

definition exits :: "process \<Rightarrow> bool" where
  "exits p \<longleftrightarrow> (\<forall>n. pr_wait p n \<noteq> None)"

lemma spawn_cooperative:
  "cooperative h \<Longrightarrow> wlp (spawn q) (\<lambda>r h'. keeps h h' \<and> (\<forall>p. r = Inr p \<longrightarrow> exits p)) h"
  by (simp add: wlp_def spawn_def keeps_def cooperative_def exits_def)

lemma ends_bind2:
  assumes "ends m h" and "wlp m (\<lambda>r h'. I h' \<and> (\<forall>x. r = Inr x \<longrightarrow> P x)) h"
    and "\<And>x h'. I h' \<Longrightarrow> P x \<Longrightarrow> ends (f x) h'"
  shows "ends (io_bind m f) h"
  using assms by (auto simp: ends_def wlp_def io_bind_def split: option.splits sum.splits)

lemma frame_enter_capture: "stable I \<Longrightarrow> I h \<Longrightarrow> wlp (enter_capture p) (\<lambda>r h'. I h') h"
  unfolding enter_capture_def by (auto intro!: frame_bind frame_sys simp: wlp_if)

lemma ends_enter_capture [simp]: "ends (enter_capture p) h"
  unfolding enter_capture_def by (auto intro!: ends_then)

lemma ends_supervise:
  assumes "cooperative h" and "exits p"
  shows "ends (supervise p l deadline) h"
proof -
  have "ends (capture_output p l deadline) h"
    unfolding capture_output_def
  proof (rule ends_bind [OF _ frame_enter_capture [OF stable_keeps keeps_refl]])
    fix streams and h' :: "'a process_host_scheme"
    assume "keeps h h'"
    then have "cooperative h'" by (rule cooperative_keeps [OF assms(1)])
    then obtain N where "passes deadline N (hs_clock h')" unfolding cooperative_def by blast
    then show "ends (io_loop (capture_round p l deadline)
        \<lparr>cap_open = streams, cap_stdout = [], cap_stderr = [], cap_termination = EXITED\<rparr>) h'"
      by (rule capture_loop_ends)
  qed simp
  then show ?thesis
    unfolding supervise_def
    by (rule ends_then) (use assms(2) in \<open>auto simp: exits_def intro!: ends_then ends_wait\<close>)
qed

lemma stable_cooperative: "stable cooperative"
  by (auto simp: stable_def cooperative_def seen_exit_def)

lemma cooperative_after [simp]: "cooperative (after f h) \<longleftrightarrow> cooperative h"
  by (simp add: cooperative_def)

lemma ends_verify_bubblewrap [simp]: "ends (verify_bubblewrap b) h"
  by (simp add: verify_bubblewrap_def)

lemma verify_cooperative: "cooperative h \<Longrightarrow> wlp (verify_bubblewrap b) (\<lambda>r h'. cooperative h') h"
  unfolding verify_bubblewrap_def by (rule frame_verify_pin [OF stable_cooperative])

lemma ends_run_child:
  assumes "cooperative h" and "exits p"
  shows "ends (run_child b i t p) h"
proof -
  have "ends (io_except (supervise p (si_limits i) d) (\<lambda>e. if e = OSError
      then Some (io_bind (terminate_tree p (termination_grace_ms (si_limits i))) (\<lambda>_. io_raise (SandboxError SB_CLEANUP_FAILED)))
      else None)) h'" if "cooperative h'" for d h'
    by (rule ends_handled [OF ends_supervise [OF that assms(2)]]) (auto intro!: ends_then split: if_splits)
  then show ?thesis
    unfolding run_child_def
    using assms(1) stable_cooperative
    by (intro ends_bind [where I = cooperative and m = monotonic])
      (auto intro!: ends_then ends_finally simp: stable_def)
qed

lemma ends_run_probe:
  assumes "cooperative h"
  shows "ends (run_probe q) h"
  unfolding run_probe_def
proof (rule ends_bind2 [OF _ spawn_cooperative [OF assms]])
  fix p :: process and h' assume "exits p"
  then have "ends (io_bind (kill p) (\<lambda>_. io_bind (wait p) (\<lambda>_. io_raise TimeoutExpired))) h''" for h''
    unfolding kill_def by (intro ends_then ends_wait) (simp_all add: exits_def)
  then show "ends (io_except (wait_for p PROBE_TIMEOUT_SECONDS) (\<lambda>e. if e = TimeoutExpired
      then Some (io_bind (kill p) (\<lambda>_. io_bind (wait p) (\<lambda>_. io_raise TimeoutExpired))) else None)) h'"
    by (intro ends_handled) (auto split: if_splits)
qed simp

lemma frame_supports:
  assumes "stable I" and "I h" and "\<And>q h. I h \<Longrightarrow> wlp (spawn q) (\<lambda>r h'. I h') h"
  shows "wlp (supports b cwd net) (\<lambda>r h'. I h') h"
proof -
  have "wlp (run_probe q) (\<lambda>r h'. I h') h'" if "I h'" for q h'
    unfolding run_probe_def kill_def
    by (intro frame_bind [OF assms(3) [OF that]] frame_except frame_wait_for [OF assms(1)])
      (auto intro!: frame_bind frame_sys frame_wait assms(1) split: if_splits)
  then show ?thesis
    unfolding supports_def verify_bubblewrap_def
    by (auto simp: wlp_if assms(2) intro!: frame_bind frame_except frame_verify_pin assms(1) split: if_splits)
qed

lemma sandbox_execute_ends:
  assumes "cooperative h"
  shows "ends (sandbox_execute b cwd i) h"
proof -
  have coop_spawn: "cooperative h' \<Longrightarrow> wlp (spawn q) (\<lambda>r h''. cooperative h'') h'" for q and h' :: "'a process_host_scheme"
    using spawn_cooperative cooperative_keeps by (blast intro: wlp_mono)
  have supported: "ends (supports b cwd net) h" for net
  proof (cases "net = DENY_ALL")
    case True
    show ?thesis
      unfolding supports_def using True
      by (simp, intro ends_bind [OF _ verify_cooperative [OF assms]])
        (auto intro!: ends_handled ends_then ends_run_probe split: if_splits)
  qed (simp add: supports_def)
  have spawned: "ends (io_bind (io_except (spawn q) (on_os_error e)) (run_child b i t)) h'" if "cooperative h'" for q e t h'
  proof (rule ends_bind2)
    show "wlp (io_except (spawn q) (on_os_error e)) (\<lambda>r h''. cooperative h'' \<and> (\<forall>p. r = Inr p \<longrightarrow> exits p)) h'"
      unfolding wlp_except
      by (rule wlp_mono [OF spawn_cooperative [OF that]])
        (auto simp: on_os_error_def cooperative_keeps [OF that] split: sum.splits)
  qed (auto simp: on_os_error_def intro!: ends_handled ends_run_child split: if_splits)
  have "ends (io_bind (verify_bubblewrap b) (\<lambda>_. io_bind (io_lift (build_command b i)) (\<lambda>command.
      io_bind utc_now (\<lambda>started_at. io_bind (io_except (spawn \<lparr>po_argv = command, po_cwd = host_root, po_env = []\<rparr>)
        (on_os_error (SandboxError SB_SPAWN_FAILED))) (run_child b i started_at))))) h'" if "cooperative h'" for h'
    using that
    by (intro ends_bind [where I = cooperative] verify_cooperative spawned) simp_all
  then show ?thesis
    unfolding sandbox_execute_def
    by (intro ends_bind [where I = cooperative])
      (auto simp: wlp_if supported assms intro!: frame_supports [OF stable_cooperative assms coop_spawn])
qed

section \<open>A child that closes its streams\<close>

text \<open>One round reads the end of both streams; then only the wait without a timeout is left.\<close>

lemma supervise_closed_streams:
  assumes calm: "\<And>n. hs_event h n = Calm"
    and piped: "\<And>s. pr_piped p s" and ready: "\<And>n. pr_ready p n = [STDOUT, STDERR]"
    and closed: "\<And>n s. pr_read p n s = Chunk []" and never: "\<And>n. pr_wait p n = None"
    and in_time: "hs_clock h (hs_tick h + 2) < deadline"
  shows "supervise p l deadline h = None"
proof -
  have d: "\<not> denied (after f h')" "\<not> denied h" if "hs_event h' = hs_event h" for f and h' :: "'a process_host_scheme"
    using that calm by (simp_all add: denied_def)
  show ?thesis
    using in_time
    by (simp add: supervise_def capture_output_def enter_capture_def io_bind_def sys_def d piped io_return_def
        io_loop.simps capture_round_def monotonic_def observe_def Let_def select_def ready os_read_def closed
        wait_def never)
qed

end
