(* ===== verification/WorkspaceConfinement.thy ===== *)
theory WorkspaceConfinement
  imports WorkspaceIsolation SandboxLiveness
begin

text \<open>
  What a release may remove: on a host whose calls may fail at any point, but where nothing
  else changes the file system meanwhile, it leaves every entry alone that is neither in the
  workspace nor in its quarantine.
\<close>

section \<open>Undisturbed hosts\<close>

definition undisturbed :: "'h host_scheme \<Rightarrow> bool" where
  "undisturbed h \<longleftrightarrow> (\<forall>n \<ge> hs_tick h. \<forall>f. hs_event h n \<noteq> Meanwhile f)"

lemma undisturbed_after [simp]: "undisturbed h \<Longrightarrow> undisturbed (after f h)"
  by (simp add: undisturbed_def)

lemma undisturbed_found: "undisturbed h \<Longrightarrow> found_fs h = hs_fs h"
  by (simp add: undisturbed_def found_fs_def split: host_event.split)

section \<open>Entries kept\<close>

text \<open>The entries outside two subtrees.\<close>

definition outside :: "str list \<Rightarrow> str list \<Rightarrow> fs \<Rightarrow> fs" where
  "outside a b f = filter (\<lambda>qn. \<not> prefix a (fst qn) \<and> \<not> prefix b (fst qn)) f"

lemma outside_remove_tree:
  "prefix a c \<or> prefix b c \<Longrightarrow> outside a b (fs_remove_tree f c) = outside a b f"
  by (auto simp: outside_def fs_remove_tree_def intro!: filter_cong dest: prefix_order.trans)

lemma outside_filter:
  assumes "\<And>qn. qn \<in> set f \<Longrightarrow> \<not> P qn \<Longrightarrow> prefix a (fst qn) \<or> prefix b (fst qn)"
  shows "outside a b (filter P f) = outside a b f"
  using assms by (auto simp: outside_def intro!: filter_cong)

lemma outside_move:
  "outside a b (fs_move f a b) = outside a b f" "outside a b (fs_move f b a) = outside a b f"
  by (induction f) (auto simp: outside_def fs_move_def fs_remove_tree_def)

lemma map_of_outside:
  assumes "\<not> prefix a c" and "\<not> prefix b c"
  shows "map_of (outside a b f) c = map_of f c"
  using assms by (induction f) (auto simp: outside_def)

text \<open>A directory without links stays one when the entries on the way to it are kept.\<close>

lemma real_dir_outside:
  assumes "real_dir f c" and "outside (c @ [x]) (c @ [y]) g = outside (c @ [x]) (c @ [y]) f"
  shows "real_dir g c"
proof -
  have "node_at g (take k c) = node_at f (take k c)" for k
  proof -
    have "\<not> prefix (c @ [z]) (take k c)" for z
      by (auto dest!: prefix_length_le)
    then show ?thesis
      using map_of_outside [of "c @ [x]" "take k c" "c @ [y]"] assms(2) by (metis node_at_def)
  qed
  then show ?thesis using assms(1) by (simp add: real_dir_def)
qed

lemma no_follow_below:
  assumes "real_dir f c" and "path_tail p = c @ [x]" and "x \<noteq> [46, 46]"
  shows "no_follow f p = Some (c @ [x])"
  using fs_walk_real_id [of f "[]" c 40] assms real_dir_place by (simp add: no_follow_def)

section \<open>Release\<close>

definition confined :: "str list \<Rightarrow> str \<Rightarrow> str \<Rightarrow> fs \<Rightarrow> 'h host_scheme \<Rightarrow> bool" where
  "confined c x y f h \<longleftrightarrow> undisturbed h \<and> outside (c @ [x]) (c @ [y]) (hs_fs h) = outside (c @ [x]) (c @ [y]) f"

lemma confined_refl: "undisturbed h \<Longrightarrow> confined c x y (hs_fs h) h"
  by (simp add: confined_def)

lemma confined_sys:
  assumes "confined c x y f h"
    and "\<And>g. outside (c @ [x]) (c @ [y]) g = outside (c @ [x]) (c @ [y]) f \<Longrightarrow>
      outside (c @ [x]) (c @ [y]) (snd (call g)) = outside (c @ [x]) (c @ [y]) g"
  shows "wlp (sys call) (\<lambda>r h'. confined c x y f h') h"
  using assms undisturbed_found [of h] by (auto simp: wlp_sys confined_def split: prod.split) (metis snd_conv)

lemma confined_test: "confined c x y f h \<Longrightarrow> wlp (sys_test T) (\<lambda>r h'. confined c x y f h') h"
  by (simp add: wlp_sys_test confined_def undisturbed_found)

lemma confined_resolve: "confined c x y f h \<Longrightarrow> wlp (resolve_strict p) (\<lambda>r h'. confined c x y f h') h"
  unfolding resolve_strict_def by (rule confined_sys) simp_all

lemma confined_unlink:
  assumes "confined c x y f h" and "real_dir f c" and "path_tail p = c @ [z]" and "z = x \<or> z = y" and "z \<noteq> [46, 46]"
  shows "wlp (unlink p) (\<lambda>r h'. confined c x y f h') h"
  unfolding unlink_def
proof (rule confined_sys [OF assms(1)])
  fix g assume g: "outside (c @ [x]) (c @ [y]) g = outside (c @ [x]) (c @ [y]) f"
  have "no_follow g p = Some (c @ [z])"
    by (rule no_follow_below [OF real_dir_outside [OF assms(2) g] assms(3,5)])
  then show "outside (c @ [x]) (c @ [y]) (snd (fs_unlink p g)) = outside (c @ [x]) (c @ [y]) g"
    using assms(4) by (auto simp: fs_unlink_def intro!: outside_filter)
qed

lemma confined_rename:
  assumes "confined c x y f h" and "real_dir f c" and "x \<noteq> [46, 46]" and "y \<noteq> [46, 46]"
    and "path_tail p = c @ [x] \<and> path_tail q = c @ [y] \<or> path_tail p = c @ [y] \<and> path_tail q = c @ [x]"
  shows "wlp (rename p q) (\<lambda>r h'. confined c x y f h') h"
  unfolding rename_def
proof (rule confined_sys [OF assms(1)])
  fix g assume g: "outside (c @ [x]) (c @ [y]) g = outside (c @ [x]) (c @ [y]) f"
  note real = real_dir_outside [OF assms(2) g]
  have "no_follow g p = Some (c @ [x]) \<and> no_follow g q = Some (c @ [y]) \<or>
      no_follow g p = Some (c @ [y]) \<and> no_follow g q = Some (c @ [x])"
    using assms(5) no_follow_below [OF real] assms(3,4) by metis
  then show "outside (c @ [x]) (c @ [y]) (snd (fs_rename p q g)) = outside (c @ [x]) (c @ [y]) g"
    by (auto simp: fs_rename_def outside_move split: option.split)
qed

lemma confined_rmtree:
  assumes "confined c x y f h" and "real_dir f c" and "path_tail p = c @ [y]" and "y \<noteq> [46, 46]"
  shows "wlp (rmtree p) (\<lambda>r h'. confined c x y f h') h"
proof -
  have found: "found_fs h = hs_fs h" and g: "outside (c @ [x]) (c @ [y]) (hs_fs h) = outside (c @ [x]) (c @ [y]) f"
    and u: "undisturbed h"
    using assms(1) undisturbed_found by (auto simp: confined_def)
  have "no_follow (hs_fs h) p = Some (c @ [y])"
    by (rule no_follow_below [OF real_dir_outside [OF assms(2) g] assms(3,4)])
  moreover have "outside (c @ [x]) (c @ [y]) (fs_remove_tree (hs_fs h) (c @ [y])) = outside (c @ [x]) (c @ [y]) f"
    using g outside_remove_tree [of "c @ [x]" "c @ [y]"] by simp
  moreover have "outside (c @ [x]) (c @ [y]) (filter (\<lambda>qn. strict_prefix (c @ [y]) (fst qn) \<longrightarrow> fst qn \<notin> set gone) (hs_fs h)) =
      outside (c @ [x]) (c @ [y]) f" for gone
    using g by (subst outside_filter) (auto simp: strict_prefix_def)
  ultimately show ?thesis
    using g u by (auto simp: wlp_def rmtree_def Let_def found confined_def split: host_event.split)
qed

text \<open>Once the workspace has been renamed away, what follows only removes entries.\<close>

definition vacated :: "str list \<Rightarrow> 'h host_scheme \<Rightarrow> bool" where
  "vacated c h \<longleftrightarrow> c \<notin> fst ` set (hs_fs h)"

lemma vacated_shrink: "vacated c h \<Longrightarrow> set (hs_fs h') \<subseteq> set (hs_fs h) \<Longrightarrow> vacated c h'"
  unfolding vacated_def by (meson image_mono subsetD)

lemma shrink_calls:
  assumes "undisturbed h" and "vacated c h"
  shows "wlp (unlink p) (\<lambda>r h'. vacated c h') h" "wlp (rmtree p) (\<lambda>r h'. vacated c h') h" "wlp (sys_test T) (\<lambda>r h'. vacated c h') h"
proof -
  note found = undisturbed_found [OF assms(1)]
  show "wlp (unlink p) (\<lambda>r h'. vacated c h') h"
    by (auto simp: wlp_sys unlink_def fs_unlink_def found intro!: vacated_shrink [OF assms(2)] split: option.split)
  show "wlp (sys_test T) (\<lambda>r h'. vacated c h') h"
    by (auto simp: wlp_sys_test found intro!: vacated_shrink [OF assms(2)])
  show "wlp (rmtree p) (\<lambda>r h'. vacated c h') h"
    by (auto simp: wlp_def rmtree_def Let_def fs_remove_tree_def found intro!: vacated_shrink [OF assms(2)]
        split: option.split host_event.split)
qed

lemma vacated_rename:
  assumes "undisturbed h" and "real_dir (hs_fs h) c" and "path_tail p = c @ [x]" and "path_tail q = c @ [y]"
    and "x \<noteq> [46, 46]" and "y \<noteq> [46, 46]" and "x \<noteq> y"
  shows "wlp (rename p q) (\<lambda>r h'. r = Inr () \<longrightarrow> vacated (c @ [x]) h') h"
proof -
  have "no_follow (hs_fs h) p = Some (c @ [x])" "no_follow (hs_fs h) q = Some (c @ [y])"
    using no_follow_below [OF assms(2)] assms(3-6) by blast+
  moreover have "c @ [x] \<notin> fst ` set (fs_move (hs_fs h) (c @ [x]) (c @ [y]))"
    using assms(7) by (auto simp: fs_move_def split: if_splits)
  ultimately show ?thesis
    using assms(7) undisturbed_found [OF assms(1)]
    by (auto simp: rename_def wlp_sys fs_rename_def vacated_def split: option.split)
qed

lemma real_root:
  assumes "undisturbed h"
  shows "wlp (assert_root_integrity a) (\<lambda>r h'. undisturbed h' \<and> hs_fs h' = hs_fs h \<and> same_records h h' \<and>
    (r = Inr () \<longrightarrow> real_dir (hs_fs h) (path_tail (gw_root a)) \<and> path_root (gw_root a) = [47])) h"
proof -
  have dir: "real_dir f (path_tail p) \<and> path_root p = [47]" if "fs_resolve f p = Inr p" and "fs_is_dir f p" for f p
  proof -
    have p: "path_root p = [47]" "real_place f (path_tail p)" using that(1) by (simp_all add: resolve_self_iff)
    then have "p = host_path (path_tail p)" by (cases p) (simp add: host_path_def)
    then show ?thesis using that(2) p stat_real by (metis fs_is_dir_def real_dir_place)
  qed
  have records: "wlp (assert_root_integrity a) (\<lambda>r h'. same_records h h') h"
    by (rule frame_assert_root [OF framed_same_records [of "gw_git a"] same_records_refl])
  have "wlp (assert_root_integrity a) (\<lambda>r h'. undisturbed h' \<and> hs_fs h' = hs_fs h \<and>
      (r = Inr () \<longrightarrow> real_dir (hs_fs h) (path_tail (gw_root a)) \<and> path_root (gw_root a) = [47])) h"
    using assms dir [of "hs_fs h" "gw_root a"]
    by (auto simp: assert_root_integrity_def storage_failure_on_os_error_def io_or_def io_not_def wlp_bind wlp_except wlp_sys
        wlp_sys_test wlp_if resolve_strict_def ws_error_def on_os_error_def undisturbed_found split: sum.split)
  then show ?thesis by (rule wlp_mono [OF wlp_conj [OF records]]) auto
qed

text \<open>
  Over the whole release: the entries outside the two subtrees are those of the start, and when
  it returns nothing is left at the place of the workspace.
\<close>

lemma wlp_both: "wlp m (\<lambda>r h'. I h') h \<Longrightarrow> wlp m (\<lambda>r h'. J h') h \<Longrightarrow> wlp m (\<lambda>r h'. I h' \<and> J h') h"
  using wlp_conj .

lemma absent_vacated:
  assumes "real_dir f c" and "path_root p = [47]" and "path_tail p = c @ [x]" and "x \<noteq> [46, 46]"
    and "\<not> fs_exists f p" and "\<not> fs_is_symlink f p"
  shows "c @ [x] \<notin> fst ` set f"
proof (rule ccontr)
  assume "\<not> c @ [x] \<notin> fst ` set f"
  then obtain n where n: "node_at f (c @ [x]) = Some n"
    by (cases "map_of f (c @ [x])") (auto simp: node_at_def map_of_eq_None_iff)
  have l: "lstat_node f p = Some n"
    using no_follow_below [OF assms(1,3,4)] n by (simp add: lstat_node_def)
  then have "real_place f (c @ [x])"
    using assms(1,4,6) n by (cases n) (auto simp: fs_is_symlink_def real_place_def real_dir_def less_Suc_eq_le)
  then have "stat_node f p = Some n"
    using stat_real [of f "c @ [x]"] n assms(2,3) by (cases p) (simp add: host_path_def)
  then show False using assms(5) by (simp add: fs_exists_def)
qed

lemma confined_vacated:
  assumes "confined c x y f h" and "vacated e h"
  shows "wlp (unlink p) (\<lambda>r h'. vacated e h') h" "wlp (rmtree p) (\<lambda>r h'. vacated e h') h" "wlp (sys_test T) (\<lambda>r h'. vacated e h') h"
  using shrink_calls assms by (auto simp: confined_def)

text \<open>The calls of a release, with the workspace at \<open>p\<close> and its quarantine at \<open>q\<close>.\<close>

definition release_places :: "fs \<Rightarrow> str list \<Rightarrow> str \<Rightarrow> str \<Rightarrow> path \<Rightarrow> path \<Rightarrow> bool" where
  "release_places f c x y p q \<longleftrightarrow> real_dir f c \<and> x \<noteq> [46, 46] \<and> y \<noteq> [46, 46] \<and> x \<noteq> y \<and>
     path_root p = [47] \<and> path_tail p = c @ [x] \<and> path_tail q = c @ [y]"

lemma confined_calls:
  assumes "release_places f c x y p q" and "confined c x y f h"
  shows "wlp (sys_test T) (\<lambda>r h'. confined c x y f h') h" "wlp (rename p q) (\<lambda>r h'. confined c x y f h') h"
    "wlp (rename q p) (\<lambda>r h'. confined c x y f h') h" "wlp (rmtree q) (\<lambda>r h'. confined c x y f h') h"
    "wlp (unlink q) (\<lambda>r h'. confined c x y f h') h"
proof -
  have real: "real_dir f c" and names: "x \<noteq> [46, 46]" "y \<noteq> [46, 46]" and p: "path_tail p = c @ [x]" and q: "path_tail q = c @ [y]"
    using assms(1) by (simp_all add: release_places_def)
  show "wlp (sys_test T) (\<lambda>r h'. confined c x y f h') h" by (rule confined_test [OF assms(2)])
  show "wlp (rename p q) (\<lambda>r h'. confined c x y f h') h" "wlp (rename q p) (\<lambda>r h'. confined c x y f h') h"
    using confined_rename [OF assms(2) real names] p q by blast+
  show "wlp (rmtree q) (\<lambda>r h'. confined c x y f h') h" by (rule confined_rmtree [OF assms(2) real q names(2)])
  show "wlp (unlink q) (\<lambda>r h'. confined c x y f h') h" using confined_unlink [OF assms(2) real q _ names(2)] by blast
qed

definition settled :: "str list \<Rightarrow> str \<Rightarrow> str \<Rightarrow> fs \<Rightarrow> 'h host_scheme \<Rightarrow> bool" where
  "settled c x y f h \<longleftrightarrow> confined c x y f h \<and> vacated (c @ [x]) h"

lemma settled_confined: "settled c x y f h \<Longrightarrow> confined c x y f h"
  by (simp add: settled_def)

lemma settled_calls:
  assumes "release_places f c x y p q" and "settled c x y f h"
  shows "wlp (sys_test T) (\<lambda>r h'. settled c x y f h') h" "wlp (rmtree q) (\<lambda>r h'. settled c x y f h') h"
    "wlp (unlink q) (\<lambda>r h'. settled c x y f h') h"
proof -
  have h: "confined c x y f h" "vacated (c @ [x]) h" using assms(2) by (simp_all add: settled_def)
  note kept = confined_calls [OF assms(1) h(1)] and gone = confined_vacated [OF h]
  show "wlp (sys_test T) (\<lambda>r h'. settled c x y f h') h" "wlp (rmtree q) (\<lambda>r h'. settled c x y f h') h"
    "wlp (unlink q) (\<lambda>r h'. settled c x y f h') h"
    unfolding settled_def
    by (rule wlp_both [OF kept(1) gone(3)], rule wlp_both [OF kept(4) gone(2)], rule wlp_both [OF kept(5) gone(1)])
qed

lemma settled_forget:
  "settled c x y f h \<Longrightarrow> wlp (forget r) (\<lambda>u h'. settled c x y f h') h"
  by (simp add: settled_def confined_def vacated_def undisturbed_def)

lemma confined_forget: "confined c x y f h \<Longrightarrow> wlp (forget r) (\<lambda>u h'. confined c x y f h') h"
  by (simp add: confined_def undisturbed_def)

text \<open>An attempt that ends keeps the outside; one that returns has emptied the place as well.\<close>

definition attempted :: "str list \<Rightarrow> str \<Rightarrow> str \<Rightarrow> fs \<Rightarrow> exn + unit \<Rightarrow> 'h host_scheme \<Rightarrow> bool" where
  "attempted c x y f u h \<longleftrightarrow> (case u of Inl e \<Rightarrow> confined c x y f h | Inr _ \<Rightarrow> settled c x y f h)"

lemma attempted_simps [simp]:
  "attempted c x y f (Inl e) h \<longleftrightarrow> confined c x y f h" "attempted c x y f (Inr u) h \<longleftrightarrow> settled c x y f h"
  by (simp_all add: attempted_def)

lemma settled_attempted: "settled c x y f h \<Longrightarrow> attempted c x y f u h"
  by (auto simp: attempted_def settled_confined split: sum.split)

lemma remove_workspace_attempted:
  assumes "release_places f c x y (wr_path r) q" and "confined c x y f h"
  shows "wlp (remove_workspace r q) (attempted c x y f) h"
proof -
  note calls = settled_calls [OF assms(1)]
  have real: "real_dir (hs_fs h) c" and u: "undisturbed h"
    using assms real_dir_outside by (auto simp: release_places_def confined_def)
  have renamed: "wlp (rename (wr_path r) q) (\<lambda>u h'. confined c x y f h' \<and> (u = Inr () \<longrightarrow> vacated (c @ [x]) h')) h"
    using assms(1) real u by (intro wlp_conj confined_calls(2) [OF assms] vacated_rename) (auto simp: release_places_def)
  have single: "wlp (io_bind (unlink q) (\<lambda>_. io_bind (forget r) (\<lambda>_. ws_error WS_ISOLATION_FAILURE))) (attempted c x y f) h'"
    if "settled c x y f h'" for h'
    unfolding ws_error_def
    by (rule wlp_after [OF calls(3) [OF that]], rule wlp_after [OF settled_forget], assumption)
      (auto intro: settled_confined)
  have tree: "wlp (rmtree q) (attempted c x y f) h'" if "settled c x y f h'" for h'
    by (rule wlp_mono [OF calls(2) [OF that]]) (rule settled_attempted)
  have rest: "wlp (io_bind (is_symlink q) (\<lambda>link.
    if link then io_bind (unlink q) (\<lambda>_. io_bind (forget r) (\<lambda>_. ws_error WS_ISOLATION_FAILURE))
    else io_bind (is_dir q) (\<lambda>dir.
      if \<not> dir then io_bind (unlink q) (\<lambda>_. io_bind (forget r) (\<lambda>_. ws_error WS_ISOLATION_FAILURE))
      else rmtree q))) (attempted c x y f) h'" if "settled c x y f h'" for h'
    by (rule wlp_after [OF calls(1) [OF that]])
      (auto simp: wlp_if single tree settled_confined intro!: wlp_after [OF calls(1)])
  show ?thesis
    unfolding remove_workspace_def
    by (subst wlp_bind, rule wlp_mono [OF renamed]) (auto simp: settled_def intro!: rest split: sum.split)
qed

lemma restore_workspace_confined:
  assumes "release_places f c x y (wr_path r) q" and "confined c x y f h"
  shows "wlp (restore_workspace r q) (attempted c x y f) h"
  unfolding restore_workspace_def ws_error_def
  by (rule wlp_after [where I = "confined c x y f"], intro frame_io_tests confined_calls [OF assms(1)] assms(2),
      assumption, rule wlp_after [where I = "confined c x y f"], intro frame_if frame_except confined_calls [OF assms(1)])
    (auto split: if_splits)

lemma attempt_attempted:
  assumes "release_places f c x y (wr_path r) q" and "confined c x y f h"
  shows "wlp (io_bind (io_except (remove_workspace r q)
      (\<lambda>e. if e = OSError then Some (restore_workspace r q) else None)) (\<lambda>_. forget r)) (attempted c x y f) h"
proof -
  have forget: "wlp (forget r) (attempted c x y f) h'" if "settled c x y f h'" for h'
    by (rule wlp_mono [OF settled_forget [OF that]]) (rule settled_attempted)
  show ?thesis
    unfolding wlp_bind wlp_except
    by (rule wlp_mono [OF remove_workspace_attempted [OF assms]])
      (auto split: sum.split simp: forget simp del: wlp_forget intro!: wlp_mono [OF restore_workspace_confined [OF assms(1)]])
qed

lemma recover_quarantine_settled:
  assumes "release_places f c x y p q" and "settled c x y f h"
  shows "wlp (recover_quarantine q) (\<lambda>u h'. settled c x y f h') h"
  unfolding recover_quarantine_def
  by (intro frame_rules frame_io_tests frame_storage settled_calls [OF assms(1)] assms(2))

lemma release_attempted:
  assumes "release_places f c x y (wr_path r) q" and "confined c x y f h"
  shows "wlp (io_bind (io_and (io_not (path_exists (wr_path r))) (io_not (is_symlink (wr_path r)))) (\<lambda>gone.
      if gone then io_bind (recover_quarantine q) (\<lambda>_. forget r)
      else io_bind (io_or (path_exists q) (is_symlink q)) (\<lambda>occupied.
        if occupied then ws_error WS_STORAGE_FAILURE
        else io_bind (io_except (remove_workspace r q)
            (\<lambda>e. if e = OSError then Some (restore_workspace r q) else None)) (\<lambda>_. forget r)))) (attempted c x y f) h"
proof -
  have forget: "wlp (forget r) (attempted c x y f) h'" if "settled c x y f h'" for h'
    by (rule wlp_mono [OF settled_forget [OF that]]) (rule settled_attempted)
  have gone: "wlp (io_bind (recover_quarantine q) (\<lambda>_. forget r)) (attempted c x y f) h'" if "settled c x y f h'" for h'
    by (rule wlp_after [OF recover_quarantine_settled [OF assms(1) that]]) (auto intro: forget settled_confined simp del: wlp_forget)
  have there: "wlp (io_bind (io_or (path_exists q) (is_symlink q)) (\<lambda>occupied.
        if occupied then ws_error WS_STORAGE_FAILURE
        else io_bind (io_except (remove_workspace r q)
            (\<lambda>e. if e = OSError then Some (restore_workspace r q) else None)) (\<lambda>_. forget r))) (attempted c x y f) h'"
    if "confined c x y f h'" for h'
    by (rule wlp_after [where I = "confined c x y f"], intro frame_io_tests confined_calls [OF assms(1)] that)
      (simp_all add: wlp_if ws_error_def attempt_attempted [OF assms(1)])
  have "wlp (io_and (io_not (path_exists (wr_path r))) (io_not (is_symlink (wr_path r))))
    (\<lambda>g h'. g \<noteq> Inr True \<and> confined c x y f h' \<or> g = Inr True \<and> settled c x y f h') h"
  proof -
    have real: "real_dir (hs_fs h) c" and u: "undisturbed h"
      using assms real_dir_outside by (auto simp: release_places_def confined_def)
    then have "\<not> fs_exists (hs_fs h) (wr_path r) \<Longrightarrow> \<not> fs_is_symlink (hs_fs h) (wr_path r) \<Longrightarrow> vacated (c @ [x]) h"
      unfolding vacated_def using assms(1) by (intro absent_vacated) (auto simp: release_places_def)
    then show ?thesis
      using assms(2) u by (auto simp: io_and_def io_not_def wlp_bind wlp_if wlp_sys_test undisturbed_found settled_def
          confined_def vacated_def)
  qed
  then show ?thesis
    by (subst wlp_bind, elim wlp_mono) (auto split: sum.split intro!: gone there simp: ws_error_def intro: settled_confined)
qed

lemma release_path_places:
  assumes "WORKSPACE_ID_PATTERN (workspace_id_value wid)" and "real_dir f (path_tail (gw_root a))" and "path_root (gw_root a) = [47]"
    and "path_for a wid = Inr p"
  shows "release_places f (path_tail (gw_root a)) (workspace_id_value wid) (lit ''.release-'' @ workspace_id_value wid) p (quarantine_path a wid)"
proof -
  let ?v = "workspace_id_value wid"
  have first: "hd ?v \<noteq> 46" "?v \<noteq> []"
    using handle_component(2,3) [OF assms(1) [unfolded WORKSPACE_ID_PATTERN_def]] by simp_all
  have "p = (gw_root a)\<lparr>path_tail := path_tail (gw_root a) @ [?v]\<rparr>"
    using path_for_handle [OF assms(1), of a] assms(4) by simp
  moreover have "path_tail (quarantine_path a wid) = path_tail (gw_root a) @ [lit ''.release-'' @ ?v]"
    by (rule quarantine_tail [OF assms(1)])
  moreover have "?v \<noteq> lit ''.release-'' @ ?v" "?v \<noteq> [46, 46]" "lit ''.release-'' @ ?v \<noteq> [46, 46]"
    using first by (auto dest: arg_cong [where f = length])
  ultimately show ?thesis using assms(2,3) by (simp add: release_places_def)
qed

text \<open>
  A release of a recorded workspace on an undisturbed host: the places are those of the
  adapter's root, and the root is known to be a directory once its integrity check has passed.
\<close>

lemma ws_release_attempted:
  assumes "undisturbed h" and "coherent a h" and "wh_records h (wi_workspace_id w) = Some r"
  shows "wlp (ws_release a w) (attempted (path_tail (gw_root a)) (workspace_id_value (wi_workspace_id w))
    (lit ''.release-'' @ workspace_id_value (wi_workspace_id w)) (hs_fs h)) h"
proof (cases "wr_identity r = w")
  case False
  then show ?thesis
    unfolding wlp_releasing(2) [OF assms(3)] by (simp add: ws_error_def confined_refl assms(1))
next
  case True
  let ?wid = "wi_workspace_id w" and ?c = "path_tail (gw_root a)" and ?q = "quarantine_path a (wi_workspace_id w)"
  let ?x = "workspace_id_value ?wid" and ?y = "lit ''.release-'' @ workspace_id_value ?wid" and ?f = "hs_fs h"
  let ?Q = "attempted ?c ?x ?y ?f"
  note pattern = coherent_record(1) [OF assms(2,3)] and path = coherent_record(3) [OF assms(2,3)]
  have body: "wlp (io_bind (io_and (io_not (path_exists (wr_path r))) (io_not (is_symlink (wr_path r)))) (\<lambda>gone.
      if gone then io_bind (recover_quarantine ?q) (\<lambda>_. forget r)
      else io_bind (io_or (path_exists ?q) (is_symlink ?q)) (\<lambda>occupied.
        if occupied then ws_error WS_STORAGE_FAILURE
        else io_bind (io_except (remove_workspace r ?q)
            (\<lambda>e. if e = OSError then Some (restore_workspace r ?q) else None)) (\<lambda>_. forget r)))) ?Q h'"
    if h': "undisturbed h'" "hs_fs h' = ?f" and real: "real_dir ?f ?c" and base: "path_root (gw_root a) = [47]" for h'
    by (rule release_attempted [OF release_path_places [OF pattern real base path]])
      (simp add: confined_def h')
  obtain y where y: "lit ''.release-'' @ workspace_id_value ?wid = y" by blast
  show ?thesis
    unfolding y wlp_releasing(2) [OF assms(3)] if_not_P [OF True [THEN not_not [THEN iffD2]]]
    by (subst wlp_bind, rule wlp_mono [OF real_root [OF assms(1)]])
      (auto simp: wlp_bind [of "io_lift _"] confined_def Let_def ws_error_def split: sum.split intro!: body [unfolded y])
qed

text \<open>A release waits for nothing: it always comes to an end.\<close>

lemma ends_tests [simp]: "ends (sys_test T) h" "ends (resolve_strict p) h" "ends (rename p q) h" "ends (unlink p) h"
  by (simp_all add: sys_test_def resolve_strict_def rename_def unlink_def)

lemma ends_rmtree [simp]: "ends (rmtree p) h"
  by (auto simp: ends_def rmtree_def Let_def split: host_event.split option.split)

lemma ends_forget [simp]: "ends (forget r) h"
  by (simp add: ends_def forget_def)

lemma ends_io_tests:
  "(\<And>h. ends m h) \<Longrightarrow> (\<And>h. ends n h) \<Longrightarrow> ends (io_or m n) h" "(\<And>h. ends m h) \<Longrightarrow> (\<And>h. ends n h) \<Longrightarrow> ends (io_and m n) h"
  "(\<And>h. ends m h) \<Longrightarrow> ends (io_not m) h"
  by (simp_all add: io_or_def io_and_def io_not_def ends_then)

lemma ends_if: "(b \<Longrightarrow> ends m h) \<Longrightarrow> (\<not> b \<Longrightarrow> ends n h) \<Longrightarrow> ends (if b then m else n) h"
  by simp

lemmas ends_rules = ends_then ends_io_tests ends_if ends_handled

lemma ends_ws_error [simp]: "ends (ws_error c) h"
  by (simp add: ws_error_def)

lemma ends_storage: "(\<And>h. ends m h) \<Longrightarrow> ends (storage_failure_on_os_error m) h"
  unfolding storage_failure_on_os_error_def by (rule ends_handled) (auto simp: on_os_error_def split: if_splits)

lemma ends_release_parts [simp]:
  "ends (assert_root_integrity a) h" "ends (recover_quarantine q) h" "ends (restore_workspace r q) h" "ends (remove_workspace r q) h"
proof -
  show "ends (assert_root_integrity a) h"
    unfolding assert_root_integrity_def by (intro ends_rules ends_storage) simp_all
  show "ends (recover_quarantine q) h"
    unfolding recover_quarantine_def by (intro ends_rules ends_storage) simp_all
  show "ends (restore_workspace r q) h"
    unfolding restore_workspace_def by (intro ends_rules) (auto split: if_splits)
  show "ends (remove_workspace r q) h"
    unfolding remove_workspace_def by (intro ends_rules) simp_all
qed

lemma ends_ws_release: "ends (ws_release a w) h"
proof -
  have body: "ends (io_bind (assert_root_integrity a) (\<lambda>_.
        io_bind (io_lift (path_for a (wi_workspace_id w))) (\<lambda>expected.
        if wr_path r \<noteq> expected \<or> is_protected a (wr_path r) then ws_error WS_ISOLATION_FAILURE
        else let q = quarantine_path a (wi_workspace_id w) in
          io_bind (io_and (io_not (path_exists (wr_path r))) (io_not (is_symlink (wr_path r)))) (\<lambda>gone.
          if gone then io_bind (recover_quarantine q) (\<lambda>_. forget r)
          else io_bind (io_or (path_exists q) (is_symlink q)) (\<lambda>occupied.
            if occupied then ws_error WS_STORAGE_FAILURE
            else io_bind (io_except (remove_workspace r q)
                (\<lambda>e. if e = OSError then Some (restore_workspace r q) else None)) (\<lambda>_. forget r)))))) h'"
    for r h'
    unfolding Let_def by (intro ends_rules) (auto split: if_splits)
  then show ?thesis
    by (auto simp: ends_def ws_release_def io_return_def ws_error_def io_raise_def split: option.split)
qed

end
