(* ===== verification/HostExamples.thy ===== *)
theory HostExamples
  imports WorkspaceRecords CommandExecution
begin

text \<open>
  A concrete host for the witnesses: a file system with the executables, the source repository
  and the workspace root, children that answer the way Git and bubblewrap do, and the change of
  the file system a clone makes. The bundle \<open>run_defs\<close> with the congruences \<open>run_lazy\<close> lets the
  simplifier run a computation call by call.
\<close>

section \<open>Running a computation\<close>

lemma run_lazy:
  "io_bind m f h = io_bind m f h" "io_except m k h = io_except m k h" "io_finally m c h = io_finally m c h"
  "io_loop b a h = io_loop b a h"
  by (rule refl)+

lemmas fs_defs = fs_is_symlink_def fs_is_dir_def fs_is_file_def fs_exists_def fs_executable_def fs_resolve_def
  fs_read_def lstat_node_def stat_node_def no_follow_def follow_def node_at_def fs_mkdir_def fs_unlink_def
  fs_rename_def fs_move_def may_replace_def fs_remove_tree_def fs_scandir_def host_path_def path_div_def
  path_parent_def path_name_def is_relative_to_def relative_to_def pure_posix_path_def posix_root_def
  is_absolute_def as_posix_def

lemmas git_defs = git_error_def os_error_as_def with_tempdir_def
  mkdtemp_def control_environment_def validate_paths_def validate_repository_def head_of_def materialize_body_def
  materialize_baseline_def verify_baseline_def snapshot_candidate_def new_MaterializedBaseline_def discard_partial_def

lemmas workspace_defs = ws_error_def storage_failure_on_os_error_def io_or_def io_and_def io_not_def overlaps_def
  resolve_directory_def new_LocalGitWorkspace_def assert_root_integrity_def path_for_def is_protected_def
  translating_git_def config_digest_def file_sha256_def scandir_def walk_round_def validate_symlinks_def
  require_record_def validate_record_def prepare_checked_def prepare_at_def ws_prepare_def ws_load_def

section \<open>A host\<close>

definition ex_files :: fs where
  "ex_files = [([lit ''usr''], Dir), ([lit ''usr'', lit ''bwrap''], File [1] True),
     ([lit ''usr'', lit ''git''], File [2] True), ([lit ''usr'', lit ''python''], File [3] True),
     ([lit ''src''], Dir), ([lit ''work''], Dir)]"

text \<open>What a clone into a workspace leaves, and the control directories Git runs with.\<close>

definition ex_cloned :: "str \<Rightarrow> fs" where
  "ex_cloned name = [([lit ''work'', name, lit ''.git'', lit ''config''], File [4] False),
     ([lit ''work'', name, lit ''.git''], Dir), ([lit ''work'', name, lit ''lib''], Dir), ([lit ''work'', name], Dir)]"

definition ex_control :: fs where
  "ex_control = map (\<lambda>names. (lit ''work'' # lit ''.alicerce-git-control-x'' # names, Dir))
     [[lit ''config''], [lit ''home''], [lit ''hooks''], []]"

definition ex_output :: "popen \<Rightarrow> bytes" where
  "ex_output q = (if take 1 (drop 3 (po_argv q)) = [lit ''rev-parse''] then replicate 40 98 @ [10]
     else if take 1 (drop 3 (po_argv q)) = [lit ''write-tree''] then replicate 40 99 @ [10]
     else if hd (po_argv q) = lit ''/usr/bwrap'' then [111, 107] else [])"

definition ex_child :: "nat \<Rightarrow> popen \<Rightarrow> process" where
  "ex_child t q = \<lparr>pr_pid = 0, pr_piped = (\<lambda>_. True), pr_ready = (\<lambda>_. [STDOUT, STDERR]),
     pr_read = (\<lambda>n s. if s = STDOUT \<and> n \<le> t + 8 then Chunk (ex_output q) else Chunk []),
     pr_poll = (\<lambda>_. Some 0), pr_wait = (\<lambda>_. Some 0), pr_wait_for = (\<lambda>_. Some 0)\<rparr>"

text \<open>The first clone happens at tick 40 and the second at tick 150.\<close>

definition ex_events :: "nat \<Rightarrow> host_event" where
  "ex_events n = (if n = 40 then Meanwhile (ex_cloned (lit ''a'') @ ex_control @ ex_files)
     else if n = 150 then Meanwhile (ex_cloned (lit ''b'') @ ex_control @ ex_cloned (lit ''a'') @ ex_files)
     else Calm)"

definition ex_world :: "nat \<Rightarrow> fs \<Rightarrow> popen list \<Rightarrow> nat list \<Rightarrow> (workspace_id \<Rightarrow> workspace_record option) \<Rightarrow>
    (run_id \<Rightarrow> workspace_id option) \<Rightarrow> workspace_host" where
  "ex_world n f started unseen records index = \<lparr>hs_fs = f, hs_tick = n, hs_event = ex_events, hs_clock = (\<lambda>_. 0),
     hs_utc = (\<lambda>_. ex_now), hs_children = ex_child, hs_started = started, hs_unseen = unseen,
     hs_token = (\<lambda>_. lit ''x''), wh_records = records, wh_run_index = index\<rparr>"

definition ex_git :: git_cli where
  "ex_git = \<lparr>gc_executable = pure_posix_path (lit ''/usr/git''), gc_timeout = 5, gc_max_output = 1000\<rparr>"

definition ex_adapter :: local_git_workspace where
  "ex_adapter = \<lparr>gw_source = pure_posix_path (lit ''/src''), gw_root = pure_posix_path (lit ''/work''),
     gw_protected = [pure_posix_path (lit ''/src'')], gw_git = ex_git\<rparr>"

lemma ex_sha_text:
  "utf8_decode (replicate n 98 @ [10]) = Inr (replicate n 98 @ [10])"
  "utf8_decode (replicate n 99 @ [10]) = Inr (replicate n 99 @ [10])"
proof -
  have "utf8_encode (replicate n 98 @ [10]) = Inr (replicate n 98 @ [10])" "utf8_encode (replicate n 99 @ [10]) = Inr (replicate n 99 @ [10])"
    by (induction n) (simp_all add: utf8_char_def)
  then show "utf8_decode (replicate n 98 @ [10]) = Inr (replicate n 98 @ [10])"
    "utf8_decode (replicate n 99 @ [10]) = Inr (replicate n 99 @ [10])"
    using utf8_roundtrip by blast+
qed

lemma strip_line:
  assumes "\<not> is_space c"
  shows "strip (replicate (Suc n) c @ [10]) = replicate (Suc n) c"
proof -
  have "rev (c # replicate n c @ [10]) = 10 # c # replicate n c"
    by (simp add: replicate_append_same)
  moreover have "is_space 10" by (simp add: is_space_def)
  ultimately show ?thesis using assms by (simp add: strip_def replicate_append_same)
qed

lemma ex_strip:
  "strip (replicate 40 98 @ [10]) = replicate 40 98" "strip (replicate 40 99 @ [10]) = replicate 40 99" "strip [] = []"
  using strip_line [of 98 39] strip_line [of 99 39] by (simp_all add: is_space_def strip_def)

text \<open>The calls on this host, and a whole run of Git on it.\<close>

definition ex_found :: "nat \<Rightarrow> fs \<Rightarrow> fs" where
  "ex_found n f = (case ex_events n of Meanwhile g \<Rightarrow> g | _ \<Rightarrow> f)"

primrec ex_drift :: "nat \<Rightarrow> nat \<Rightarrow> fs \<Rightarrow> fs" where
  "ex_drift 0 n f = f"
| "ex_drift (Suc k) n f = ex_drift k (Suc n) (ex_found n f)"

lemma ex_drift_numeral:
  "ex_drift 2 n f = ex_found (Suc n) (ex_found n f)"
  "ex_drift 11 n f = ex_found (n + 10) (ex_drift 2 (n + 8) (ex_drift 2 (n + 6) (ex_drift 2 (n + 4) (ex_drift 2 (n + 2) (ex_drift 2 n f)))))"
  "ex_drift 16 n f = ex_drift 2 (n + 14) (ex_drift 2 (n + 12) (ex_found (n + 11) (ex_drift 11 n f)))"
  by (simp_all add: eval_nat_numeral)

lemma ex_world_fields [simp]:
  "hs_fs (ex_world n f st u r i) = f" "hs_tick (ex_world n f st u r i) = n" "hs_event (ex_world n f st u r i) = ex_events"
  "hs_clock (ex_world n f st u r i) k = 0" "hs_utc (ex_world n f st u r i) k = ex_now"
  "hs_children (ex_world n f st u r i) = ex_child" "hs_started (ex_world n f st u r i) = st"
  "hs_unseen (ex_world n f st u r i) = u" "hs_token (ex_world n f st u r i) k = lit ''x''"
  "wh_records (ex_world n f st u r i) = r" "wh_run_index (ex_world n f st u r i) = i"
  by (simp_all add: ex_world_def)

lemma ex_calls [simp]:
  "found_fs (ex_world n f st u r i) = ex_found n f" "\<not> denied (ex_world n f st u r i)"
  "after g (ex_world n f st u r i) = ex_world (Suc n) g st u r i"
  by (simp_all add: ex_world_def found_fs_def ex_found_def denied_def after_def seen_exit_def ex_events_def)

lemma ex_child_calls:
  "spawn q (ex_world n f st u r i) =
     Some (Inr (ex_child n q\<lparr>pr_pid := n\<rparr>), ex_world (Suc n) (ex_found n f) (st @ [q]) (n # u) r i)"
  "os_read (ex_child m q\<lparr>pr_pid := p\<rparr>) s k (ex_world n f st u r i) =
     Some (Inr (Chunk (if s = STDOUT \<and> Suc n \<le> m + 8 then take k (ex_output q) else [])),
       ex_world (Suc (Suc n)) (ex_drift 2 n f) st u r i)"
  "select (ex_child m q\<lparr>pr_pid := p\<rparr>) ss t (ex_world n f st u r i) =
     Some (Inr (filter (\<lambda>s. s \<in> set ss) [STDOUT, STDERR]), ex_world (Suc (Suc n)) (ex_drift 2 n f) st u r i)"
  "wait (ex_child m q\<lparr>pr_pid := p\<rparr>) (ex_world n f st u r i) =
     Some (Inr 0, ex_world (Suc n) (ex_found n f) st (removeAll p u) r i)"
  "wait_for (ex_child m q\<lparr>pr_pid := p\<rparr>) t (ex_world n f st u r i) =
     Some (Inr 0, ex_world (Suc n) (ex_found n f) st (removeAll p u) r i)"
proof -
  show "spawn q (ex_world n f st u r i) =
     Some (Inr (ex_child n q\<lparr>pr_pid := n\<rparr>), ex_world (Suc n) (ex_found n f) (st @ [q]) (n # u) r i)"
    by (simp add: spawn_def) (simp add: ex_world_def)
  show "os_read (ex_child m q\<lparr>pr_pid := p\<rparr>) s k (ex_world n f st u r i) =
     Some (Inr (Chunk (if s = STDOUT \<and> Suc n \<le> m + 8 then take k (ex_output q) else [])),
       ex_world (Suc (Suc n)) (ex_drift 2 n f) st u r i)"
    by (simp add: os_read_def io_bind_def sys_def observe_def ex_child_def eval_nat_numeral)
  show "select (ex_child m q\<lparr>pr_pid := p\<rparr>) ss t (ex_world n f st u r i) =
     Some (Inr (filter (\<lambda>s. s \<in> set ss) [STDOUT, STDERR]), ex_world (Suc (Suc n)) (ex_drift 2 n f) st u r i)"
    by (simp add: select_def io_bind_def sys_def observe_def ex_child_def eval_nat_numeral)
  show "wait (ex_child m q\<lparr>pr_pid := p\<rparr>) (ex_world n f st u r i) =
     Some (Inr 0, ex_world (Suc n) (ex_found n f) st (removeAll p u) r i)"
    by (simp add: wait_def Let_def ex_child_def seen_exit_def) (simp add: ex_world_def)
  show "wait_for (ex_child m q\<lparr>pr_pid := p\<rparr>) t (ex_world n f st u r i) =
     Some (Inr 0, ex_world (Suc n) (ex_found n f) st (removeAll p u) r i)"
    by (simp add: wait_for_def Let_def ex_child_def seen_exit_def) (simp add: ex_world_def)
qed

lemma ex_child_piped [simp]: "pr_piped (ex_child n q) s"
  by (simp add: ex_child_def)

text \<open>Every child is waited for at once, and its output is read in one or two rounds.\<close>

definition ex_git_child :: "str list \<Rightarrow> path \<Rightarrow> (str \<times> str) list \<Rightarrow> popen" where
  "ex_git_child args cwd env = \<lparr>po_argv = as_posix (gc_executable ex_git) # args, po_cwd = cwd, po_env = env\<rparr>"

lemma ex_output_git:
  "ex_output (ex_git_child args cwd env) = (if take 1 (drop 2 args) = [lit ''rev-parse''] then replicate 40 98 @ [10]
     else if take 1 (drop 2 args) = [lit ''write-tree''] then replicate 40 99 @ [10] else [])"
  by (simp add: ex_output_def ex_git_child_def eval_nat_numeral ex_git_def fs_defs)

lemma ex_git_run:
  assumes "\<not> isl (utf8_decode (ex_output (ex_git_child args cwd env)))" and "length (ex_output (ex_git_child args cwd env)) \<le> 100"
  shows "git_run ex_git args cwd env (ex_world n f st [] r i) =
    Some (Inr (projr (utf8_decode (ex_output (ex_git_child args cwd env)))),
      let k = (if ex_output (ex_git_child args cwd env) = [] then 11 else 16) in
      ex_world (n + k) (ex_drift k n f) (st @ [ex_git_child args cwd env]) [] r i)"
proof -
  let ?q = "ex_git_child args cwd env"
  define out where "out = ex_output ?q"
  obtain t where decoded: "utf8_decode out = Inr t" using assms(1) by (cases "utf8_decode out") (simp_all add: out_def)
  have q: "\<lparr>po_argv = as_posix (gc_executable ex_git) # args, po_cwd = cwd, po_env = env\<rparr> = ?q" by (simp add: ex_git_child_def)
  have limits: "gc_timeout ex_git = 5" "gc_max_output ex_git = 1000" by (simp_all add: ex_git_def)
  note run = capture_bounded_def git_round_def os_error_as_def io_bind_def io_except_def io_return_def io_loop.simps
    monotonic_def observe_def sys_def Let_def ex_drift_numeral
  show ?thesis
  proof (cases "out = []")
    case True
    then show ?thesis
      using decoded unfolding git_run_def q out_def [symmetric]
      by (simp add: ex_child_calls limits run out_def [symmetric] cong: run_lazy) (simp add: eval_nat_numeral)
  next
    case False
    then show ?thesis
      using assms(2) unfolding git_run_def q out_def [symmetric]
      by (simp add: decoded ex_child_calls limits run out_def [symmetric] cong: run_lazy) (simp add: eval_nat_numeral)
  qed
qed

lemmas ex_run_defs = io_bind_def io_except_def io_finally_def io_return_def io_raise_def io_lift_def
  sys_def sys_test_def observe_def Let_def on_os_error_def resolve_strict_def read_bytes_def access_x_def
  unlink_def mkdir_def rename_def

lemma ex_cleanup [simp]:
  "cleanup_tree p (ex_world n f st u r i) = (case lstat_node (ex_found n f) p of
      None \<Rightarrow> Some (Inr (), ex_world (Suc n) (ex_found n f) st u r i)
    | Some _ \<Rightarrow> rmtree p (ex_world n f st u r i))"
  "rmtree p (ex_world n f st u r i) = (case no_follow (ex_found n f) p of
      None \<Rightarrow> Some (Inl OSError, ex_world (Suc n) (ex_found n f) st u r i)
    | Some c \<Rightarrow> if node_at (ex_found n f) c = Some Dir then Some (Inr (), ex_world (Suc n) (fs_remove_tree (ex_found n f) c) st u r i)
        else Some (Inl OSError, ex_world (Suc n) (ex_found n f) st u r i))"
  by (simp_all add: cleanup_tree_def rmtree_def Let_def ex_events_def split: option.splits)

lemmas ex_fs = ex_found_def ex_events_def ex_files_def ex_cloned_def ex_control_def ex_adapter_def


lemma ex_world_eq:
  "ex_world n f st u r i = ex_world n' f' st' u' r' i' \<longleftrightarrow> n = n' \<and> f = f' \<and> st = st' \<and> u = u' \<and> r = r' \<and> i = i'"
  by (auto simp: ex_world_def)

lemma ex_publish [simp]:
  "publish w (ex_world n f st u r i) = Some (Inr (), ex_world n f st u (r(wi_workspace_id (wr_identity w) \<mapsto> w))
     (i(wi_run_id (wr_identity w) \<mapsto> wi_workspace_id (wr_identity w))))"
  by (simp add: publish_def ex_world_def)

lemmas ex_simps = ex_run_defs fs_defs git_defs workspace_defs io_loop.simps ex_git_run ex_output_git ex_sha_text
  ex_strip ex_fs ex_drift_numeral ex_world_eq

section \<open>Two workspaces\<close>

lemma ex_adapter_made:
  "new_LocalGitWorkspace (pure_posix_path (lit ''/src'')) (pure_posix_path (lit ''/work'')) [] ex_git
     (ex_world 10 ex_files [] [] r i) = Some (Inr ex_adapter, ex_world 16 ex_files [] [] (\<lambda>_. None) (\<lambda>_. None))"
  by (simp add: ex_run_defs fs_defs workspace_defs ex_fs cong: run_lazy) (simp add: ex_world_def)

definition ex_prepared :: "str \<Rightarrow> run_identity \<Rightarrow> workspace_identity" where
  "ex_prepared name i = \<lparr>wi_workspace_id = WorkspaceId name, wi_run_id = ri_run_id i,
     wi_baseline_sha = ri_baseline_sha i\<rparr>"

definition ex_record :: "str \<Rightarrow> run_identity \<Rightarrow> workspace_record" where
  "ex_record name i = \<lparr>wr_identity = ex_prepared name i, wr_path = path_div (gw_root ex_adapter) name,
     wr_config_digest = sha256_digest [4]\<rparr>"

definition ex_other :: run_identity where
  "ex_other = ex_identity\<lparr>ri_run_id := RunId (lit ''other'')\<rparr>"

lemma ex_prepared_a:
  "\<exists>started. ws_prepare ex_adapter (Inr (WorkspaceId (lit ''a''))) ex_identity
      (ex_world 16 ex_files [] [] (\<lambda>_. None) (\<lambda>_. None)) =
    Some (Inr (ex_prepared (lit ''a'') ex_identity), ex_world 125 (ex_cloned (lit ''a'') @ ex_files) started []
      [WorkspaceId (lit ''a'') \<mapsto> ex_record (lit ''a'') ex_identity] [ri_run_id ex_identity \<mapsto> WorkspaceId (lit ''a'')])"
  by (simp add: ex_simps ex_identity_def ex_prepared_def ex_record_def cong: run_lazy)

lemma ex_prepared_b:
  "\<exists>started'. ws_prepare ex_adapter (Inr (WorkspaceId (lit ''b''))) ex_other
      (ex_world 125 (ex_cloned (lit ''a'') @ ex_files) started [] [WorkspaceId (lit ''a'') \<mapsto> w] [RunId (lit ''run-policy'') \<mapsto> v]) =
    Some (Inr (ex_prepared (lit ''b'') ex_other), ex_world 234 (ex_cloned (lit ''b'') @ ex_cloned (lit ''a'') @ ex_files) started' []
      [WorkspaceId (lit ''a'') \<mapsto> w, WorkspaceId (lit ''b'') \<mapsto> ex_record (lit ''b'') ex_other]
      [RunId (lit ''run-policy'') \<mapsto> v, ri_run_id ex_other \<mapsto> WorkspaceId (lit ''b'')])"
  by (simp add: ex_simps ex_other_def ex_identity_def ex_prepared_def ex_record_def cong: run_lazy)

end
