(* ===== verification/WorkspaceProperties.thy ===== *)
theory WorkspaceProperties
  imports WorkspaceConfinement HostExamples
begin

text \<open>
  The properties of the workspace adapter, over every host, and the run of it that shows their
  hypotheses can hold: two workspaces are prepared and the second is released.
\<close>

section \<open>A run\<close>

definition ex_two :: "popen list \<Rightarrow> workspace_host" where
  "ex_two started = ex_world 234 (ex_cloned (lit ''b'') @ ex_cloned (lit ''a'') @ ex_files) started []
     [WorkspaceId (lit ''a'') \<mapsto> ex_record (lit ''a'') ex_identity, WorkspaceId (lit ''b'') \<mapsto> ex_record (lit ''b'') ex_other]
     [ri_run_id ex_identity \<mapsto> WorkspaceId (lit ''a''), ri_run_id ex_other \<mapsto> WorkspaceId (lit ''b'')]"

lemma ex_ids:
  "sum_bind (Inr (lit ''a'')) new_WorkspaceId = Inr (WorkspaceId (lit ''a''))"
  "sum_bind (Inr (lit ''b'')) new_WorkspaceId = Inr (WorkspaceId (lit ''b''))"
  by (simp_all add: new_WorkspaceId_Inr WORKSPACE_ID_PATTERN_def match_head_tail_def is_alnum_def is_lower_def)

lemma ex_two_reachable: "\<exists>started. ws_reachable ex_adapter (ex_two started)"
proof -
  have made: "ws_reachable ex_adapter (ex_world 16 ex_files [] [] (\<lambda>_. None) (\<lambda>_. None))"
    by (rule ws_reachable.made [OF ex_adapter_made])
  obtain started where a: "ws_prepare ex_adapter (Inr (WorkspaceId (lit ''a''))) ex_identity
      (ex_world 16 ex_files [] [] (\<lambda>_. None) (\<lambda>_. None)) =
    Some (Inr (ex_prepared (lit ''a'') ex_identity), ex_world 125 (ex_cloned (lit ''a'') @ ex_files) started []
      [WorkspaceId (lit ''a'') \<mapsto> ex_record (lit ''a'') ex_identity] [ri_run_id ex_identity \<mapsto> WorkspaceId (lit ''a'')])"
    using ex_prepared_a by blast
  note first = ws_reachable.prepared [OF made a [folded ex_ids]]
  have run: "ri_run_id ex_identity = RunId (lit ''run-policy'')" by (simp add: ex_identity_def)
  obtain started' where b: "ws_prepare ex_adapter (Inr (WorkspaceId (lit ''b''))) ex_other
      (ex_world 125 (ex_cloned (lit ''a'') @ ex_files) started []
        [WorkspaceId (lit ''a'') \<mapsto> ex_record (lit ''a'') ex_identity] [ri_run_id ex_identity \<mapsto> WorkspaceId (lit ''a'')]) =
    Some (Inr (ex_prepared (lit ''b'') ex_other), ex_two started')"
    using ex_prepared_b [of started "ex_record (lit ''a'') ex_identity" "WorkspaceId (lit ''a'')"]
    unfolding ex_two_def run by blast
  show ?thesis using ws_reachable.prepared [OF first b [folded ex_ids]] by blast
qed

lemma ex_two_undisturbed: "undisturbed (ex_two started)"
  by (simp add: undisturbed_def ex_two_def ex_events_def)

lemma ex_two_records:
  "wh_records (ex_two started) (WorkspaceId (lit ''a'')) = Some (ex_record (lit ''a'') ex_identity)"
  "wh_records (ex_two started) (WorkspaceId (lit ''b'')) = Some (ex_record (lit ''b'') ex_other)"
  by (simp_all add: ex_two_def)

lemma ex_forget [simp]:
  "forget w (ex_world n f st u r i) = Some (Inr (), ex_world n f st u (r(wi_workspace_id (wr_identity w) := None))
     (i(wi_run_id (wr_identity w) := None)))"
  by (simp add: forget_def ex_world_def)

lemma map_forget: "k \<noteq> l \<Longrightarrow> [k \<mapsto> x, l \<mapsto> y](l := None) = [k \<mapsto> x]"
  by auto

lemma ex_released:
  "\<exists>n. ws_release ex_adapter (ex_prepared (lit ''b'') ex_other) (ex_two started) =
    Some (Inr (), ex_world n (ex_cloned (lit ''a'') @ ex_files) started []
      [WorkspaceId (lit ''a'') \<mapsto> ex_record (lit ''a'') ex_identity] [ri_run_id ex_identity \<mapsto> WorkspaceId (lit ''a'')])"
  unfolding ex_two_def
  by (simp add: ex_simps ws_release_def remove_workspace_def quarantine_path_def ex_prepared_def ex_record_def
      ex_other_def ex_identity_def map_forget cong: run_lazy)

section \<open>Properties\<close>

text \<open>C32. The workspaces that a reachable state of the adapter holds are isolated: each is a directory
  directly below the root, named by its id, and clear of the protected directories; two of them
  belong to different runs, neither contains the other, and neither is the place where the
  release of the other puts it aside.\<close>

theorem workspaces_isolated:
  assumes "ws_reachable a h" and "wh_records h v = Some r" and "wh_records h w = Some s" and "v \<noteq> w"
  shows "path_parent (wr_path r) = gw_root a \<and> path_name (wr_path r) = workspace_id_value v \<and> \<not> is_protected a (wr_path r) \<and>
    wi_run_id (wr_identity r) \<noteq> wi_run_id (wr_identity s) \<and> \<not> overlaps (wr_path r) (wr_path s) \<and>
    wr_path r \<noteq> quarantine_path a w"
proof -
  note c = ws_reachable_coherent [OF assms(1)]
  note patterns = coherent_record(1) [OF c assms(2)] coherent_record(1) [OF c assms(3)]
  have "path_name (quarantine_path a w) \<noteq> path_name (wr_path r)"
    using quarantine_name [OF patterns, of a] coherent_placed(2) [OF c assms(2)] by simp
  then show ?thesis
    using coherent_placed [OF c assms(2)] coherent_isolated [OF c assms(2-4)] by auto
qed

theorem workspaces_isolated_witness:
  "\<not> overlaps (wr_path (ex_record (lit ''a'') ex_identity)) (wr_path (ex_record (lit ''b'') ex_other)) \<and>
   \<not> is_protected ex_adapter (wr_path (ex_record (lit ''a'') ex_identity))"
proof -
  obtain started where "ws_reachable ex_adapter (ex_two started)" using ex_two_reachable by blast
  from workspaces_isolated [OF this ex_two_records] show ?thesis by simp
qed

text \<open>C33. A preparation that fails leaves the adapter's records as they were; one that succeeds adds
  one record, for a workspace id and a run that were both unused, and returns its identity. Either
  way the only processes it has started are Git, with a fresh environment that holds nothing of
  the caller's.\<close>

theorem prepare_publishes_one:
  assumes "ws_prepare a new_id i h = Some (r, h')"
  shows "(case r of
      Inl e \<Rightarrow> wh_records h' = wh_records h \<and> wh_run_index h' = wh_run_index h
    | Inr w \<Rightarrow> \<exists>wid p digest. new_id = Inr wid \<and> path_for a wid = Inr p \<and>
        wh_records h wid = None \<and> wh_run_index h (ri_run_id i) = None \<and>
        w = \<lparr>wi_workspace_id = wid, wi_run_id = ri_run_id i, wi_baseline_sha = ri_baseline_sha i\<rparr> \<and>
        wh_records h' = (wh_records h)(wid \<mapsto> \<lparr>wr_identity = w, wr_path = p, wr_config_digest = digest\<rparr>) \<and>
        wh_run_index h' = (wh_run_index h)(ri_run_id i \<mapsto> wid)) \<and>
    (\<exists>qs. hs_started h' = hs_started h @ qs \<and> list_all (git_child (gw_git a)) qs)"
  using wlpD [OF ws_prepare_outcome assms] wlpD [OF frame_prepare [OF framed_ws_started started_only_refl] assms]
  by (cases r) (simp_all add: same_records_def published_def started_only_def)

theorem prepare_publishes_one_witness:
  "\<exists>started h'. ws_prepare ex_adapter (Inr (WorkspaceId (lit ''a''))) ex_identity
      (ex_world 16 ex_files [] [] (\<lambda>_. None) (\<lambda>_. None)) = Some (Inr (ex_prepared (lit ''a'') ex_identity), h') \<and>
    hs_started h' = started \<and> list_all (git_child ex_git) started \<and>
    dom (wh_records h') = {WorkspaceId (lit ''a'')}"
proof -
  let ?h = "ex_world 16 ex_files [] [] (\<lambda>_. None) (\<lambda>_. None)"
  obtain started where a: "ws_prepare ex_adapter (Inr (WorkspaceId (lit ''a''))) ex_identity ?h =
    Some (Inr (ex_prepared (lit ''a'') ex_identity), ex_world 125 (ex_cloned (lit ''a'') @ ex_files) started []
      [WorkspaceId (lit ''a'') \<mapsto> ex_record (lit ''a'') ex_identity] [ri_run_id ex_identity \<mapsto> WorkspaceId (lit ''a'')])"
    using ex_prepared_a by blast
  have "gw_git ex_adapter = ex_git" by (simp add: ex_adapter_def)
  then show ?thesis using prepare_publishes_one [OF a] a by simp
qed

text \<open>C34. A release comes to an end, and while nothing else changes the file system it leaves every
  entry outside the workspace and its quarantine alone, whichever of its calls fail. When it
  returns, nothing is left at the workspace's place, its record and its run are forgotten, those
  of the others are kept, and releasing it again returns at once.\<close>

theorem release_confined:
  assumes "ws_reachable a h" and "undisturbed h" and "wh_records h (wi_workspace_id w) = Some r"
  shows "\<exists>u h'. ws_release a w h = Some (u, h') \<and>
    (\<forall>c. \<not> prefix (path_tail (wr_path r)) c \<longrightarrow> \<not> prefix (path_tail (quarantine_path a (wi_workspace_id w))) c \<longrightarrow>
      node_at (hs_fs h') c = node_at (hs_fs h) c) \<and>
    (u = Inr () \<longrightarrow> node_at (hs_fs h') (path_tail (wr_path r)) = None \<and>
      wh_records h' = (wh_records h)(wi_workspace_id w := None) \<and>
      wh_run_index h' = (wh_run_index h)(wi_run_id w := None) \<and> ws_release a w h' = Some (Inr (), h'))"
proof -
  note c = ws_reachable_coherent [OF assms(1)]
  note pattern = coherent_record(1) [OF c assms(3)]
  obtain u h' where run: "ws_release a w h = Some (u, h')"
    using ends_ws_release [of a w h] by (auto simp: ends_def)
  let ?t = "path_tail (gw_root a)" and ?x = "workspace_id_value (wi_workspace_id w)"
  obtain y where y: "lit ''.release-'' @ ?x = y" by blast
  have places: "path_tail (wr_path r) = ?t @ [?x]" "path_tail (quarantine_path a (wi_workspace_id w)) = ?t @ [y]"
    using path_for_handle [OF pattern, of a] coherent_record(3) [OF c assms(3)] quarantine_tail [OF pattern, of a] y by auto
  have done_: "attempted ?t ?x y (hs_fs h) u h'"
    using wlpD [OF ws_release_attempted [OF assms(2) c assms(3)] run] y by simp
  have "outside (?t @ [?x]) (?t @ [y]) (hs_fs h') = outside (?t @ [?x]) (?t @ [y]) (hs_fs h)"
    using done_ by (cases u) (simp_all add: settled_def confined_def)
  then have kept: "node_at (hs_fs h') d = node_at (hs_fs h) d" if "\<not> prefix (?t @ [?x]) d" "\<not> prefix (?t @ [y]) d" for d
    using map_of_outside [OF that] by (metis node_at_def)
  have empty: "node_at (hs_fs h') (?t @ [?x]) = None" if "u = Inr ()"
    using done_ that by (simp add: settled_def vacated_def node_at_def map_of_eq_None_iff)
  have gone: "released w h h'" if "u = Inr ()"
    using wlpD [OF ws_release_outcome run] that assms(3) by simp
  then have again: "ws_release a w h' = Some (Inr (), h')" if "u = Inr ()"
    using that by (simp add: ws_release_def released_def io_return_def)
  show ?thesis
    using run kept empty gone again unfolding places released_def by blast
qed

theorem release_confined_witness:
  "\<exists>started h'. ws_release ex_adapter (ex_prepared (lit ''b'') ex_other) (ex_two started) = Some (Inr (), h') \<and>
    node_at (hs_fs h') (path_tail (wr_path (ex_record (lit ''b'') ex_other))) = None \<and>
    node_at (hs_fs h') [lit ''work'', lit ''a'', lit ''lib''] = Some Dir"
proof -
  obtain started where "ws_reachable ex_adapter (ex_two started)" using ex_two_reachable by blast
  moreover have "wh_records (ex_two started) (wi_workspace_id (ex_prepared (lit ''b'') ex_other)) = Some (ex_record (lit ''b'') ex_other)"
    using ex_two_records(2) by (simp add: ex_prepared_def)
  ultimately show ?thesis
    using release_confined [OF _ ex_two_undisturbed] ex_released [of started] by (fastforce simp: ex_cloned_def node_at_def)
qed

end
