(* ===== verification/CommandExecutor.thy ===== *)
theory CommandExecutor
  imports GitWorkspace LinuxSandbox CommandPolicy
begin

text \<open>
  \<open>adapters/local/command_executor.py\<close>: the executor behind the command port. It authorizes a
  command again, looks its executable up in a registry of pinned files, and runs it in the
  sandbox backend while it holds the workspace's execution lease, in a working directory that is
  resolved inside that workspace. The backend is a value of the record \<open>sandbox_backend\<close>, the
  protocol \<open>ProcessSandboxBackend\<close>; \<open>linux_sandbox\<close> is the one of \<open>linux_process_sandbox.py\<close>.
\<close>

section \<open>Trusted executables\<close>

record trusted_executable =
  te_executable_id :: executable_id
  te_pin :: pinned_file

definition new_TrustedExecutable :: "executable_id \<Rightarrow> path \<Rightarrow> (trusted_executable, 'h) io" where
  "new_TrustedExecutable eid p =
    io_bind (pin_file p) (\<lambda>f. io_return \<lparr>te_executable_id = eid, te_pin = f\<rparr>)"

definition verify_executable :: "trusted_executable \<Rightarrow> (unit, 'h) io" where
  "verify_executable t = verify_pin (CommandExecutionError CE_ISOLATION_FAILURE)
    (CommandExecutionError CE_EXECUTABLE_UNAVAILABLE) (te_pin t)"

section \<open>The executor\<close>

record 'h sandbox_backend =
  sb_supports :: "network_policy \<Rightarrow> (bool, 'h) io"
  sb_execute :: "sandbox_invocation \<Rightarrow> (sandbox_result, 'h) io"

definition linux_sandbox :: "pinned_file \<Rightarrow> path \<Rightarrow> 'h process_host_ext sandbox_backend" where
  "linux_sandbox bubblewrap cwd = \<lparr>sb_supports = supports bubblewrap cwd, sb_execute = sandbox_execute bubblewrap cwd\<rparr>"

record 'h local_command_executor =
  lx_workspace :: local_git_workspace
  lx_executables :: "executable_id \<Rightarrow> trusted_executable option"
  lx_sandbox :: "'h workspace_host_ext git_host_ext process_host_ext sandbox_backend"

definition new_LocalCommandExecutor ::
  "local_git_workspace \<Rightarrow> trusted_executable list \<Rightarrow>
   'h workspace_host_ext git_host_ext process_host_ext sandbox_backend \<Rightarrow> 'h local_command_executor res" where
  "new_LocalCommandExecutor workspace executables sandbox =
    (if \<not> sorted_unique (map (\<lambda>t. executable_id_value (te_executable_id t)) executables) then Inl ValueError
     else Inr \<lparr>lx_workspace = workspace,
       lx_executables = map_of (map (\<lambda>t. (te_executable_id t, t)) executables), lx_sandbox = sandbox\<rparr>)"

section \<open>The working directory\<close>

fun descend_parts :: "path \<Rightarrow> str list \<Rightarrow> (path, 'h) io" where
  "descend_parts candidate [] = io_return candidate"
| "descend_parts candidate (part # parts) =
    (let candidate' = path_div candidate part in
     io_bind (is_symlink candidate') (\<lambda>link.
     if link then io_raise (CommandExecutionError CE_ISOLATION_FAILURE) else descend_parts candidate' parts))"

definition resolve_working_directory :: "path \<Rightarrow> working_directory \<Rightarrow> (path, 'h) io" where
  "resolve_working_directory base relative =
    (let v = working_directory_value relative; parts = (if v = lit ''.'' then [] else path_parts (pure_posix_path v)) in
     io_bind (descend_parts base parts) (\<lambda>candidate.
     io_bind (io_except (resolve_strict candidate) (on_os_error (CommandExecutionError CE_ISOLATION_FAILURE))) (\<lambda>resolved.
     io_bind (is_dir resolved) (\<lambda>dir.
     if \<not> dir \<or> \<not> is_relative_to resolved base then io_raise (CommandExecutionError CE_ISOLATION_FAILURE)
     else io_return resolved))))"

section \<open>Execution\<close>

fun translate_sandbox_error :: "sandbox_cause \<Rightarrow> exn" where
  "translate_sandbox_error SB_SPAWN_FAILED = CommandExecutionError CE_SPAWN_FAILED"
| "translate_sandbox_error SB_CLEANUP_FAILED = CommandExecutionError CE_CLEANUP_FAILED"
| "translate_sandbox_error SB_ISOLATION_FAILURE = CommandExecutionError CE_ISOLATION_FAILURE"

definition translating_sandbox :: "('a, 'h) io \<Rightarrow> ('a, 'h) io" where
  "translating_sandbox m =
    io_except m (\<lambda>e. case e of SandboxError c \<Rightarrow> Some (io_raise (translate_sandbox_error c)) | _ \<Rightarrow> None)"

definition translating_workspace :: "('a, 'h) io \<Rightarrow> ('a, 'h) io" where
  "translating_workspace m =
    io_except m (\<lambda>e. case e of WorkspaceError c \<Rightarrow> Some (io_raise (CommandExecutionError
      (if c = WS_NOT_FOUND then CE_WORKSPACE_NOT_FOUND else CE_ISOLATION_FAILURE))) | _ \<Rightarrow> None)"

definition reauthorize :: "authorized_command \<Rightarrow> authorized_command res" where
  "reauthorize command =
    sum_bind (case authorize_command (au_request command) (au_policy command) of
        Inl (CommandAuthorizationError c) \<Rightarrow> Inl (CommandExecutionError CE_POLICY_DENIED)
      | r \<Rightarrow> r) (\<lambda>reauthorized.
    if reauthorized \<noteq> command then Inl (CommandExecutionError CE_POLICY_DENIED) else Inr reauthorized)"

definition invocation_for :: "trusted_executable \<Rightarrow> command_request \<Rightarrow> path \<Rightarrow> path \<Rightarrow> sandbox_invocation" where
  "invocation_for t request base directory =
    \<lparr>si_executable = pin_path (te_pin t), si_arguments = rq_arguments request, si_workspace_root = base,
     si_working_directory = directory, si_environment = rq_environment request,
     si_network_policy = rq_network_policy request, si_limits = rq_limits request\<rparr>"

definition trusted_result :: "command_request \<Rightarrow> sandbox_result \<Rightarrow> execution_result res" where
  "trusted_result request s =
    catching (\<lambda>e. e = TypeError \<or> is_ValueError e \<or> e = AttributeError) (CommandExecutionError CE_ISOLATION_FAILURE)
      (new_ExecutionResult \<lparr>er_request = request, er_termination = sr_termination s, er_exit_code = sr_exit_code s,
        er_stdout = sr_stdout s, er_stderr = sr_stderr s, er_started_at = sr_started_at s,
        er_finished_at = sr_finished_at s\<rparr>)"

text \<open>The body of the \<open>with\<close> statement.\<close>

definition run_leased ::
  "'h local_command_executor \<Rightarrow> trusted_executable \<Rightarrow> command_request \<Rightarrow> path \<Rightarrow> (execution_result, 'h) ws_io" where
  "run_leased x t request base =
    io_bind (resolve_working_directory base (rq_working_directory request)) (\<lambda>directory.
    io_bind (verify_executable t) (\<lambda>_.
    io_bind (translating_sandbox (sb_execute (lx_sandbox x) (invocation_for t request base directory))) (\<lambda>s.
    io_bind (verify_executable t) (\<lambda>_.
      io_lift (trusted_result request s)))))"

definition executor_execute ::
  "'h local_command_executor \<Rightarrow> authorized_command \<Rightarrow> (execution_result, 'h) ws_io" where
  "executor_execute x command =
    io_bind (io_lift (reauthorize command)) (\<lambda>_.
    case lx_executables x (rq_executable (au_request command)) of
      None \<Rightarrow> io_raise (CommandExecutionError CE_EXECUTABLE_UNAVAILABLE)
    | Some t \<Rightarrow>
        io_bind (sb_supports (lx_sandbox x) (rq_network_policy (au_request command))) (\<lambda>supported.
        if \<not> supported then io_raise (CommandExecutionError CE_POLICY_DENIED)
        else io_bind (verify_executable t) (\<lambda>_.
          translating_workspace (execution_lease (lx_workspace x) (rq_workspace (au_request command))
            (run_leased x t (au_request command))))))"

end
