(* ===== verification/SandboxProperties.thy ===== *)
theory SandboxProperties
  imports SandboxLiveness HostExamples
begin

text \<open>
  The properties of the Linux sandbox, with a run of a command on the example host as witness.
\<close>

section \<open>A run on the example host\<close>

definition ex_bubblewrap :: pinned_file where
  "ex_bubblewrap = \<lparr>pin_path = pure_posix_path (lit ''/usr/bwrap''), pin_sha256 = sha256_digest [1]\<rparr>"

definition ex_invocation :: sandbox_invocation where
  "ex_invocation = \<lparr>si_executable = pure_posix_path (lit ''/usr/python''), si_arguments = [lit ''-m''],
     si_workspace_root = pure_posix_path (lit ''/work/a''), si_working_directory = pure_posix_path (lit ''/work/a/lib''),
     si_environment = [], si_network_policy = DENY_ALL, si_limits = ex_limits\<rparr>"

lemmas sandbox_defs = sandbox_execute_def supports_def verify_bubblewrap_def verify_pin_def pin_changed_def file_sha256_def
  run_probe_def run_child_def supervise_def capture_output_def enter_capture_def capture_round_def keep_chunk_def
  captured_def ceiling_of_def READ_CHUNK_BYTES_def PROBE_TIMEOUT_SECONDS_def

lemma ex_sandbox_run:
  "\<exists>started n. sandbox_execute ex_bubblewrap host_root ex_invocation
      (ex_world 200 (ex_cloned (lit ''a'') @ ex_files) [] [] r i) =
    Some (Inr \<lparr>sr_termination = EXITED, sr_exit_code = Some 0, sr_stdout = [111, 107], sr_stderr = [],
        sr_started_at = ex_now, sr_finished_at = ex_now\<rparr>,
      ex_world n (ex_cloned (lit ''a'') @ ex_files) started [] r i)"
  by (simp add: ex_run_defs fs_defs sandbox_defs build_command_def base_command_def ex_bubblewrap_def ex_invocation_def
      host_root_def SANDBOX_EXECUTABLE_def SANDBOX_WORKSPACE_def ex_limits_def monotonic_def utc_now_def io_loop.simps
      ex_child_calls ex_output_def ex_fs ex_drift_numeral ex_world_eq cong: run_lazy)

section \<open>Properties\<close>

text \<open>C28. Whatever the child, the clock and other processes do, an execution that returns a result
  has kept both captures within the ceilings, gives an exit code just for a normal exit and
  never reports a cancellation; it has started the probe and the one command built from the
  invocation and nothing else, and every child it started has been seen to exit.\<close>

theorem sandbox_result_bounded:
  assumes "wf_limits (si_limits i)" and "sandbox_execute b cwd i h = Some (Inr res, h')"
  shows "int (length (sr_stdout res)) \<le> stdout_max_bytes (si_limits i) \<and>
    int (length (sr_stderr res)) \<le> stderr_max_bytes (si_limits i) \<and>
    (sr_exit_code res \<noteq> None \<longleftrightarrow> sr_termination res = EXITED) \<and> sr_termination res \<noteq> CANCELLED \<and>
    hs_started h' = hs_started h @ [probe_of b cwd, command_of b i] \<and> set (hs_unseen h') \<subseteq> set (hs_unseen h)"
  using wlpD [OF sandbox_execute_bounds [OF assms(1)] assms(2)]
  by (auto simp: execution_ok_def result_ok_def within_ceilings_def forced_def)

theorem sandbox_result_bounded_witness:
  "map_option (\<lambda>(r, h). (map_sum (\<lambda>_. ()) (\<lambda>res. (sr_stdout res, sr_exit_code res)) r, hs_started h))
      (sandbox_execute ex_bubblewrap host_root ex_invocation
        (ex_world 200 (ex_cloned (lit ''a'') @ ex_files) [] [] (\<lambda>_. None) (\<lambda>_. None))) =
    Some (Inr ([111, 107], Some 0), [probe_of ex_bubblewrap host_root, command_of ex_bubblewrap ex_invocation])"
proof -
  have "wf_limits (si_limits ex_invocation)"
    by (simp add: ex_invocation_def ex_limits_def wf_limits_def)
  from sandbox_result_bounded [OF this] ex_sandbox_run [of "\<lambda>_. None" "\<lambda>_. None"] show ?thesis
    by (fastforce simp del: lit_simps)
qed

text \<open>C29. An execution comes to an end on every cooperative host: the clock passes any deadline and
  a child that is waited for exits. Neither the amount of output nor failing calls nor changes
  of the file system can keep it from returning or raising.\<close>

theorem sandbox_execution_ends:
  assumes "cooperative h"
  shows "\<exists>r h'. sandbox_execute b cwd i h = Some (r, h')"
  using sandbox_execute_ends [OF assms] by (auto simp: ends_def)

theorem sandbox_execution_ends_witness:
  "\<exists>r h'. sandbox_execute ex_bubblewrap host_root ex_invocation
     ((ex_world 200 ex_files [] [] (\<lambda>_. None) (\<lambda>_. None))\<lparr>hs_clock := of_nat\<rparr>) = Some (r, h')"
proof (rule sandbox_execution_ends)
  have "\<exists>N. \<forall>n \<ge> N. d \<le> of_nat n" for d :: rat
    using real_arch_simple [of d] order_trans by (meson of_nat_le_iff)
  then show "cooperative ((ex_world 200 ex_files [] [] (\<lambda>_. None) (\<lambda>_. None))\<lparr>hs_clock := of_nat\<rparr>)"
    by (simp add: cooperative_def passes_def ex_world_def ex_child_def)
qed

text \<open>C30. The timeout of a command does not bound the wait for it: a child that closes both of its
  output streams in time and goes on running keeps the caller waiting for ever, whatever the
  timeout, since the capture ends as a normal exit and the wait that follows has no deadline.\<close>

theorem closed_streams_defeat_timeout:
  assumes "\<forall>n. hs_event h n = Calm" and "\<forall>s. pr_piped p s" and "\<forall>n. pr_ready p n = [STDOUT, STDERR]"
    and "\<forall>n s. pr_read p n s = Chunk []" and "\<forall>n. pr_wait p n = None"
    and "hs_clock h (hs_tick h + 3) < hs_clock h (hs_tick h) + of_int (timeout_ms (si_limits i)) / 1000"
  shows "run_child b i started_at p h = None"
proof -
  let ?h = "after (found_fs h) h"
  let ?d = "hs_clock h (hs_tick h) + of_int (timeout_ms (si_limits i)) / 1000"
  have "supervise p (si_limits i) ?d ?h = None"
    by (rule supervise_closed_streams) (use assms in \<open>simp_all add: eval_nat_numeral\<close>)
  then show ?thesis
    by (simp add: run_child_def io_bind_def monotonic_def observe_def io_finally_def io_except_def)
qed

definition ex_silent :: process where
  "ex_silent = \<lparr>pr_pid = 0, pr_piped = (\<lambda>_. True), pr_ready = (\<lambda>_. [STDOUT, STDERR]),
     pr_read = (\<lambda>_ _. Chunk []), pr_poll = (\<lambda>_. None), pr_wait = (\<lambda>_. None), pr_wait_for = (\<lambda>_. None)\<rparr>"

theorem closed_streams_defeat_timeout_witness:
  "run_child ex_bubblewrap ex_invocation ex_now ex_silent
     ((ex_world 200 ex_files [] [] (\<lambda>_. None) (\<lambda>_. None))\<lparr>hs_event := \<lambda>_. Calm\<rparr>) = None"
  by (rule closed_streams_defeat_timeout)
    (simp_all add: ex_silent_def ex_world_def ex_invocation_def ex_limits_def)

text \<open>C31. The command line loses nothing and confuses nothing: two invocations with the same
  command line have the same arguments and environment, the same executable and workspace on
  the host, and a working directory outside the workspace is an isolation failure.\<close>

theorem command_line_exact:
  "(build_command b i = Inl e \<longleftrightarrow> e = SandboxError SB_ISOLATION_FAILURE \<and>
      \<not> is_relative_to (si_working_directory i) (si_workspace_root i)) \<and>
   (build_command b i = Inr cmd \<and> build_command b j = Inr cmd \<longrightarrow>
      si_arguments i = si_arguments j \<and> si_environment i = si_environment j \<and>
      as_posix (si_executable i) = as_posix (si_executable j) \<and>
      as_posix (si_workspace_root i) = as_posix (si_workspace_root j))"
  using build_command_Inl build_command_inject by blast

theorem command_line_exact_witness:
  "build_command ex_bubblewrap (ex_invocation\<lparr>si_working_directory := host_root\<rparr>) = Inl (SandboxError SB_ISOLATION_FAILURE) \<and>
   build_command ex_bubblewrap ex_invocation \<noteq> build_command ex_bubblewrap (ex_invocation\<lparr>si_arguments := []\<rparr>)"
proof -
  have inside: "is_relative_to (si_working_directory ex_invocation) (si_workspace_root ex_invocation)"
    and outside: "\<not> is_relative_to host_root (si_workspace_root ex_invocation)"
    by (simp_all add: ex_invocation_def host_root_def fs_defs)
  then obtain cmd where "build_command ex_bubblewrap ex_invocation = Inr cmd"
    using command_line_exact [of ex_bubblewrap ex_invocation] by (cases "build_command ex_bubblewrap ex_invocation") auto
  then have "build_command ex_bubblewrap ex_invocation \<noteq> build_command ex_bubblewrap (ex_invocation\<lparr>si_arguments := []\<rparr>)"
    using command_line_exact [of ex_bubblewrap ex_invocation _ cmd "ex_invocation\<lparr>si_arguments := []\<rparr>"]
    by (auto simp: ex_invocation_def)
  with outside show ?thesis
    using command_line_exact [of ex_bubblewrap "ex_invocation\<lparr>si_working_directory := host_root\<rparr>"] by simp
qed

end
