(* ===== verification/ExecutorProperties.thy ===== *)
theory ExecutorProperties
  imports WorkspaceProperties CommandExecutor SandboxProperties
begin

text \<open>
  What the command executor starts on behalf of a command, over every host and every sandbox
  backend that keeps the contract \<open>process_sandbox\<close>, and that the sandbox of
  \<open>linux_process_sandbox.py\<close> keeps it.
\<close>

section \<open>Processes\<close>

text \<open>
  The processes started since \<open>h\<close>: the given ones, preceded and followed only by processes of the
  kind \<open>look\<close>.
\<close>

definition started_run :: "(popen \<Rightarrow> bool) \<Rightarrow> 'h process_host_scheme \<Rightarrow> popen list \<Rightarrow> 'h process_host_scheme \<Rightarrow> bool" where
  "started_run look h run h' \<longleftrightarrow> (\<exists>pre post. hs_started h' = hs_started h @ pre @ run @ post \<and> list_all look pre \<and> list_all look post)"

lemma started_run_refl [simp]: "started_run look h [] h"
  unfolding started_run_def by (intro exI [of _ "[]"]) simp

lemma stable_started_run: "stable (started_run look h run)"
  by (auto simp: stable_def started_run_def after_def seen_exit_def)

lemma started_run_more:
  "started_run look h run h' \<Longrightarrow> hs_started h'' = hs_started h' @ qs \<Longrightarrow> list_all look qs \<Longrightarrow> started_run look h run h''"
  unfolding started_run_def by (metis append_assoc list_all_append)

lemma started_run_none:
  "started_run look h [] h' \<Longrightarrow> hs_started h'' = hs_started h' @ qs @ run \<Longrightarrow> list_all look qs \<Longrightarrow> started_run look h run h''"
  unfolding started_run_def by (metis append.right_neutral append_Nil append_assoc list_all_append list.pred_inject(1))

lemma records_after [simp]: "wh_records (after f h) = wh_records h" "wh_run_index (after f h) = wh_run_index h"
  by (simp_all add: after_def)

lemma framed_started_run:
  "(\<And>q. git_child g q \<Longrightarrow> look q) \<Longrightarrow> framed g (started_run look h run)"
  using stable_started_run
  by (fastforce simp: framed_def wlp_def spawn_def intro: started_run_more)

section \<open>What an execution may start\<close>

definition authorized_invocation :: "'h local_command_executor \<Rightarrow> authorized_command \<Rightarrow>
    'h workspace_host_ext git_host_ext process_host_scheme \<Rightarrow> sandbox_invocation \<Rightarrow> bool" where
  "authorized_invocation x a h i \<longleftrightarrow> authorize_command (au_request a) (au_policy a) = Inr a \<and>
     (\<exists>t r d. lx_executables x (rq_executable (au_request a)) = Some t \<and>
       wh_records h (wi_workspace_id (rq_workspace (au_request a))) = Some r \<and> wr_identity r = rq_workspace (au_request a) \<and>
       is_relative_to d (wr_path r) \<and> i = invocation_for t (au_request a) (wr_path r) d)"

definition executed_only :: "'h local_command_executor \<Rightarrow> authorized_command \<Rightarrow> (popen \<Rightarrow> bool) \<Rightarrow> (sandbox_invocation \<Rightarrow> popen) \<Rightarrow>
    'h workspace_host_ext git_host_ext process_host_scheme \<Rightarrow> execution_result res \<Rightarrow>
    'h workspace_host_ext git_host_ext process_host_scheme \<Rightarrow> bool" where
  "executed_only x a look command h r h' \<longleftrightarrow> (\<exists>run. started_run look h run h' \<and>
     (run = [] \<or> (\<exists>i. authorized_invocation x a h i \<and> run = [command i])) \<and>
     (\<forall>res. r = Inr res \<longrightarrow> run \<noteq> [] \<and> new_ExecutionResult res = Inr res \<and> er_request res = au_request a))"

lemma executed_none: "started_run look h [] h' \<Longrightarrow> executed_only x a look command h (Inl e) h'"
  by (auto simp: executed_only_def)

lemma executed_raised:
  "started_run look h [command i] h' \<Longrightarrow> authorized_invocation x a h i \<Longrightarrow> executed_only x a look command h (Inl e) h'"
  by (auto simp: executed_only_def)

lemma trusted_result_Inr:
  "trusted_result rq s = Inr res \<Longrightarrow> new_ExecutionResult res = Inr res \<and> er_request res = rq"
  by (auto simp: trusted_result_def new_ExecutionResult_Inr)

lemma frame_resolve_directory:
  assumes "stable I" and "I h"
  shows "wlp (resolve_working_directory base d) (\<lambda>r h'. I h' \<and> (\<forall>p. r = Inr p \<longrightarrow> is_relative_to p base)) h"
proof -
  have descend: "wlp (descend_parts c parts) (\<lambda>r h'. I h') h'" if "I h'" for c parts h'
    using that
    by (induction parts arbitrary: c h')
      (auto simp: Let_def wlp_if sys_test_def intro!: frame_bind frame_sys assms(1))
  have "wlp (resolve_working_directory base d) (\<lambda>r h'. I h') h"
    unfolding resolve_working_directory_def Let_def resolve_strict_def sys_test_def
    by (intro frame_rules descend frame_handled frame_sys assms)
  moreover have "wlp (resolve_working_directory base d) (\<lambda>r h'. \<forall>p. r = Inr p \<longrightarrow> is_relative_to p base) h"
    unfolding resolve_working_directory_def Let_def
    by (intro wlp_after [where I = "\<lambda>_. True"]) (auto simp: wlp_if)
  ultimately show ?thesis by (rule wlp_conj)
qed

section \<open>Backends\<close>

text \<open>
  The contract of a sandbox backend, for its probe and its command: \<open>supports\<close> starts nothing but
  the probe, and \<open>execute\<close> starts the probe and then the command, the latter once, and both when
  it returns.
\<close>

locale process_sandbox =
  fixes backend :: "'h workspace_host_ext git_host_ext process_host_ext sandbox_backend"
    and probe :: popen and command :: "sandbox_invocation \<Rightarrow> popen"
  assumes supports_starts: "stable I \<Longrightarrow> (\<And>h. I h \<Longrightarrow> wlp (spawn probe) (\<lambda>r h'. I h') h) \<Longrightarrow> I h \<Longrightarrow>
      wlp (sb_supports backend net) (\<lambda>r h'. I h') h"
    and execute_starts: "wf_limits (si_limits i) \<Longrightarrow> wlp (sb_execute backend i) (\<lambda>r h'.
      \<exists>k. hs_started h' = hs_started h @ take k [probe, command i] \<and> (\<forall>s. r = Inr s \<longrightarrow> k = 2)) h"
begin

text \<open>The body of the lease, once the workspace's record has been found.\<close>

lemma run_leased_executes:
  assumes "lx_sandbox x = backend" and "wf_limits (rq_limits (au_request a))" and "look probe"
    and "authorize_command (au_request a) (au_policy a) = Inr a" and "lx_executables x (rq_executable (au_request a)) = Some t"
    and "wh_records h (wi_workspace_id (rq_workspace (au_request a))) = Some r" and "wr_identity r = rq_workspace (au_request a)"
    and "started_run look h [] h1"
  shows "wlp (run_leased x t (au_request a) (wr_path r)) (executed_only x a look command h) h1"
proof -
  let ?Q = "executed_only x a look command h"
  have checked: "wlp (io_bind (verify_executable t) (\<lambda>_. io_lift (trusted_result (au_request a) s))) ?Q h3"
    if "started_run look h [command i] h3" "authorized_invocation x a h i" for i s h3
  proof (rule wlp_after [where I = "started_run look h [command i]"])
    show "wlp (verify_executable t) (\<lambda>r h'. started_run look h [command i] h') h3"
      unfolding verify_executable_def by (rule frame_verify_pin [OF stable_started_run that(1)])
  next
    fix u h' assume "started_run look h [command i] h'"
    then show "wlp (io_lift (trusted_result (au_request a) s)) ?Q h'"
      using that(2) trusted_result_Inr [of "au_request a" s] by (auto simp: executed_only_def)
  qed (auto intro: executed_raised that(2))
  have sandboxed: "wlp (io_bind (translating_sandbox (sb_execute (lx_sandbox x) i)) (\<lambda>s.
      io_bind (verify_executable t) (\<lambda>_. io_lift (trusted_result (au_request a) s)))) ?Q h2"
    if "started_run look h [] h2" and i: "authorized_invocation x a h i" for i h2
  proof -
    have "wf_limits (si_limits i)"
      using i assms(2) by (auto simp: authorized_invocation_def invocation_for_def)
    from execute_starts [OF this, of h2]
    have "wlp (sb_execute backend i) (\<lambda>r h'. started_run look h [] h' \<and> \<not> (\<exists>s. r = Inr s) \<or> started_run look h [command i] h') h2"
    proof (rule wlp_mono)
      fix r :: "sandbox_result res" and h' :: "'h workspace_host_ext git_host_ext process_host_scheme"
      assume "\<exists>k. hs_started h' = hs_started h2 @ take k [probe, command i] \<and> (\<forall>s. r = Inr s \<longrightarrow> k = 2)"
      then obtain k where k: "hs_started h' = hs_started h2 @ take k [probe, command i]" "\<forall>s. r = Inr s \<longrightarrow> k = 2" by blast
      consider "k = 0" | "k = 1" | "k \<ge> 2" by linarith
      then show "started_run look h [] h' \<and> \<not> (\<exists>s. r = Inr s) \<or> started_run look h [command i] h'"
      proof cases
        case 3
        then have "hs_started h' = hs_started h2 @ [probe] @ [command i]" using k(1) by simp
        then show ?thesis using started_run_none [OF that(1), of h' "[probe]"] assms(3) by simp
      qed (use k started_run_more [OF that(1), of h'] assms(3) in auto)
    qed
    then show ?thesis
      unfolding translating_sandbox_def assms(1)
      by (subst wlp_bind, subst wlp_except, elim wlp_mono)
        (auto split: sum.split exn.split intro: executed_none executed_raised that(2) checked)
  qed
  show ?thesis
    unfolding run_leased_def
  proof (subst wlp_bind, rule wlp_mono [OF frame_resolve_directory [OF stable_started_run assms(8)]], elim conjE)
    fix u :: "path res" and h2 assume S: "started_run look h [] h2" and d: "\<forall>p. u = Inr p \<longrightarrow> is_relative_to p (wr_path r)"
    have "wlp (verify_executable t) (\<lambda>r h'. started_run look h [] h') h2"
      unfolding verify_executable_def by (rule frame_verify_pin [OF stable_started_run S])
    then show "case u of Inl e \<Rightarrow> ?Q (Inl e) h2 | Inr directory \<Rightarrow> wlp (io_bind (verify_executable t) (\<lambda>_.
        io_bind (translating_sandbox (sb_execute (lx_sandbox x) (invocation_for t (au_request a) (wr_path r) directory))) (\<lambda>s.
        io_bind (verify_executable t) (\<lambda>_. io_lift (trusted_result (au_request a) s))))) ?Q h2"
      using S d assms(4-7)
      by (auto split: sum.split intro!: executed_none wlp_after [where I = "started_run look h []"] sandboxed
          simp: authorized_invocation_def)
  qed
qed

text \<open>The lease validates the workspace before and after the body.\<close>

lemma executor_executes:
  assumes "lx_sandbox x = backend" and "wf_limits (rq_limits (au_request a))"
    and look: "look probe" "\<And>q. git_child (gw_git (lx_workspace x)) q \<Longrightarrow> look q"
  shows "wlp (executor_execute x a) (executed_only x a look command h) h"
proof (cases "reauthorize a")
  case (Inl e)
  then show ?thesis by (simp add: executor_execute_def wlp_bind executed_none)
next
  case (Inr a')
  then have auth: "authorize_command (au_request a) (au_policy a) = Inr a"
    by (auto simp: reauthorize_def split: sum.splits exn.splits if_splits)
  let ?Q = "executed_only x a look command h" and ?w = "rq_workspace (au_request a)"
  let ?I = "\<lambda>h'. started_run look h [] h' \<and> same_records h h'"
  note F = framed_started_run [OF look(2)]
  have st: "stable ?I"
    using framed_stable [OF framed_same_records] by (intro stable_conj stable_started_run)
  have probed: "wlp (spawn probe) (\<lambda>r h'. ?I h') h'" if "?I h'" for h'
    using that look(1) by (auto simp: wlp_def spawn_def same_records_def intro: started_run_more)
  show ?thesis
  proof (cases "lx_executables x (rq_executable (au_request a))")
    case None
    then show ?thesis using Inr by (simp add: executor_execute_def wlp_bind executed_none)
  next
    case (Some t)
    have leased: "wlp (execution_lease (lx_workspace x) ?w (run_leased x t (au_request a))) ?Q h1" if I: "?I h1" for h1
    proof -
      have valid: "wlp (validate_record (lx_workspace x) r) (\<lambda>u h'. started_run look h run h') h'"
        if "started_run look h run h'" for r run h'
        by (rule frame_validate_record [OF F that])
      have within: "wlp (io_finally (run_leased x t (au_request a) (wr_path r)) (validate_record (lx_workspace x) r)) ?Q h2"
        if S: "started_run look h [] h2" and r: "wh_records h (wi_workspace_id ?w) = Some r" "wr_identity r = ?w" for r h2
        unfolding wlp_finally
      proof (rule wlp_mono [OF run_leased_executes [OF assms(1,2) look(1) auth Some r S]])
        fix u h' assume "?Q u h'"
        then obtain run where run: "started_run look h run h'" "run = [] \<or> (\<exists>i. authorized_invocation x a h i \<and> run = [command i])"
          "\<forall>res. u = Inr res \<longrightarrow> run \<noteq> [] \<and> new_ExecutionResult res = Inr res \<and> er_request res = au_request a"
          unfolding executed_only_def by blast
        show "wlp (validate_record (lx_workspace x) r) (\<lambda>v h''. case v of Inl e \<Rightarrow> ?Q (Inl e) h'' | Inr _ \<Rightarrow> ?Q u h'') h'"
          by (rule wlp_mono [OF valid [OF run(1)]])
            (use run(2,3) in \<open>fastforce simp: executed_only_def split: sum.split\<close>)
      qed
      show ?thesis
      proof (cases "wh_records h (wi_workspace_id ?w)")
        case None
        then show ?thesis using I
          by (auto simp: wlp_def execution_lease_def io_bind_def require_record_def same_records_def ws_error_def io_raise_def
              intro: executed_none)
      next
        case r: (Some r)
        then have found: "require_record ?w h1 = (if wr_identity r \<noteq> ?w then ws_error WS_CONFLICT h1 else io_return r h1)"
          using I by (simp add: require_record_def same_records_def)
        show ?thesis
        proof (cases "wr_identity r = ?w")
          case False
          then show ?thesis using I found
            by (auto simp: wlp_def execution_lease_def io_bind_def ws_error_def io_raise_def intro: executed_none)
        next
          case True
          then have "wlp (execution_lease (lx_workspace x) ?w (run_leased x t (au_request a))) ?Q h1 =
              wlp (io_bind (validate_record (lx_workspace x) r) (\<lambda>_.
                io_finally (run_leased x t (au_request a) (wr_path r)) (validate_record (lx_workspace x) r))) ?Q h1"
            using found by (simp add: wlp_def execution_lease_def io_bind_def [of "require_record ?w"] io_return_def)
          then show ?thesis
            using I True r by (auto intro!: wlp_after [OF valid] within executed_none)
        qed
      qed
    qed
    have translated: "wlp (translating_workspace (execution_lease (lx_workspace x) ?w (run_leased x t (au_request a)))) ?Q h1"
      if "?I h1" for h1
      unfolding translating_workspace_def
      by (subst wlp_except, rule wlp_mono [OF leased [OF that]])
        (auto simp: executed_only_def split: sum.split exn.split)
    have verified: "wlp (io_bind (verify_executable t) (\<lambda>_. translating_workspace
        (execution_lease (lx_workspace x) ?w (run_leased x t (au_request a))))) ?Q h1" if "?I h1" for h1
    proof (rule wlp_after [where I = ?I])
      show "wlp (verify_executable t) (\<lambda>r h'. ?I h') h1"
        unfolding verify_executable_def by (rule frame_verify_pin [OF st that])
    qed (auto intro: translated executed_none)
    have "wlp (io_bind (sb_supports (lx_sandbox x) (rq_network_policy (au_request a))) (\<lambda>supported.
        if \<not> supported then io_raise (CommandExecutionError CE_POLICY_DENIED)
        else io_bind (verify_executable t) (\<lambda>_. translating_workspace
          (execution_lease (lx_workspace x) ?w (run_leased x t (au_request a)))))) ?Q h"
    proof (rule wlp_after [where I = ?I])
      show "wlp (sb_supports (lx_sandbox x) (rq_network_policy (au_request a))) (\<lambda>r h'. ?I h') h"
        unfolding assms(1) by (rule supports_starts [OF st probed]) simp_all
    qed (auto simp: wlp_if intro: verified executed_none)
    then show ?thesis unfolding executor_execute_def Inr Some by (simp add: wlp_bind [of "io_lift r" for r])
  qed
qed

end

section \<open>The sandbox of Linux\<close>

lemma frame_supports_probe:
  assumes "stable I" and "I h" and "\<And>h. I h \<Longrightarrow> wlp (spawn (probe_of b cwd)) (\<lambda>r h'. I h') h"
  shows "wlp (supports b cwd net) (\<lambda>r h'. I h') h"
proof -
  have "wlp (run_probe (probe_of b cwd)) (\<lambda>r h'. I h') h'" if "I h'" for h'
    unfolding run_probe_def kill_def
    by (intro frame_bind [OF assms(3) [OF that]] frame_except frame_wait_for [OF assms(1)])
      (auto intro!: frame_bind frame_sys frame_wait assms(1) split: if_splits)
  then show ?thesis
    unfolding supports_def verify_bubblewrap_def probe_of_def [symmetric]
    by (auto simp: wlp_if assms(2) intro!: frame_bind frame_except frame_verify_pin assms(1) split: if_splits)
qed

interpretation linux: process_sandbox "linux_sandbox b cwd" "probe_of b cwd" "command_of b" for b cwd
proof unfold_locales
  fix I :: "'a workspace_host_ext git_host_ext process_host_scheme \<Rightarrow> bool" and h net
  assume "stable I" and "I h" and "\<And>h. I h \<Longrightarrow> wlp (spawn (probe_of b cwd)) (\<lambda>r h'. I h') h"
  then show "wlp (sb_supports (linux_sandbox b cwd) net) (\<lambda>r h'. I h') h"
    unfolding linux_sandbox_def sandbox_backend.simps by (rule frame_supports_probe)
next
  fix i :: sandbox_invocation and h :: "'a workspace_host_ext git_host_ext process_host_scheme"
  assume "wf_limits (si_limits i)"
  from sandbox_execute_bounds [OF this]
  show "wlp (sb_execute (linux_sandbox b cwd) i) (\<lambda>r h'.
      \<exists>k. hs_started h' = hs_started h @ take k [probe_of b cwd, command_of b i] \<and> (\<forall>s. r = Inr s \<longrightarrow> k = 2)) h"
    unfolding linux_sandbox_def sandbox_backend.simps
  proof (rule wlp_mono)
    fix r :: "sandbox_result res" and h' :: "'a workspace_host_ext git_host_ext process_host_scheme"
    assume "execution_ok b cwd i h r h'"
    then show "\<exists>k. hs_started h' = hs_started h @ take k [probe_of b cwd, command_of b i] \<and> (\<forall>s. r = Inr s \<longrightarrow> k = 2)"
      by (cases r) (auto simp: execution_ok_def intro: exI [of _ 2])
  qed
qed

text \<open>The probe of a sandbox whose bubblewrap has been replaced raises its own error.\<close>

lemma supports_tampered:
  assumes "calm h" and "\<not> pin_intact (hs_fs h) b"
  shows "\<exists>h'. supports b cwd net h = Some (Inl (SandboxError SB_ISOLATION_FAILURE), h')"
proof -
  obtain r h' where r: "pin_changed b h = Some (r, h')" "r \<noteq> Inr False" "\<forall>e. r = Inl e \<longrightarrow> e = OSError"
    using pin_changed_calm [OF assms(1), of b] assms(2) unfolding reads_only_def by blast
  then have "verify_bubblewrap b h = Some (Inl (SandboxError SB_ISOLATION_FAILURE), h')"
    by (cases r) (auto simp: verify_bubblewrap_def verify_pin_def io_except_def io_bind_def io_raise_def on_os_error_def)
  moreover have "net = DENY_ALL" by (cases net) simp
  ultimately show ?thesis by (simp add: supports_def io_bind_def)
qed

section \<open>An execution\<close>

definition ex_command :: authorized_command where
  "ex_command = \<lparr>au_request = ex_request\<lparr>rq_workspace := ex_prepared (lit ''a'') ex_identity,
       rq_working_directory := WorkingDirectory (lit ''lib'')\<rparr>,
     au_policy = ex_policy\<lparr>po_rules := [ex_rule\<lparr>ru_working_directory := WorkingDirectory (lit ''lib'')\<rparr>]\<rparr>,
     au_rule = ex_rule\<lparr>ru_working_directory := WorkingDirectory (lit ''lib'')\<rparr>\<rparr>"

definition ex_python :: trusted_executable where
  "ex_python = \<lparr>te_executable_id = ExecutableId (lit ''python''),
     te_pin = \<lparr>pin_path = pure_posix_path (lit ''/usr/python''), pin_sha256 = sha256_digest [3]\<rparr>\<rparr>"

definition ex_executor :: "unit local_command_executor" where
  "ex_executor = \<lparr>lx_workspace = ex_adapter, lx_executables = [ExecutableId (lit ''python'') \<mapsto> ex_python],
     lx_sandbox = linux_sandbox ex_bubblewrap host_root\<rparr>"

lemma ex_executor_made:
  "new_LocalCommandExecutor ex_adapter [ex_python] (linux_sandbox ex_bubblewrap host_root) = Inr ex_executor"
  by (simp add: new_LocalCommandExecutor_def ex_executor_def ex_python_def)

lemma ex_command_authorized: "authorize_command (au_request ex_command) (au_policy ex_command) = Inr ex_command"
  by (simp add: authorize_command_Inr matching_rule_Inr action_open_def permits_def environment_covered_def limits_within_def
      ex_command_def ex_request_def ex_policy_def ex_rule_def ex_limits_def)

lemma ex_output_argv:
  "ex_output \<lparr>po_argv = a # args, po_cwd = c, po_env = e\<rparr> =
    (if take 1 (drop 2 args) = [lit ''rev-parse''] then replicate 40 98 @ [10]
     else if take 1 (drop 2 args) = [lit ''write-tree''] then replicate 40 99 @ [10]
     else if a = lit ''/usr/bwrap'' then [111, 107] else [])"
  by (simp add: ex_output_def eval_nat_numeral)

definition ex_lease :: "nat \<Rightarrow> popen list \<Rightarrow> workspace_host" where
  "ex_lease n started = ex_world n (ex_cloned (lit ''a'') @ ex_files) started []
     [WorkspaceId (lit ''a'') \<mapsto> ex_record (lit ''a'') ex_identity] [ri_run_id ex_identity \<mapsto> WorkspaceId (lit ''a'')]"

lemmas executor_defs = sandbox_defs build_command_def base_command_def linux_sandbox_def verify_executable_def
  resolve_working_directory_def path_parts_def invocation_for_def trusted_result_def new_ExecutionResult_def
  host_root_def SANDBOX_EXECUTABLE_def SANDBOX_WORKSPACE_def ex_limits_def monotonic_def utc_now_def
  translating_workspace_def translating_sandbox_def execution_lease_def run_leased_def
  ex_bubblewrap_def ex_executor_def ex_python_def ex_command_def ex_request_def

text \<open>The phases: the probe, the pinned file, the validations of the lease, and its body.\<close>

lemma ex_phases:
  "\<exists>started. sb_supports (lx_sandbox ex_executor) DENY_ALL (ex_lease 200 []) = Some (Inr True, ex_lease 207 started)"
  "verify_executable ex_python (ex_lease 207 started) = Some (Inr (), ex_lease 212 started)"
  unfolding ex_lease_def
  by (simp_all add: ex_simps executor_defs ex_child_calls ex_output_argv cong: run_lazy)

lemma ex_validated:
  "\<exists>started'. validate_record ex_adapter (ex_record (lit ''a'') ex_identity) (ex_lease 212 started) = Some (Inr (), ex_lease 261 started')"
  "\<exists>started'. validate_record ex_adapter (ex_record (lit ''a'') ex_identity) (ex_lease 310 started) = Some (Inr (), ex_lease 359 started')"
  unfolding ex_lease_def
  by (simp_all add: ex_simps ex_record_def ex_prepared_def ex_identity_def cong: run_lazy)

definition ex_executed_result :: execution_result where
  "ex_executed_result = \<lparr>er_request = au_request ex_command, er_termination = EXITED, er_exit_code = Some 0,
     er_stdout = [111, 107], er_stderr = [], er_started_at = ex_now, er_finished_at = ex_now\<rparr>"

lemma ex_leased:
  "\<exists>started'. run_leased ex_executor ex_python (au_request ex_command) (wr_path (ex_record (lit ''a'') ex_identity)) (ex_lease 261 started) =
     Some (Inr ex_executed_result, ex_lease 310 started')"
  unfolding ex_lease_def ex_executed_result_def
  by (simp add: ex_simps executor_defs ex_record_def ex_prepared_def ex_identity_def ex_child_calls ex_output_argv cong: run_lazy)

lemma ex_executed:
  "\<exists>started. executor_execute ex_executor ex_command (ex_lease 200 []) = Some (Inr ex_executed_result, ex_lease 359 started)"
proof -
  have auth: "reauthorize ex_command = Inr ex_command" by (simp add: reauthorize_def ex_command_authorized)
  have fields: "rq_executable (au_request ex_command) = ExecutableId (lit ''python'')" "rq_network_policy (au_request ex_command) = DENY_ALL"
    "rq_workspace (au_request ex_command) = ex_prepared (lit ''a'') ex_identity" "lx_workspace ex_executor = ex_adapter"
    by (simp_all add: ex_command_def ex_request_def ex_executor_def)
  have found: "lx_executables ex_executor (ExecutableId (lit ''python'')) = Some ex_python" by (simp add: ex_executor_def)
  have held: "require_record (ex_prepared (lit ''a'') ex_identity) (ex_lease n st) = io_return (ex_record (lit ''a'') ex_identity) (ex_lease n st)" for n st
    by (simp add: require_record_def ex_lease_def ex_prepared_def ex_record_def)
  obtain s1 where s1: "sb_supports (lx_sandbox ex_executor) DENY_ALL (ex_lease 200 []) = Some (Inr True, ex_lease 207 s1)"
    using ex_phases(1) by blast
  obtain s2 where s2: "validate_record ex_adapter (ex_record (lit ''a'') ex_identity) (ex_lease 212 s1) = Some (Inr (), ex_lease 261 s2)"
    using ex_validated(1) by blast
  obtain s3 where s3: "run_leased ex_executor ex_python (au_request ex_command) (wr_path (ex_record (lit ''a'') ex_identity)) (ex_lease 261 s2) =
     Some (Inr ex_executed_result, ex_lease 310 s3)"
    using ex_leased by blast
  obtain s4 where s4: "validate_record ex_adapter (ex_record (lit ''a'') ex_identity) (ex_lease 310 s3) = Some (Inr (), ex_lease 359 s4)"
    using ex_validated(2) by blast
  show ?thesis
    unfolding executor_execute_def auth fields found
    by (intro exI [of _ s4]) (simp add: io_bind_def io_lift_def io_except_def io_finally_def io_return_def s1 ex_phases(2) translating_workspace_def
        execution_lease_def held s2 s3 s4 del: lit_simps)
qed

section \<open>Properties\<close>

text \<open>C35. Whatever happens on the host, an execution starts at most one process besides Git in its
  restricted environment and the sandbox's probe. That process is the sandbox's command line for
  the request: its arguments, environment and limits, the pinned file registered for its
  executable, and the recorded workspace as root with a working directory inside it; and it is started
  only for a command that the policy still authorizes. A result is returned only after that
  process, is one the result type accepts, and is about this very request.\<close>

theorem executor_runs_authorized_only:
  assumes "wf_limits (rq_limits (au_request a))" and "lx_sandbox x = linux_sandbox b cwd"
    and "executor_execute x a h = Some (r, h')"
  shows "\<exists>pre run post. hs_started h' = hs_started h @ pre @ run @ post \<and>
    list_all (\<lambda>q. git_child (gw_git (lx_workspace x)) q \<or> q = probe_of b cwd) (pre @ post) \<and>
    (run = [] \<or> authorize_command (au_request a) (au_policy a) = Inr a \<and>
      (\<exists>t w d. lx_executables x (rq_executable (au_request a)) = Some t \<and>
        wh_records h (wi_workspace_id (rq_workspace (au_request a))) = Some w \<and> wr_identity w = rq_workspace (au_request a) \<and>
        is_relative_to d (wr_path w) \<and> run = [command_of b (invocation_for t (au_request a) (wr_path w) d)])) \<and>
    (\<forall>res. r = Inr res \<longrightarrow> run \<noteq> [] \<and> new_ExecutionResult res = Inr res \<and> er_request res = au_request a)"
proof -
  let ?look = "\<lambda>q. git_child (gw_git (lx_workspace x)) q \<or> q = probe_of b cwd"
  have "executed_only x a ?look (command_of b) h r h'"
    by (rule wlpD [OF linux.executor_executes [OF assms(2,1)] assms(3)]) auto
  then show ?thesis
    unfolding executed_only_def started_run_def authorized_invocation_def list_all_append by blast
qed

theorem executor_runs_authorized_only_witness:
  "\<exists>started. executor_execute ex_executor ex_command (ex_lease 200 []) = Some (Inr ex_executed_result, ex_lease 359 started) \<and>
    (\<exists>t d. command_of ex_bubblewrap (invocation_for t (au_request ex_command) (wr_path (ex_record (lit ''a'') ex_identity)) d) \<in> set started)"
proof -
  obtain started where e: "executor_execute ex_executor ex_command (ex_lease 200 []) = Some (Inr ex_executed_result, ex_lease 359 started)"
    using ex_executed by blast
  have "wf_limits (rq_limits (au_request ex_command))"
    by (simp add: ex_command_def ex_request_def ex_limits_def wf_limits_def)
  moreover have "lx_sandbox ex_executor = linux_sandbox ex_bubblewrap host_root" by (simp add: ex_executor_def)
  moreover have "hs_started (ex_lease n st) = st" for n st by (simp add: ex_lease_def)
  moreover have "wh_records (ex_lease 200 []) (wi_workspace_id (rq_workspace (au_request ex_command))) = Some (ex_record (lit ''a'') ex_identity)"
    by (simp add: ex_lease_def ex_command_def ex_prepared_def)
  ultimately show ?thesis
    using executor_runs_authorized_only [of ex_command ex_executor ex_bubblewrap host_root, OF _ _ e] e by fastforce
qed

text \<open>C36. The executor's errors are not all of its port's type: when the bubblewrap executable is no
  longer the pinned one, the probe raises the backend's own \<open>SandboxError\<close> before the executor has
  started to translate the errors of the backend, and it reaches the caller as it is.\<close>

theorem tampered_sandbox_escapes:
  assumes "calm h" and "\<not> pin_intact (hs_fs h) b" and "lx_sandbox x = linux_sandbox b cwd"
    and "authorize_command (au_request a) (au_policy a) = Inr a" and "lx_executables x (rq_executable (au_request a)) \<noteq> None"
  shows "\<exists>h'. executor_execute x a h = Some (Inl (SandboxError SB_ISOLATION_FAILURE), h')"
proof -
  have "reauthorize a = Inr a" using assms(4) by (simp add: reauthorize_def)
  moreover obtain t where "lx_executables x (rq_executable (au_request a)) = Some t" using assms(5) by blast
  moreover obtain h' where "supports b cwd (rq_network_policy (au_request a)) h = Some (Inl (SandboxError SB_ISOLATION_FAILURE), h')"
    using supports_tampered [OF assms(1,2)] by blast
  ultimately show ?thesis
    using assms(3) by (simp add: executor_execute_def io_bind_def io_lift_def linux_sandbox_def)
qed

theorem tampered_sandbox_escapes_witness:
  "\<exists>h'. executor_execute ex_executor ex_command (ex_world 200 [] [] [] (\<lambda>_. None) (\<lambda>_. None)) =
    Some (Inl (SandboxError SB_ISOLATION_FAILURE), h')"
proof (rule tampered_sandbox_escapes [where b = ex_bubblewrap and cwd = host_root])
  show "calm (ex_world 200 [] [] [] (\<lambda>_. None) (\<lambda>_. None))" by (simp add: calm_def ex_events_def)
  show "\<not> pin_intact (hs_fs (ex_world 200 [] [] [] (\<lambda>_. None) (\<lambda>_. None))) ex_bubblewrap"
    by (simp add: pin_intact_def ex_bubblewrap_def node_at_def fs_defs)
qed (simp_all add: ex_command_authorized, simp_all add: ex_executor_def ex_command_def ex_request_def)

end
