(* ===== verification/EvidenceSerialization.thy ===== *)
theory EvidenceSerialization
  imports PyFloat Sha256 Command
begin

text \<open>
  \<open>adapters/local/evidence_serialization.py\<close>: deterministic JSON and digests of evidence. The
  values come from the dataclasses of the schemas package, which store whatever they are given,
  so here the \<open>isinstance\<close> guards are branches: \<open>obj\<close> is a dynamically typed value, with the
  instances of those dataclasses, by the attributes the source reads, among its constructors. A
  float is the text \<open>float.__repr__\<close> gives it, or \<open>None\<close> when it is not finite; a dictionary is its
  items, with distinct keys. \<open>datetime.fromisoformat\<close>, whose grammar differs between the versions
  of the interpreter the package admits, is the parameter \<open>fromiso\<close>: whether a text is a timestamp,
  and with a time zone.
\<close>

datatype obj =
    PNone
  | PBool bool
  | PInt int
  | PFloat "str option"
  | PStr str
  | PTuple "obj list"
  | PDict "(obj \<times> obj) list"
  | PEnvironment (env_python: obj) (env_uv_lock_sha256: obj) (env_tool_versions: obj)
  | PCommandResult (cr_command: obj) (cr_termination: obj) (cr_exit_code: obj) (cr_stdout_sha256: obj)
      (cr_stderr_sha256: obj) (cr_specification_sha256: obj) (cr_duration_s: obj)
  | PTokenUsage (tu_input: obj) (tu_output: obj)
  | PUsage (us_provider: obj) (us_model: obj) (us_tokens: obj) (us_estimated_cost_usd: obj)
  | is_PEvidence: PEvidence (evi_version: obj) (evi_run_id: obj) (evi_contract_id: obj) (evi_baseline_sha: obj) (evi_candidate_sha: obj)
      (evi_environment: obj) (evi_commands: obj) (evi_changed_files: obj) (evi_usage: obj) (evi_started_at: obj)
      (evi_finished_at: obj)
  | PList "obj list"
  | PBytes bytes

section \<open>Patterns\<close>

definition EVIDENCE_SHA256_PATTERN :: "str \<Rightarrow> bool" where
  "EVIDENCE_SHA256_PATTERN = match_hex 64"

definition OBJECT_ID_PATTERN :: "str \<Rightarrow> bool" where
  "OBJECT_ID_PATTERN s \<longleftrightarrow> 7 \<le> length s \<and> length s \<le> 40 \<and> list_all is_lower_hex s"

text \<open>\<open>\d\<close> in a text pattern: the decimal digits of Unicode 15, by their zeros.\<close>

definition DIGIT_ZEROS :: "nat list" where
  "DIGIT_ZEROS =
    [0x30, 0x660, 0x6F0, 0x7C0, 0x966, 0x9E6, 0xA66, 0xAE6, 0xB66, 0xBE6, 0xC66, 0xCE6, 0xD66, 0xDE6, 0xE50, 0xED0,
     0xF20, 0x1040, 0x1090, 0x17E0, 0x1810, 0x1946, 0x19D0, 0x1A80, 0x1A90, 0x1B50, 0x1BB0, 0x1C40, 0x1C50, 0xA620,
     0xA8D0, 0xA900, 0xA9D0, 0xA9F0, 0xAA50, 0xABF0, 0xFF10, 0x104A0, 0x10D30, 0x11066, 0x110F0, 0x11136, 0x111D0,
     0x112F0, 0x11450, 0x114D0, 0x11650, 0x116C0, 0x11730, 0x118E0, 0x11950, 0x11C50, 0x11D50, 0x11DA0, 0x11F50,
     0x16A60, 0x16AC0, 0x16B50, 0x1D7CE, 0x1D7D8, 0x1D7E2, 0x1D7EC, 0x1D7F6, 0x1E140, 0x1E2F0, 0x1E4F0, 0x1E950,
     0x1FBF0]"

definition is_unicode_digit :: "nat \<Rightarrow> bool" where
  "is_unicode_digit c \<longleftrightarrow> list_ex (\<lambda>z. z \<le> c \<and> c \<le> z + 9) DIGIT_ZEROS"

definition digits_then :: "(str \<Rightarrow> bool) \<Rightarrow> str \<Rightarrow> bool" where
  "digits_then rest s \<longleftrightarrow> takeWhile is_unicode_digit s \<noteq> [] \<and> rest (dropWhile is_unicode_digit s)"

definition dot_then :: "(str \<Rightarrow> bool) \<Rightarrow> str \<Rightarrow> bool" where
  "dot_then rest s \<longleftrightarrow> (case s of [] \<Rightarrow> False | c # r \<Rightarrow> c = 46 \<and> rest r)"

definition VERSION_PATTERN :: "str \<Rightarrow> bool" where
  "VERSION_PATTERN = digits_then (dot_then (digits_then (dot_then (digits_then (\<lambda>r. r = [])))))"

section \<open>Typed access\<close>

definition ev_fail :: "'a res" where
  "ev_fail = Inl EvidenceSerializationError"

definition ev_text :: "obj \<Rightarrow> str res" where
  "ev_text v = (case v of PStr t \<Rightarrow> Inr t | _ \<Rightarrow> ev_fail)"

definition ev_nonempty_text :: "obj \<Rightarrow> str res" where
  "ev_nonempty_text v = sum_bind (ev_text v) (\<lambda>t. if t = [] then ev_fail else Inr t)"

definition ev_matching_text :: "(str \<Rightarrow> bool) \<Rightarrow> obj \<Rightarrow> str res" where
  "ev_matching_text pattern v = sum_bind (ev_text v) (\<lambda>t. if \<not> pattern t then ev_fail else Inr t)"

definition ev_signed_integer :: "obj \<Rightarrow> int res" where
  "ev_signed_integer v = (case v of PInt i \<Rightarrow> Inr i | _ \<Rightarrow> ev_fail)"

definition ev_integer :: "obj \<Rightarrow> int res" where
  "ev_integer v = sum_bind (ev_signed_integer v) (\<lambda>i. if i < 0 then ev_fail else Inr i)"

text \<open>\<open>math.isfinite\<close> converts an integer to a float, which may overflow; minus zero is not negative.\<close>

definition ev_number :: "obj \<Rightarrow> json res" where
  "ev_number v = (case v of
      PInt i \<Rightarrow> if int_overflows i then Inl OverflowError else if i < 0 then ev_fail else Inr (JInt i)
    | PFloat None \<Rightarrow> ev_fail
    | PFloat (Some t) \<Rightarrow> if take 1 t = [45] \<and> t \<noteq> lit ''-0.0'' then ev_fail else Inr (JFloat (Some t))
    | _ \<Rightarrow> ev_fail)"

definition ev_sequence :: "obj \<Rightarrow> obj list res" where
  "ev_sequence v = (case v of PTuple vs \<Rightarrow> Inr vs | _ \<Rightarrow> ev_fail)"

definition replace_Z :: "str \<Rightarrow> str" where
  "replace_Z t = concat (map (\<lambda>c. if c = 90 then lit ''+00:00'' else [c]) t)"

definition ev_timestamp :: "(str \<Rightarrow> bool option) \<Rightarrow> obj \<Rightarrow> str res" where
  "ev_timestamp fromiso v =
    sum_bind (ev_nonempty_text v) (\<lambda>t. case fromiso (replace_Z t) of
      None \<Rightarrow> ev_fail
    | Some aware \<Rightarrow> if \<not> aware then ev_fail else Inr t)"

definition ev_dump :: "json \<Rightarrow> bytes res" where
  "ev_dump v = catching is_type_or_value_error EvidenceSerializationError (sum_bind (json_dumps v) utf8_encode)"

fun map_res :: "('a \<Rightarrow> 'b res) \<Rightarrow> 'a list \<Rightarrow> 'b list res" where
  "map_res f [] = Inr []"
| "map_res f (x # xs) = sum_bind (f x) (\<lambda>y. sum_bind (map_res f xs) (\<lambda>ys. Inr (y # ys)))"

section \<open>Payloads\<close>

definition command_identity :: "command_request \<Rightarrow> str res" where
  "command_identity rq = json_dumps (JArr (map JStr (executable_id_value (rq_executable rq) # rq_arguments rq)))"

definition environment_payload :: "obj \<Rightarrow> json res" where
  "environment_payload v = (case v of
      PEnvironment python uv_lock_sha256 tool_versions \<Rightarrow>
        (case tool_versions of
          PDict items \<Rightarrow>
            sum_bind (map_res (\<lambda>(key, val). sum_bind (ev_nonempty_text key) (\<lambda>name.
              sum_bind (ev_nonempty_text val) (\<lambda>t. Inr (name, JStr t)))) items) (\<lambda>versions.
            sum_bind (ev_nonempty_text python) (\<lambda>py.
            sum_bind (ev_matching_text EVIDENCE_SHA256_PATTERN uv_lock_sha256) (\<lambda>lock.
              Inr (JObj [(lit ''python'', JStr py), (lit ''tool_versions'', JObj versions),
                (lit ''uv_lock_sha256'', JStr lock)]))))
        | _ \<Rightarrow> ev_fail)
    | _ \<Rightarrow> ev_fail)"

definition TERMINATIONS :: "str list" where
  "TERMINATIONS = map lit [''EXITED'', ''TIMED_OUT'', ''CANCELLED'', ''OUTPUT_LIMIT'']"

definition command_payload :: "obj \<Rightarrow> json res" where
  "command_payload v = (case v of
      PCommandResult command termination exit_code stdout_sha256 stderr_sha256 specification_sha256 duration_s \<Rightarrow>
        sum_bind (ev_text termination) (\<lambda>term_text.
        if term_text \<notin> set TERMINATIONS then ev_fail
        else sum_bind (if term_text = lit ''EXITED'' then sum_bind (ev_signed_integer exit_code) (\<lambda>i. Inr (JInt i))
          else if exit_code \<noteq> PNone then ev_fail else Inr JNull) (\<lambda>code.
        sum_bind (ev_nonempty_text command) (\<lambda>cmd.
        sum_bind (ev_number duration_s) (\<lambda>duration.
        sum_bind (ev_matching_text EVIDENCE_SHA256_PATTERN specification_sha256) (\<lambda>spec_sha.
        sum_bind (ev_matching_text EVIDENCE_SHA256_PATTERN stderr_sha256) (\<lambda>err_sha.
        sum_bind (ev_matching_text EVIDENCE_SHA256_PATTERN stdout_sha256) (\<lambda>out_sha.
          Inr (JObj [(lit ''command'', JStr cmd), (lit ''duration_s'', duration), (lit ''exit_code'', code),
            (lit ''specification_sha256'', JStr spec_sha), (lit ''stderr_sha256'', JStr err_sha),
            (lit ''stdout_sha256'', JStr out_sha), (lit ''termination'', JStr term_text)]))))))))
    | _ \<Rightarrow> ev_fail)"

definition usage_payload :: "obj \<Rightarrow> json res" where
  "usage_payload v = (case v of
      PUsage provider model tokens estimated_cost_usd \<Rightarrow>
        (case tokens of
          PTokenUsage tin tout \<Rightarrow>
            sum_bind (ev_nonempty_text model) (\<lambda>m.
            sum_bind (ev_nonempty_text provider) (\<lambda>p.
            sum_bind (ev_integer tin) (\<lambda>i.
            sum_bind (ev_integer tout) (\<lambda>out.
            let payload = [(lit ''model'', JStr m), (lit ''provider'', JStr p),
              (lit ''tokens'', JObj [(lit ''input'', JInt i), (lit ''output'', JInt out)])] in
            if estimated_cost_usd \<noteq> PNone
            then sum_bind (ev_number estimated_cost_usd) (\<lambda>c. Inr (JObj (payload @ [(lit ''estimated_cost_usd'', c)])))
            else Inr (JObj payload)))))
        | _ \<Rightarrow> ev_fail)
    | _ \<Rightarrow> ev_fail)"

definition evidence_payload :: "(str \<Rightarrow> bool option) \<Rightarrow> obj \<Rightarrow> json res" where
  "evidence_payload fromiso v = (case v of
      PEvidence version run contract baseline candidate environment commands changed_files usage started_at finished_at \<Rightarrow>
        sum_bind (ev_sequence commands) (\<lambda>cmds.
        if cmds = [] then ev_fail
        else sum_bind (ev_sequence changed_files) (\<lambda>files.
        sum_bind (ev_matching_text OBJECT_ID_PATTERN baseline) (\<lambda>base.
        sum_bind (ev_matching_text OBJECT_ID_PATTERN candidate) (\<lambda>cand.
        sum_bind (map_res ev_text files) (\<lambda>names.
        sum_bind (map_res command_payload cmds) (\<lambda>results.
        sum_bind (ev_nonempty_text contract) (\<lambda>cid.
        sum_bind (environment_payload environment) (\<lambda>env.
        sum_bind (ev_timestamp fromiso finished_at) (\<lambda>finished.
        sum_bind (ev_nonempty_text run) (\<lambda>rid.
        sum_bind (ev_timestamp fromiso started_at) (\<lambda>started.
        sum_bind (usage_payload usage) (\<lambda>u.
        sum_bind (ev_matching_text VERSION_PATTERN version) (\<lambda>ver.
          Inr (JObj [(lit ''baseline_sha'', JStr base), (lit ''candidate_sha'', JStr cand),
            (lit ''changed_files'', JArr (map JStr names)), (lit ''commands'', JArr results),
            (lit ''contract_id'', JStr cid), (lit ''environment'', env), (lit ''finished_at'', JStr finished),
            (lit ''run_id'', JStr rid), (lit ''started_at'', JStr started), (lit ''usage'', u),
            (lit ''version'', JStr ver)]))))))))))))))
    | _ \<Rightarrow> ev_fail)"

section \<open>Operations\<close>

definition sha256_bytes :: "bytes \<Rightarrow> str" where
  "sha256_bytes = sha256_hexdigest"

definition serialize_environment :: "obj \<Rightarrow> bytes res" where
  "serialize_environment v = (case v of PEnvironment _ _ _ \<Rightarrow> sum_bind (environment_payload v) ev_dump | _ \<Rightarrow> Inl TypeError)"

definition serialize_command_result :: "obj \<Rightarrow> bytes res" where
  "serialize_command_result v =
    (case v of PCommandResult _ _ _ _ _ _ _ \<Rightarrow> sum_bind (command_payload v) ev_dump | _ \<Rightarrow> Inl TypeError)"

definition serialize_evidence :: "(str \<Rightarrow> bool option) \<Rightarrow> obj \<Rightarrow> bytes res" where
  "serialize_evidence fromiso v =
    (case v of PEvidence _ _ _ _ _ _ _ _ _ _ _ \<Rightarrow> sum_bind (evidence_payload fromiso v) ev_dump | _ \<Rightarrow> Inl TypeError)"

definition hash_environment :: "obj \<Rightarrow> str res" where
  "hash_environment v = sum_bind (serialize_environment v) (\<lambda>b. Inr (sha256_bytes b))"

definition hash_command_result :: "obj \<Rightarrow> str res" where
  "hash_command_result v = sum_bind (serialize_command_result v) (\<lambda>b. Inr (sha256_bytes b))"

definition hash_evidence :: "(str \<Rightarrow> bool option) \<Rightarrow> obj \<Rightarrow> str res" where
  "hash_evidence fromiso v = sum_bind (serialize_evidence fromiso v) (\<lambda>b. Inr (sha256_bytes b))"

fun CANONICAL_TERMINATION :: "execution_termination \<Rightarrow> str" where
  "CANONICAL_TERMINATION EXITED = lit ''EXITED''"
| "CANONICAL_TERMINATION TIMED_OUT = lit ''TIMED_OUT''"
| "CANONICAL_TERMINATION CANCELLED = lit ''CANCELLED''"
| "CANONICAL_TERMINATION OUTPUT_LIMIT = lit ''OUTPUT_LIMIT''"

text \<open>The seconds between two instants: whole seconds plus the float of the microseconds.\<close>

definition duration_float :: "datetime \<Rightarrow> datetime \<Rightarrow> pyfloat" where
  "duration_float started finished =
    (let micros = dt_micros finished - dt_micros started in
     float_add_int (micros div 1000000) (int_truediv (micros mod 1000000) 1000000))"

definition build_command_result :: "execution_result \<Rightarrow> bytes \<Rightarrow> obj res" where
  "build_command_result execution specification_bytes =
    (if specification_bytes = [] then ev_fail
     else sum_bind (command_identity (er_request execution)) (\<lambda>command.
       let result = PCommandResult (PStr command) (PStr (CANONICAL_TERMINATION (er_termination execution)))
           (case er_exit_code execution of None \<Rightarrow> PNone | Some i \<Rightarrow> PInt i)
           (PStr (sha256_bytes (er_stdout execution))) (PStr (sha256_bytes (er_stderr execution)))
           (PStr (sha256_bytes specification_bytes))
           (PFloat (Some (float_repr (duration_float (er_started_at execution) (er_finished_at execution))))) in
       sum_bind (serialize_command_result result) (\<lambda>_. Inr result)))"

end
