(* ===== verification/EvidenceCodec.thy ===== *)
theory EvidenceCodec
  imports EvidenceSerialization StateCodec
begin

text \<open>
  Which exceptions leave the evidence serializer, when it returns bytes, and what the bytes
  determine.
\<close>

section \<open>Exceptions\<close>

text \<open>A computation that raises nothing but the typed error and the given others.\<close>

definition ev_typed :: "exn set \<Rightarrow> 'a res \<Rightarrow> bool" where
  "ev_typed S m \<longleftrightarrow> (\<forall>e. m = Inl e \<longrightarrow> e = EvidenceSerializationError \<or> e \<in> S)"

lemma ev_typed_simps [simp]: "ev_typed S ev_fail" "ev_typed S (Inr x)" "ev_typed S (Inl e) \<longleftrightarrow> e = EvidenceSerializationError \<or> e \<in> S"
  by (simp_all add: ev_typed_def ev_fail_def)

lemma ev_typed_bind: "ev_typed S m \<Longrightarrow> (\<And>x. ev_typed S (f x)) \<Longrightarrow> ev_typed S (sum_bind m f)"
  by (cases m) (simp_all add: ev_typed_def)

lemma ev_typed_if: "ev_typed S m \<Longrightarrow> ev_typed S n \<Longrightarrow> ev_typed S (if b then m else n)"
  by simp

lemma ev_typed_map: "(\<And>x. x \<in> set xs \<Longrightarrow> ev_typed S (f x)) \<Longrightarrow> ev_typed S (map_res f xs)"
  by (induction xs) (simp_all add: ev_typed_bind)

lemmas ev_typed_rules = ev_typed_bind ev_typed_if

lemma ev_typed_access [simp]:
  "ev_typed S (ev_text v)" "ev_typed S (ev_nonempty_text v)" "ev_typed S (ev_matching_text p v)" "ev_typed S (ev_signed_integer v)"
  "ev_typed S (ev_integer v)" "ev_typed S (ev_sequence v)" "ev_typed S (ev_timestamp fromiso v)"
proof -
  show texts: "ev_typed S (ev_text v)" for v by (simp add: ev_text_def split: obj.split)
  then show nonempty: "ev_typed S (ev_nonempty_text v)" for v
    unfolding ev_nonempty_text_def by (intro ev_typed_rules) simp_all
  show "ev_typed S (ev_matching_text p v)" unfolding ev_matching_text_def by (intro ev_typed_rules texts) simp_all
  show "ev_typed S (ev_signed_integer v)" for v by (simp add: ev_signed_integer_def split: obj.split)
  then show "ev_typed S (ev_integer v)" unfolding ev_integer_def by (intro ev_typed_rules) simp_all
  show "ev_typed S (ev_sequence v)" by (simp add: ev_sequence_def split: obj.split)
  show "ev_typed S (ev_timestamp fromiso v)"
    unfolding ev_timestamp_def by (intro ev_typed_bind nonempty) (simp split: option.split)
qed

lemma utf8_encode_error: "utf8_encode s = Inl e \<Longrightarrow> e = UnicodeEncodeError"
  by (induction s) (auto split: option.splits simp: sum_bind_eq_Inl)

lemma ev_typed_dump [simp]: "ev_typed S (ev_dump j)"
  by (auto simp: ev_dump_def ev_typed_def json_dumps_def is_type_or_value_error_def catching_def
      dest: utf8_encode_error split: sum.splits if_splits)

lemma environment_payload_typed [simp]: "ev_typed S (environment_payload v)"
proof -
  have item: "ev_typed S (case kv of (key, val) \<Rightarrow> sum_bind (ev_nonempty_text key) (\<lambda>name.
      sum_bind (ev_nonempty_text val) (\<lambda>t. Inr (name, JStr t))))" for kv
    by (cases kv) (simp add: ev_typed_bind)
  show ?thesis
    by (auto simp: environment_payload_def split: obj.split intro!: ev_typed_bind ev_typed_map item)
qed

text \<open>Where a number is not an integer too large for a float.\<close>

definition number_fits :: "obj \<Rightarrow> bool" where
  "number_fits v \<longleftrightarrow> (\<forall>i. v = PInt i \<longrightarrow> \<not> int_overflows i)"

lemma ev_typed_number: "number_fits v \<or> OverflowError \<in> S \<Longrightarrow> ev_typed S (ev_number v)"
  by (auto simp: ev_number_def number_fits_def split: obj.split option.split)

definition durations_fit :: "obj \<Rightarrow> bool" where
  "durations_fit v \<longleftrightarrow> (case v of PCommandResult _ _ _ _ _ _ d \<Rightarrow> number_fits d | _ \<Rightarrow> True)"

definition cost_fits :: "obj \<Rightarrow> bool" where
  "cost_fits v \<longleftrightarrow> (case v of PUsage _ _ _ c \<Rightarrow> number_fits c | _ \<Rightarrow> True)"

lemma command_payload_typed:
  assumes "durations_fit v \<or> OverflowError \<in> S"
  shows "ev_typed S (command_payload v)"
proof (cases v)
  case (PCommandResult c t x a b s d)
  then have "ev_typed S (ev_number d)" using assms by (intro ev_typed_number) (simp add: durations_fit_def)
  then show ?thesis
    unfolding PCommandResult command_payload_def obj.case by (intro ev_typed_rules) simp_all
qed (simp_all add: command_payload_def)

lemma usage_payload_typed:
  assumes "cost_fits v \<or> OverflowError \<in> S"
  shows "ev_typed S (usage_payload v)"
proof (cases v)
  case (PUsage p m t c)
  then have "ev_typed S (ev_number c)" using assms by (intro ev_typed_number) (simp add: cost_fits_def)
  then show ?thesis
    unfolding PUsage usage_payload_def obj.case Let_def
    by (cases t) (simp_all, intro ev_typed_rules, simp_all)
qed (simp_all add: usage_payload_def)

lemma evidence_payload_typed:
  assumes "\<And>cmds c. evi_commands v = PTuple cmds \<Longrightarrow> c \<in> set cmds \<Longrightarrow> durations_fit c \<or> OverflowError \<in> S"
    and "cost_fits (evi_usage v) \<or> OverflowError \<in> S"
  shows "ev_typed S (evidence_payload fromiso v)"
proof (cases v)
  case (PEvidence version run contract baseline candidate environment commands changed usage started finished)
  have results: "ev_typed S (command_payload c)" if "commands = PTuple cmds" "c \<in> set cmds" for cmds c
    using assms(1) that PEvidence by (intro command_payload_typed) simp
  have u: "ev_typed S (usage_payload usage)" using usage_payload_typed [OF assms(2)] PEvidence by simp
  show ?thesis
  proof (cases "ev_sequence commands")
    case (Inr cmds)
    then have "commands = PTuple cmds" by (simp add: ev_sequence_def ev_fail_def split: obj.splits)
    then show ?thesis
      unfolding PEvidence evidence_payload_def obj.case Inr sum_bind_simps
      by (intro ev_typed_rules ev_typed_map) (simp_all add: results u)
  next
    case (Inl e)
    then show ?thesis
      using ev_typed_access(6) [of S commands] unfolding PEvidence evidence_payload_def obj.case by (simp add: Inl)
  qed
qed (simp_all add: evidence_payload_def)

section \<open>The text of a float\<close>

lemma zpad_ascii: "list_all (\<lambda>c. c < 128) (zpad w n)"
  using dec_digits_all [of n] by (auto simp: zpad_def list_all_iff is_digit_def)

lemma strip_zeros_digits: "list_all is_digit ds \<Longrightarrow> list_all is_digit (strip_zeros ds)"
  by (auto simp: strip_zeros_def list_all_iff dest: set_dropWhileD)

lemma format_digits_text:
  assumes "list_all is_digit ds"
  shows "list_all (\<lambda>c. c < 128) (format_digits ds p)" "take 1 (format_digits ds p) \<noteq> [45]"
proof -
  have ds: "list_all (\<lambda>c. c < 128 \<and> c \<noteq> 45) ds" using assms by (auto simp: list_all_iff is_digit_def)
  then have parts: "list_all (\<lambda>c. c < 128) (take n ds)" "list_all (\<lambda>c. c < 128) (drop n ds)" "list_all (\<lambda>c. c < 128) ds" for n
    by (auto simp: list_all_iff dest: in_set_takeD in_set_dropD)
  show "list_all (\<lambda>c. c < 128) (format_digits ds p)"
    using zpad_ascii parts by (auto simp: format_digits_def list_all_iff)
  show "take 1 (format_digits ds p) \<noteq> [45]"
    using ds by (cases ds) (auto simp: format_digits_def take_Cons split: nat.split)
qed

lemma float_repr_text: "list_all (\<lambda>c. c < 128) (float_repr x)" "take 1 (float_repr x) \<noteq> [45]"
  using format_digits_text [OF strip_zeros_digits [OF dec_digits_all]]
  by (auto simp: float_repr_def Let_def split: prod.split)

section \<open>Serialized values\<close>

lemma ev_dump_Inr: "ev_dump j = Inr b \<longleftrightarrow> dumpable j \<and> utf8_encode (json_text j) = Inr b"
  by (auto simp: ev_dump_def json_dumps_def)

lemma ev_dump_total: "(\<exists>b. ev_dump j = Inr b) \<longleftrightarrow> dumpable j \<and> encodable_json j"
  by (simp add: ev_dump_Inr encodable_json_text flip: encodable_iff)

lemma ev_dump_cases: "ev_dump j = (if dumpable j \<and> encodable_json j then Inr (projr (ev_dump j)) else ev_fail)"
  using ev_dump_total [of j] ev_typed_dump [of "{}" j] by (cases "ev_dump j") (auto simp: ev_fail_def ev_typed_def)

end
