(* ===== verification/EvidenceProperties.thy ===== *)
theory EvidenceProperties
  imports EvidenceCodec CommandExecution
begin

text \<open>
  The properties of the evidence serializer: what the command result of an execution is and when
  there is one, which exceptions leave the serializer, and what the bytes of an environment
  determine.
\<close>

section \<open>Command results\<close>

definition argv_of :: "execution_result \<Rightarrow> str list" where
  "argv_of er = executable_id_value (rq_executable (er_request er)) # rq_arguments (er_request er)"

lemma json_word_array: "json_dumps (JArr (map JStr ss)) = Inr (json_text (JArr (map JStr ss)))"
  by (simp add: json_dumps_def list_all_iff)

lemma json_word_array_reads:
  assumes "builds_objects rd"
  shows "json_loads rd (json_text (JArr (map JStr ss))) = Inr (JArr (map JStr ss))"
  using json_loads_dumps [OF assms, of "JArr (map JStr ss)"]
  by (simp add: list_all_iff comp_def reader_levels_def guaranteed_levels_def)

lemma encodable_word_array: "encodable (json_text (JArr (map JStr ss))) \<longleftrightarrow> list_all encodable ss"
  by (subst encodable_json_text) (simp add: list_all_iff)

definition command_result_of :: "execution_result \<Rightarrow> bytes \<Rightarrow> obj" where
  "command_result_of er spec = PCommandResult (PStr (json_text (JArr (map JStr (argv_of er)))))
     (PStr (CANONICAL_TERMINATION (er_termination er))) (case er_exit_code er of None \<Rightarrow> PNone | Some i \<Rightarrow> PInt i)
     (PStr (sha256_hexdigest (er_stdout er))) (PStr (sha256_hexdigest (er_stderr er))) (PStr (sha256_hexdigest spec))
     (PFloat (Some (float_repr (duration_float (er_started_at er) (er_finished_at er)))))"

lemma ev_matching_hash [simp]: "ev_matching_text EVIDENCE_SHA256_PATTERN (PStr (sha256_hexdigest b)) = Inr (sha256_hexdigest b)"
  using sha256_format by (simp add: ev_matching_text_def ev_text_def EVIDENCE_SHA256_PATTERN_def)

lemma ev_duration [simp]: "ev_number (PFloat (Some (float_repr x))) = Inr (JFloat (Some (float_repr x)))"
  using float_repr_text(2) by (simp add: ev_number_def)

lemma termination_names:
  "CANONICAL_TERMINATION t \<in> set TERMINATIONS" "CANONICAL_TERMINATION t = lit ''EXITED'' \<longleftrightarrow> t = EXITED"
  "encodable (CANONICAL_TERMINATION t)"
  by (cases t, simp_all add: TERMINATIONS_def)
    (cases t, simp_all, cases t, simp_all add: is_surrogate_def)

lemma command_result_payload:
  assumes "new_ExecutionResult er = Inr er"
  shows "\<exists>j. command_payload (command_result_of er spec) = Inr j \<and> (dumpable j \<longleftrightarrow> (\<forall>i. er_exit_code er = Some i \<longrightarrow> int_ok i)) \<and>
    (encodable_json j \<longleftrightarrow> list_all encodable (argv_of er))"
proof -
  have exit: "er_termination er = EXITED \<longleftrightarrow> er_exit_code er \<noteq> None"
    using assms by (simp add: new_ExecutionResult_Inr)
  note known = termination_names [of "er_termination er"]
  have hash: "encodable (sha256_hexdigest b)" for b by (rule encodable_hex [OF sha256_format])
  have float: "encodable (float_repr x)" for x by (rule encodable_ascii [OF float_repr_text(1)])
  have ne: "json_text (JArr xs) \<noteq> []" for xs by simp
  show ?thesis
    using exit known hash float ne encodable_word_array [of "argv_of er"]
    by (cases "er_exit_code er")
      (simp_all add: command_payload_def command_result_of_def ev_text_def ev_nonempty_text_def ev_signed_integer_def
        is_surrogate_def del: json_text.simps)
qed

lemma build_command_result_eq:
  assumes "new_ExecutionResult er = Inr er"
  shows "build_command_result er spec =
    (if spec \<noteq> [] \<and> list_all encodable (argv_of er) \<and> (\<forall>i. er_exit_code er = Some i \<longrightarrow> int_ok i)
     then Inr (command_result_of er spec) else Inl EvidenceSerializationError)"
proof -
  obtain j where j: "command_payload (command_result_of er spec) = Inr j"
    "(\<forall>i. er_exit_code er = Some i \<longrightarrow> int_ok i) \<and> list_all encodable (argv_of er) \<longleftrightarrow> dumpable j \<and> encodable_json j"
    using command_result_payload [OF assms, of spec] by blast
  have "serialize_command_result (command_result_of er spec) = ev_dump j"
    using j(1) by (simp add: serialize_command_result_def command_result_of_def)
  then have "sum_bind (serialize_command_result (command_result_of er spec)) (\<lambda>_. Inr (command_result_of er spec)) =
      (if dumpable j \<and> encodable_json j then Inr (command_result_of er spec) else Inl EvidenceSerializationError)"
    by (subst (asm) ev_dump_cases) (simp add: ev_fail_def)
  moreover have "command_identity (er_request er) = Inr (json_text (JArr (map JStr (argv_of er))))"
    unfolding command_identity_def argv_of_def [symmetric] by (rule json_word_array)
  ultimately show ?thesis
    using j(2) by (auto simp: build_command_result_def ev_fail_def sha256_bytes_def command_result_of_def [symmetric] Let_def
        simp del: json_text.simps)
qed

section \<open>Environments\<close>

definition version_items :: "(str \<times> str) list \<Rightarrow> (obj \<times> obj) list" where
  "version_items vs = map (\<lambda>(k, t). (PStr k, PStr t)) vs"

definition environment_json :: "str \<Rightarrow> str \<Rightarrow> (str \<times> str) list \<Rightarrow> json" where
  "environment_json p l vs = JObj [(lit ''python'', JStr p), (lit ''tool_versions'', JObj (map (\<lambda>(k, t). (k, JStr t)) vs)),
     (lit ''uv_lock_sha256'', JStr l)]"

lemma map_res_versions:
  "map_res (\<lambda>(key, val). sum_bind (ev_nonempty_text key) (\<lambda>name. sum_bind (ev_nonempty_text val) (\<lambda>t. Inr (name, JStr t)))) items =
     Inr versions \<Longrightarrow> \<exists>vs. items = version_items vs \<and> versions = map (\<lambda>(k, t). (k, JStr t)) vs"
proof (induction items arbitrary: versions)
  case Nil
  then show ?case by (simp add: version_items_def)
next
  case (Cons kv items)
  have texts: "ev_nonempty_text v = Inr t \<Longrightarrow> v = PStr t" for v t
    by (auto simp: ev_nonempty_text_def ev_text_def ev_fail_def split: obj.splits if_splits)
  obtain k v where kv: "kv = (k, v)" by (cases kv)
  with Cons.prems obtain name t rest where
    "ev_nonempty_text k = Inr name" "ev_nonempty_text v = Inr t" "versions = (name, JStr t) # rest"
    "map_res (\<lambda>(key, val). sum_bind (ev_nonempty_text key) (\<lambda>name. sum_bind (ev_nonempty_text val) (\<lambda>t. Inr (name, JStr t)))) items = Inr rest"
    by auto
  moreover from Cons.IH [OF this(4)] obtain vs where "items = version_items vs" "rest = map (\<lambda>(k, t). (k, JStr t)) vs" by blast
  ultimately show ?case using texts kv by (intro exI [of _ "(name, t) # vs"]) (simp add: version_items_def)
qed

lemma serialize_environment_Inr:
  assumes "serialize_environment (PEnvironment py lock (PDict items)) = Inr b"
  obtains p l vs where "py = PStr p" "lock = PStr l" "items = version_items vs"
    "utf8_encode (json_text (environment_json p l vs)) = Inr b"
proof -
  obtain versions p l where
    "map_res (\<lambda>(key, val). sum_bind (ev_nonempty_text key) (\<lambda>name. sum_bind (ev_nonempty_text val) (\<lambda>t. Inr (name, JStr t)))) items = Inr versions"
    and texts: "ev_nonempty_text py = Inr p" "ev_matching_text EVIDENCE_SHA256_PATTERN lock = Inr l"
    and b: "ev_dump (JObj [(lit ''python'', JStr p), (lit ''tool_versions'', JObj versions), (lit ''uv_lock_sha256'', JStr l)]) = Inr b"
    using assms by (auto simp: serialize_environment_def environment_payload_def simp del: lit_simps)
  moreover from map_res_versions [OF this(1)] obtain vs where "items = version_items vs" "versions = map (\<lambda>(k, t). (k, JStr t)) vs"
    by blast
  moreover have "py = PStr p" "lock = PStr l"
    using texts by (auto simp: ev_nonempty_text_def ev_matching_text_def ev_text_def ev_fail_def split: obj.splits if_splits)
  ultimately show ?thesis using that by (simp add: environment_json_def ev_dump_Inr del: lit_simps json_text.simps)
qed

lemma version_items_inject: "version_items vs = version_items ws \<longleftrightarrow> vs = ws"
  unfolding version_items_def by (rule inj_map_eq_map) (auto intro: injI)

lemma distinct_version_items: "distinct (map fst (version_items vs)) \<longleftrightarrow> distinct (map fst vs)"
proof -
  have "map fst (version_items vs) = map PStr (map fst vs)" by (simp add: version_items_def case_prod_beta)
  then show ?thesis by (simp add: distinct_map inj_on_def)
qed

lemma map_of_version_items:
  assumes "distinct (map fst vs)" and "distinct (map fst ws)"
  shows "map_of (version_items vs) = map_of (version_items ws) \<longleftrightarrow> set vs = set ws"
proof -
  have "map_of (version_items vs) = map_of (version_items ws) \<longleftrightarrow> set (version_items vs) = set (version_items ws)"
    using assms by (intro map_of_inject_set) (simp_all add: distinct_version_items)
  also have "\<dots> \<longleftrightarrow> set vs = set ws"
    unfolding version_items_def set_map by (rule inj_image_eq_iff) (auto intro: injI)
  finally show ?thesis .
qed

lemma sort_key_same_set:
  assumes "distinct (map fst xs)" and "distinct (map fst ys)"
  shows "sort_key fst xs = sort_key fst ys \<longleftrightarrow> set xs = set ys"
proof
  assume "set xs = set ys"
  then show "sort_key fst xs = sort_key fst ys"
    using assms by (intro map_sorted_distinct_set_unique [where f = fst]) (simp_all add: distinct_map)
qed (metis set_sort)

lemma environment_json_text:
  assumes "distinct (map fst vs)" and "distinct (map fst ws)"
  shows "json_text (environment_json p l vs) = json_text (environment_json p' l' ws) \<longleftrightarrow> p = p' \<and> l = l' \<and> set vs = set ws"
proof -
  let ?j = "\<lambda>kt. (fst kt, JStr (snd kt))"
  have inj: "inj ?j" by (auto intro!: injI prod_eqI)
  have norm: "json_norm (environment_json p l vs) = JObj [(lit ''python'', JStr p),
      (lit ''tool_versions'', JObj (map ?j (sort_key fst vs))), (lit ''uv_lock_sha256'', JStr l)]" for p l and vs :: "(str \<times> str) list"
    by (simp add: environment_json_def comp_def case_prod_beta sort_key_map_fst [of JStr vs])
  have plain: "plain (environment_json p l vs)" if "distinct (map fst vs)" for p l vs
    using that by (simp add: environment_json_def list_all_iff case_prod_beta comp_def)
  have levels: "json_within (reader_levels rd) (environment_json p l vs)" for rd p l and vs :: "(str \<times> str) list"
    by (simp add: environment_json_def list_all_iff case_prod_beta reader_levels_def guaranteed_levels_def)
  have "json_text (environment_json p l vs) = json_text (environment_json p' l' ws) \<longleftrightarrow>
      json_norm (environment_json p l vs) = json_norm (environment_json p' l' ws)"
    using json_loads_dumps [OF state_reader_builds plain levels] json_text_norm [OF plain] assms by (metis sum.inject(2))
  also have "\<dots> \<longleftrightarrow> p = p' \<and> l = l' \<and> sort_key fst vs = sort_key fst ws"
    unfolding norm by (auto simp: inj_map_eq_map [OF inj])
  finally show ?thesis using sort_key_same_set [OF assms] by simp
qed

section \<open>Examples\<close>

definition ex_command_result :: "int \<Rightarrow> obj" where
  "ex_command_result seconds = PCommandResult (PStr (lit ''pytest'')) (PStr (lit ''EXITED'')) (PInt 0) (PStr (replicate 64 97))
     (PStr (replicate 64 98)) (PStr (replicate 64 99)) (PInt seconds)"

definition ex_environment :: "(str \<times> str) list \<Rightarrow> obj" where
  "ex_environment versions = PEnvironment (PStr (lit ''3.12'')) (PStr (replicate 64 97)) (PDict (version_items versions))"

definition ex_evidence :: "int \<Rightarrow> obj" where
  "ex_evidence seconds = PEvidence (PStr (lit ''1.0.0'')) (PStr (lit ''run'')) (PStr (lit ''contract'')) (PStr (replicate 40 97))
     (PStr (replicate 40 98)) (ex_environment []) (PTuple [ex_command_result seconds]) (PTuple [])
     (PUsage (PStr (lit ''p'')) (PStr (lit ''m'')) (PTokenUsage (PInt 0) (PInt 0)) PNone) (PStr (lit ''t'')) (PStr (lit ''t''))"

lemmas ev_access_defs = ev_text_def ev_nonempty_text_def ev_matching_text_def ev_sequence_def ev_signed_integer_def
  ev_integer_def ev_number_def EVIDENCE_SHA256_PATTERN_def OBJECT_ID_PATTERN_def match_hex_def is_lower_hex_def is_digit_def

lemma ex_overflow: "serialize_evidence (\<lambda>_. Some True) (ex_evidence (2 ^ 1024)) = Inl OverflowError"
proof -
  have "int_overflows (2 ^ 1024)" by (simp add: int_overflows_def)
  then show ?thesis
    by (simp add: serialize_evidence_def evidence_payload_def ex_evidence_def ex_command_result_def command_payload_def
        ev_access_defs TERMINATIONS_def list_all_iff del: of_nat_power power_numeral)
qed

lemma encodable_replicate: "c < 128 \<Longrightarrow> encodable (replicate n c)"
  by (rule encodable_ascii) (simp add: list_all_iff)

lemma ex_environments:
  "\<exists>b. serialize_environment (ex_environment [(lit ''ruff'', lit ''1''), (lit ''pytest'', lit ''9'')]) = Inr b"
  "\<exists>b. serialize_environment (ex_environment [(lit ''pytest'', lit ''9''), (lit ''ruff'', lit ''1'')]) = Inr b"
  by (simp_all add: serialize_environment_def environment_payload_def ex_environment_def version_items_def ev_dump_total
      ev_access_defs list_all_iff is_surrogate_def encodable_replicate)

section \<open>Properties\<close>

text \<open>C37. The command result of an execution: there is one just when the specification is not empty,
  every argument encodes as UTF-8 and the exit code fits the limit on decimal conversions, and
  otherwise the typed error is raised. Its command is a JSON array from which the executable and
  the arguments are read back, its hashes are the SHA-256 digests of the captured output and of
  the specification, and it serializes.\<close>

theorem command_result_exact:
  assumes "new_ExecutionResult er = Inr er"
  shows "build_command_result er spec =
      (if spec \<noteq> [] \<and> list_all encodable (executable_id_value (rq_executable (er_request er)) # rq_arguments (er_request er)) \<and>
          (\<forall>i. er_exit_code er = Some i \<longrightarrow> int_ok i)
       then Inr (command_result_of er spec) else Inl EvidenceSerializationError) \<and>
    (\<exists>command. cr_command (command_result_of er spec) = PStr command \<and>
      (\<forall>rd. builds_objects rd \<longrightarrow> json_loads rd command =
        Inr (JArr (map JStr (executable_id_value (rq_executable (er_request er)) # rq_arguments (er_request er)))))) \<and>
    cr_stdout_sha256 (command_result_of er spec) = PStr (sha256_hexdigest (er_stdout er)) \<and>
    cr_stderr_sha256 (command_result_of er spec) = PStr (sha256_hexdigest (er_stderr er)) \<and>
    cr_specification_sha256 (command_result_of er spec) = PStr (sha256_hexdigest spec)"
  using build_command_result_eq [OF assms, of spec] json_word_array_reads [of _ "argv_of er"]
  unfolding argv_of_def [symmetric] by (simp add: command_result_of_def)

theorem command_result_exact_witness:
  "build_command_result ex_result [1] = Inr (command_result_of ex_result [1]) \<and>
   cr_duration_s (command_result_of ex_result [1]) = PFloat (Some (lit ''0.0''))"
proof -
  have "list_all encodable (executable_id_value (rq_executable (er_request ex_result)) # rq_arguments (er_request ex_result)) \<and>
      (\<forall>i. er_exit_code ex_result = Some i \<longrightarrow> int_ok i)"
    by (simp add: ex_result_def ex_request_def is_surrogate_def int_ok_def dec_digits_zero max_str_digits_def)
  then have "build_command_result ex_result [1] = Inr (command_result_of ex_result [1])"
    using command_result_exact [OF ex_result_valid, of "[1]"] by simp
  then show ?thesis
    by (simp add: command_result_of_def duration_float_def ex_result_def float_add_int_def int_truediv_def round_double_def
        float_repr_def)
qed

text \<open>C38. Serializing evidence raises the typed error, or \<open>TypeError\<close> for a value that is not evidence, or an
  \<open>OverflowError\<close>, and that only where a duration or a cost is an integer too large for a float:
  the check that a number is finite converts it and does not catch the failure.\<close>

theorem evidence_errors_typed:
  assumes "serialize_evidence fromiso v = Inl e"
  shows "e = EvidenceSerializationError \<or> e = TypeError \<and> \<not> is_PEvidence v \<or>
    e = OverflowError \<and> ((\<exists>cmds c. evi_commands v = PTuple cmds \<and> c \<in> set cmds \<and> \<not> durations_fit c) \<or> \<not> cost_fits (evi_usage v))"
proof (cases "is_PEvidence v")
  case True
  have typed: "ev_typed S (serialize_evidence fromiso v)" if "ev_typed S (evidence_payload fromiso v)" for S
    using that True by (cases v) (simp_all add: serialize_evidence_def ev_typed_bind)
  have "ev_typed {OverflowError} (serialize_evidence fromiso v)"
    by (rule typed, rule evidence_payload_typed) simp_all
  moreover have "ev_typed {} (serialize_evidence fromiso v)"
    if "\<forall>cmds c. evi_commands v = PTuple cmds \<longrightarrow> c \<in> set cmds \<longrightarrow> durations_fit c" and "cost_fits (evi_usage v)"
    by (rule typed, rule evidence_payload_typed) (use that in auto)
  ultimately show ?thesis using assms by (auto simp: ev_typed_def)
next
  case False
  then show ?thesis using assms by (cases v) (simp_all add: serialize_evidence_def)
qed

theorem evidence_errors_typed_witness:
  "serialize_evidence (\<lambda>_. Some True) (ex_evidence (2 ^ 1024)) = Inl OverflowError \<and>
   (\<exists>cmds c. evi_commands (ex_evidence (2 ^ 1024)) = PTuple cmds \<and> c \<in> set cmds \<and> \<not> durations_fit c)"
  using evidence_errors_typed [OF ex_overflow] ex_overflow by (simp add: cost_fits_def number_fits_def ex_evidence_def)

text \<open>C39. The bytes of an environment, and with them its hash, do not depend on the order of its
  tools, and they determine the interpreter, the lock and the version of every tool.\<close>

theorem environment_bytes_canonical:
  assumes "distinct (map fst items)" and "distinct (map fst items')"
    and "serialize_environment (PEnvironment py lock (PDict items)) = Inr b"
    and "serialize_environment (PEnvironment py' lock' (PDict items')) = Inr b'"
  shows "b = b' \<longleftrightarrow> py = py' \<and> lock = lock' \<and> map_of items = map_of items'"
proof -
  obtain p l vs where e: "py = PStr p" "lock = PStr l" "items = version_items vs"
    "utf8_encode (json_text (environment_json p l vs)) = Inr b"
    by (rule serialize_environment_Inr [OF assms(3)])
  obtain p' l' ws where e': "py' = PStr p'" "lock' = PStr l'" "items' = version_items ws"
    "utf8_encode (json_text (environment_json p' l' ws)) = Inr b'"
    by (rule serialize_environment_Inr [OF assms(4)])
  have d: "distinct (map fst vs)" "distinct (map fst ws)"
    using assms(1,2) e(3) e'(3) by (simp_all add: distinct_version_items)
  have "b = b' \<longleftrightarrow> json_text (environment_json p l vs) = json_text (environment_json p' l' ws)"
    using e(4) e'(4) utf8_roundtrip by (metis sum.inject(2))
  then show ?thesis
    using environment_json_text [OF d, of p l p' l'] map_of_version_items [OF d] e(1-3) e'(1-3) by simp
qed

theorem environment_bytes_canonical_witness:
  "serialize_environment (ex_environment [(lit ''ruff'', lit ''1''), (lit ''pytest'', lit ''9'')]) =
   serialize_environment (ex_environment [(lit ''pytest'', lit ''9''), (lit ''ruff'', lit ''1'')])"
proof -
  let ?vs = "[(lit ''ruff'', lit ''1''), (lit ''pytest'', lit ''9'')]" and ?ws = "[(lit ''pytest'', lit ''9''), (lit ''ruff'', lit ''1'')]"
  obtain b b' where b: "serialize_environment (ex_environment ?vs) = Inr b" "serialize_environment (ex_environment ?ws) = Inr b'"
    using ex_environments by blast
  have d: "distinct (map fst ?vs)" "distinct (map fst ?ws)" "set ?vs = set ?ws" by auto
  then have "distinct (map fst (version_items ?vs))" "distinct (map fst (version_items ?ws))"
    "map_of (version_items ?vs) = map_of (version_items ?ws)"
    using distinct_version_items map_of_version_items [OF d(1,2)] by blast+
  then show ?thesis
    using environment_bytes_canonical [OF _ _ b [unfolded ex_environment_def]] b by (metis)
qed

end
