(* ===== verification/CommandPipeline.thy ===== *)
theory CommandPipeline
  imports TypeSafety ExecutorProperties EvidenceProperties
begin

text \<open>
  From a request to its evidence: \<open>application/command_execution.py\<close> with the executor of
  \<open>adapters/local/command_executor.py\<close> in its port, and the command result that
  \<open>adapters/local/evidence_serialization.py\<close> builds of what it returns.
\<close>

definition run_authorized ::
  "'h local_command_executor \<Rightarrow> command_request \<Rightarrow> command_policy \<Rightarrow> (execution_result, 'h) ws_io" where
  "run_authorized x rq p = io_bind (io_lift (authorize_command rq p)) (executor_execute x)"

text \<open>It is the use case, for an executor whose executions all end.\<close>

lemma run_authorized_use_case:
  assumes "\<And>a. executor_execute x a h = Some (execute a h)"
  shows "run_authorized x rq p h = Some (execute_authorized_command execute rq p h)"
  using assms
  by (simp add: run_authorized_def execute_authorized_command_def io_bind_def io_lift_def io_return_def io_raise_def
      split: sum.split)

lemma run_authorized_Some:
  "run_authorized x rq p h = Some (r, h') \<longleftrightarrow>
    (case matching_rule rq p of Inl e \<Rightarrow> r = Inl e \<and> h' = h
     | Inr rule \<Rightarrow> executor_execute x \<lparr>au_request = rq, au_policy = p, au_rule = rule\<rparr> h = Some (r, h'))"
  using authorize_command_Inl [of rq p] authorize_command_Inr [of rq p]
  by (cases "matching_rule rq p")
    (auto simp: run_authorized_def io_bind_def io_lift_def io_return_def io_raise_def split: sum.split)

lemma permitting_rule:
  assumes "matching_rule rq p = Inr rule"
  shows "rule \<in> set (po_rules p)" and "permits rq rule"
    and "action_value (rq_action rq) \<in> set (act_allowed (po_actions p)) - set (act_denied (po_actions p))"
  using assms by (auto simp: matching_rule_Inr action_open_def dest: find_SomeI)

text \<open>What the evidence of a result of a permitted request says of it.\<close>

definition attests :: "obj \<Rightarrow> execution_result \<Rightarrow> command_rule \<Rightarrow> bool" where
  "attests evidence res rule \<longleftrightarrow>
     int (length (er_stdout res)) \<le> stdout_max_bytes (ru_max_limits rule) \<and>
     int (length (er_stderr res)) \<le> stderr_max_bytes (ru_max_limits rule) \<and>
     cr_stdout_sha256 evidence = PStr (sha256_hexdigest (er_stdout res)) \<and>
     cr_stderr_sha256 evidence = PStr (sha256_hexdigest (er_stderr res)) \<and>
     (\<exists>command. cr_command evidence = PStr command \<and> (\<forall>rd. builds_objects rd \<longrightarrow>
        json_loads rd command = Inr (JArr (map JStr (executable_id_value (ru_executable rule) # ru_arguments rule)))))"

lemma evidence_attests:
  assumes "new_ExecutionResult res = Inr res" and "permits (er_request res) rule"
    and "build_command_result res spec = Inr evidence"
  shows "attests evidence res rule"
proof -
  have "evidence = command_result_of res spec"
    using assms(1,3) by (simp add: build_command_result_eq split: if_splits)
  moreover have "argv_of res = executable_id_value (ru_executable rule) # ru_arguments rule"
    using assms(2) by (simp add: argv_of_def permits_def)
  ultimately show ?thesis
    using assms(1,2) json_word_array_reads [of _ "argv_of res"]
    by (auto simp: attests_def command_result_of_def new_ExecutionResult_Inr permits_def limits_within_def
        simp del: json_text.simps intro: order_trans)
qed

section \<open>Properties\<close>

text \<open>C4. From request to evidence: running a request that a caller could construct starts at most one process
  besides Git and the sandbox's probe. That process is the sandboxed command line of some rule of the policy that
  permits the request, for an action the policy allows and does not deny: the pinned file registered for the
  rule's executable with the rule's arguments. A result is returned only after that process, and the
  evidence built of it names that executable and those arguments, hashes the captured output, and the
  captures are within the ceilings of that rule.\<close>

theorem evidence_attests_authorized_run:
  assumes "constructible FS (OCommandRequest rq)" and "lx_sandbox x = linux_sandbox b cwd"
    and "run_authorized x rq p h = Some (r, h')"
  shows "\<exists>pre run post. hs_started h' = hs_started h @ pre @ run @ post \<and>
    list_all (\<lambda>q. git_child (gw_git (lx_workspace x)) q \<or> q = probe_of b cwd) (pre @ post) \<and>
    (r = Inr res \<longrightarrow> run \<noteq> []) \<and>
    (run = [] \<or> (\<exists>rule i t. run = [command_of b i] \<and> rule \<in> set (po_rules p) \<and> permits rq rule \<and>
      action_value (ru_action rule) \<in> set (act_allowed (po_actions p)) - set (act_denied (po_actions p)) \<and>
      lx_executables x (ru_executable rule) = Some t \<and> si_executable i = pin_path (te_pin t) \<and>
      si_arguments i = ru_arguments rule \<and> si_environment i = rq_environment rq \<and>
      (r = Inr res \<and> build_command_result res spec = Inr evidence \<longrightarrow> attests evidence res rule)))"
proof (cases "matching_rule rq p")
  case (Inl e)
  then show ?thesis using assms(3) by (intro exI [of _ "[]"]) (simp add: run_authorized_Some)
next
  case (Inr rule)
  note rule = permitting_rule [OF Inr]
  let ?a = "\<lparr>au_request = rq, au_policy = p, au_rule = rule\<rparr>"
  let ?look = "\<lambda>q. git_child (gw_git (lx_workspace x)) q \<or> q = probe_of b cwd"
  have "wf_limits (rq_limits rq)" using constructible_wf [OF assms(1)] by (simp add: wf_request_new)
  then have limits: "wf_limits (rq_limits (au_request ?a))" by simp
  have ends: "executor_execute x ?a h = Some (r, h')" using assms(3) Inr by (simp add: run_authorized_Some)
  have "executed_only x ?a ?look (command_of b) h r h'"
    by (rule wlpD [OF linux.executor_executes [OF assms(2) limits] ends]) auto
  then obtain run where run: "started_run ?look h run h'"
    "run = [] \<or> (\<exists>i. authorized_invocation x ?a h i \<and> run = [command_of b i])"
    and res: "\<forall>res. r = Inr res \<longrightarrow> run \<noteq> [] \<and> new_ExecutionResult res = Inr res \<and> er_request res = rq"
    unfolding executed_only_def by auto
  have attested: "r = Inr res \<and> build_command_result res spec = Inr evidence \<longrightarrow> attests evidence res rule"
    using res rule(2) evidence_attests [of res rule spec evidence] by auto
  have "run = [] \<or> (\<exists>rule i t. run = [command_of b i] \<and> rule \<in> set (po_rules p) \<and> permits rq rule \<and>
      action_value (ru_action rule) \<in> set (act_allowed (po_actions p)) - set (act_denied (po_actions p)) \<and>
      lx_executables x (ru_executable rule) = Some t \<and> si_executable i = pin_path (te_pin t) \<and>
      si_arguments i = ru_arguments rule \<and> si_environment i = rq_environment rq \<and>
      (r = Inr res \<and> build_command_result res spec = Inr evidence \<longrightarrow> attests evidence res rule))"
    using run(2)
  proof
    assume "\<exists>i. authorized_invocation x ?a h i \<and> run = [command_of b i]"
    then obtain i t where "run = [command_of b i]" "lx_executables x (rq_executable rq) = Some t"
      "si_executable i = pin_path (te_pin t)" "si_arguments i = rq_arguments rq" "si_environment i = rq_environment rq"
      by (auto simp: authorized_invocation_def invocation_for_def)
    then show ?thesis using rule attested
      by (intro disjI2 exI [of _ rule] exI [of _ i] exI [of _ t]) (simp add: permits_def)
  qed simp
  with run(1) res show ?thesis unfolding started_run_def list_all_append by blast
qed

lemma ex_request_constructible: "constructible FS (OCommandRequest (au_request ex_command))"
proof (rule wf_constructible)
  have "wf_run_id (ri_run_id ex_identity)" "wf_baseline_sha (ri_baseline_sha ex_identity)"
    using ex_identity_wf by (simp_all only: wf_run_identity_def)
  moreover have "WORKSPACE_ID_PATTERN (lit ''a'')" "ACTION_PATTERN (lit ''test'')" "EXECUTABLE_ID_PATTERN (lit ''python'')"
    "ENVIRONMENT_NAME_PATTERN (lit ''LANG'')"
    by (simp_all add: WORKSPACE_ID_PATTERN_def ACTION_PATTERN_def EXECUTABLE_ID_PATTERN_def ENVIRONMENT_NAME_PATTERN_def
        match_head_tail_def is_action_char_def is_name_head_def ex_chars)
  moreover have "wf_working_directory (WorkingDirectory (lit ''lib''))"
    by (simp add: wf_working_directory_new new_WorkingDirectory_Inr)
  moreover have "0 \<notin> set (lit ''-m'')" "0 \<notin> set (lit ''pytest'')" "0 \<notin> set (lit ''C'')" by simp_all
  ultimately show "wf_object FS (OCommandRequest (au_request ex_command))"
    by (simp add: ex_command_def ex_request_def ex_limits_def ex_prepared_def wf_request_new wf_workspace_identity_new
        new_WorkspaceId_Inr new_CommandRequest_Inr wf_action_new new_CommandAction_def wf_executable_id_new
        new_ExecutableId_def wf_environment_variable_new new_EnvironmentVariable_def wf_limits_def del: lit_simps)
qed

theorem evidence_attests_authorized_run_witness:
  "\<exists>h' i. run_authorized ex_executor (au_request ex_command) (au_policy ex_command) (ex_lease 200 []) =
      Some (Inr ex_executed_result, h') \<and> command_of ex_bubblewrap i \<in> set (hs_started h') \<and>
    si_arguments i = [lit ''-m'', lit ''pytest'']"
proof -
  obtain started where "executor_execute ex_executor ex_command (ex_lease 200 []) = Some (Inr ex_executed_result, ex_lease 359 started)"
    using ex_executed by blast
  then have run: "run_authorized ex_executor (au_request ex_command) (au_policy ex_command) (ex_lease 200 []) =
      Some (Inr ex_executed_result, ex_lease 359 started)"
    by (simp add: run_authorized_def ex_command_authorized io_bind_def io_lift_def io_return_def)
  have rules: "rule \<in> set (po_rules (au_policy ex_command)) \<Longrightarrow> ru_arguments rule = [lit ''-m'', lit ''pytest'']" for rule
    by (simp add: ex_command_def ex_policy_def ex_rule_def)
  have "lx_sandbox ex_executor = linux_sandbox ex_bubblewrap host_root" by (simp add: ex_executor_def)
  from evidence_attests_authorized_run [OF ex_request_constructible [of "[]"] this run,
      where res = ex_executed_result and spec = "[]" and evidence = PNone]
  obtain pre post i rule where "hs_started (ex_lease 359 started) = hs_started (ex_lease 200 []) @ pre @ [command_of ex_bubblewrap i] @ post"
    and i: "si_arguments i = ru_arguments rule" "rule \<in> set (po_rules (au_policy ex_command))"
    by auto
  then have "command_of ex_bubblewrap i \<in> set (hs_started (ex_lease 359 started))" by simp
  with run rules i show ?thesis by metis
qed

end
