(* ===== verification/WorkspacePort.thy ===== *)
theory WorkspacePort
  imports WorkspaceProperties
begin

text \<open>
  \<open>ports/workspace.py\<close>: the contract of a workspace provider, as an abstract machine whose state is
  the map from the handles in use to their identities, and the refinement by the adapter of
  \<open>adapters/local/git_workspace.py\<close>: whatever the host does, every call of the adapter is a step of the
  machine. A trace is the calls made so far with their replies.
\<close>

section \<open>The contract\<close>

datatype workspace_call =
    Prepare run_identity
  | Load workspace_id
  | Snapshot workspace_identity
  | Release workspace_identity

datatype workspace_reply =
    Prepared workspace_identity
  | Loaded "workspace_identity option"
  | Candidate candidate_identity
  | Released
  | Failed exn

type_synonym registry = "workspace_id \<rightharpoonup> workspace_identity"

text \<open>
  A call that fails leaves the handles as they are, with one exception: a release that finds
  something else in place of the workspace disposes of it and reports the isolation failure.
\<close>

inductive port_step :: "workspace_call \<Rightarrow> registry \<Rightarrow> workspace_reply \<Rightarrow> registry \<Rightarrow> bool" where
  step_failed: "port_step c m (Failed e) m"
| step_prepare: "m (wi_workspace_id w) = None \<Longrightarrow> \<forall>v \<in> ran m. wi_run_id v \<noteq> ri_run_id i \<Longrightarrow>
    wi_run_id w = ri_run_id i \<Longrightarrow> wi_baseline_sha w = ri_baseline_sha i \<Longrightarrow>
    port_step (Prepare i) m (Prepared w) (m(wi_workspace_id w \<mapsto> w))"
| step_load: "port_step (Load wid) m (Loaded (m wid)) m"
| step_snapshot: "m (wi_workspace_id w) = Some w \<Longrightarrow> ca_workspace c = w \<Longrightarrow> port_step (Snapshot w) m (Candidate c) m"
| step_release: "m (wi_workspace_id w) = None \<or> m (wi_workspace_id w) = Some w \<Longrightarrow>
    port_step (Release w) m Released (m(wi_workspace_id w := None))"
| step_release_broken: "m (wi_workspace_id w) = Some w \<Longrightarrow>
    port_step (Release w) m (Failed (WorkspaceError WS_ISOLATION_FAILURE)) (m(wi_workspace_id w := None))"

inductive_cases preparedE: "port_step c m (Prepared w) m'"
inductive_cases loadedE: "port_step c m (Loaded x) m'"
inductive_cases candidateE: "port_step c m (Candidate x) m'"
inductive_cases releasedE: "port_step c m Released m'"
inductive_cases failedE: "port_step c m (Failed e) m'"

inductive call_trace :: "('c \<Rightarrow> 's \<Rightarrow> 'r \<Rightarrow> 's \<Rightarrow> bool) \<Rightarrow> 's \<Rightarrow> ('c \<times> 'r) list \<Rightarrow> 's \<Rightarrow> bool"
  for performs :: "'c \<Rightarrow> 's \<Rightarrow> 'r \<Rightarrow> 's \<Rightarrow> bool" and s :: 's where
  trace_start: "call_trace performs s [] s"
| trace_call: "call_trace performs s t s' \<Longrightarrow> performs c s' r s'' \<Longrightarrow> call_trace performs s (t @ [(c, r)]) s''"

inductive_cases trace_snocE: "call_trace performs s (t @ [x]) s'"

section \<open>What the contract gives a client\<close>

text \<open>The handles in use name themselves and one run each.\<close>

definition proper :: "registry \<Rightarrow> bool" where
  "proper m \<longleftrightarrow> (\<forall>wid w. m wid = Some w \<longrightarrow> wi_workspace_id w = wid) \<and>
     (\<forall>v w. v \<in> ran m \<longrightarrow> w \<in> ran m \<longrightarrow> wi_run_id v = wi_run_id w \<longrightarrow> v = w)"

lemma ran_update_None: "v \<in> ran (m(k := None)) \<Longrightarrow> v \<in> ran m"
  by (auto simp: ran_def split: if_splits)

lemma proper_prepared:
  assumes "proper m" and "m (wi_workspace_id w) = None" and "\<forall>v \<in> ran m. wi_run_id v \<noteq> wi_run_id w"
  shows "proper (m(wi_workspace_id w \<mapsto> w))"
proof -
  have "ran (m(wi_workspace_id w \<mapsto> w)) = insert w (ran m)" using assms(2) by (rule ran_map_upd)
  with assms(1,3) show ?thesis unfolding proper_def by (auto split: if_splits)
qed

lemma proper_released: "proper m \<Longrightarrow> proper (m(k := None))"
  unfolding proper_def by (rule conjI, simp, meson ran_update_None)

lemma proper_step: "port_step c m r m' \<Longrightarrow> proper m \<Longrightarrow> proper m'"
  by (induction rule: port_step.induct) (simp_all add: proper_prepared proper_released)

lemma proper_released_other:
  assumes "proper m" and "w \<in> ran (m(wi_workspace_id v := None))"
  shows "w \<in> ran m \<and> w \<noteq> v"
  using assms unfolding proper_def by (auto simp: ran_def split: if_splits)

text \<open>A handle in use was prepared, and has not been released since.\<close>

definition live_since :: "(workspace_call \<times> workspace_reply) list \<Rightarrow> workspace_identity \<Rightarrow> bool" where
  "live_since t w \<longleftrightarrow> (\<exists>before i after. t = before @ (Prepare i, Prepared w) # after \<and>
     wi_run_id w = ri_run_id i \<and> wi_baseline_sha w = ri_baseline_sha i \<and> (Release w, Released) \<notin> set after)"

lemma live_since_snoc:
  assumes "live_since t w" and "x \<noteq> (Release w, Released)"
  shows "live_since (t @ [x]) w"
proof -
  obtain before i after where t: "t = before @ (Prepare i, Prepared w) # after"
    "wi_run_id w = ri_run_id i" "wi_baseline_sha w = ri_baseline_sha i" "(Release w, Released) \<notin> set after"
    using assms(1) unfolding live_since_def by blast
  show ?thesis
    unfolding live_since_def by (rule exI [of _ before], rule exI [of _ i], rule exI [of _ "after @ [x]"]) (use t assms(2) in auto)
qed

lemma live_since_prepared:
  "wi_run_id w = ri_run_id i \<Longrightarrow> wi_baseline_sha w = ri_baseline_sha i \<Longrightarrow> live_since (t @ [(Prepare i, Prepared w)]) w"
  unfolding live_since_def by (rule exI [of _ t], rule exI [of _ i], rule exI [of _ "[]"]) simp

lemma live_step:
  assumes "port_step c m r m'" and "proper m" and "\<forall>w \<in> ran m. live_since t w" and "w \<in> ran m'"
  shows "live_since (t @ [(c, r)]) w"
  using assms(1)
proof cases
  case (step_prepare v i)
  have "ran m' = insert v (ran m)" unfolding step_prepare using step_prepare by (intro ran_map_upd)
  with assms(3,4) have "w = v \<or> live_since t w" by blast
  then show ?thesis using step_prepare by (auto intro: live_since_snoc live_since_prepared)
next
  case (step_release v)
  then have "live_since t w" "w \<noteq> v" using proper_released_other [OF assms(2), of w v] assms(3,4) by auto
  then show ?thesis using step_release by (auto intro: live_since_snoc)
next
  case (step_release_broken v)
  then have "live_since t w" using proper_released_other [OF assms(2), of w v] assms(3,4) by auto
  then show ?thesis using step_release_broken by (auto intro: live_since_snoc)
qed (use assms(3,4) in \<open>auto intro: live_since_snoc\<close>)

lemma port_trace_live:
  assumes "call_trace port_step Map.empty t m"
  shows "proper m \<and> (\<forall>w \<in> ran m. live_since t w)"
  using assms
proof induction
  case trace_start
  then show ?case by (simp add: proper_def)
next
  case (trace_call t m c r m')
  then show ?case using proper_step live_step by metis
qed

section \<open>Providers\<close>

locale workspace_port =
  fixes held :: "'s \<Rightarrow> registry"
    and ok :: "'s \<Rightarrow> bool"
    and performs :: "workspace_call \<Rightarrow> 's \<Rightarrow> workspace_reply \<Rightarrow> 's \<Rightarrow> bool"
  assumes performs_ok: "ok s \<Longrightarrow> performs c s r s' \<Longrightarrow> ok s'"
    and performs_step: "ok s \<Longrightarrow> performs c s r s' \<Longrightarrow> port_step c (held s) r (held s')"
begin

lemma simulates:
  assumes "call_trace performs s t s'" and "ok s"
  shows "ok s' \<and> call_trace port_step (held s) t (held s')"
  using assms
proof induction
  case trace_start
  then show ?case by (simp add: call_trace.trace_start)
next
  case (trace_call t s' c r s'')
  then show ?case using performs_ok performs_step by (blast intro: call_trace.trace_call)
qed

text \<open>A candidate is only ever taken of a workspace that was prepared and not released since.\<close>

lemma candidate_of_live:
  assumes "call_trace performs s (t @ [(Snapshot w, Candidate c)]) s'" and "ok s" and "held s = Map.empty"
  shows "ca_workspace c = w \<and> live_since t w"
  using assms(1)
proof (rule trace_snocE)
  fix s1 c' r'
  assume t: "call_trace performs s t s1" and "(Snapshot w, Candidate c) = (c', r')" and "performs c' s1 r' s'"
  then have last: "performs (Snapshot w) s1 (Candidate c) s'" by simp
  have t1: "ok s1" "call_trace port_step Map.empty t (held s1)"
    using simulates [OF t assms(2)] assms(3) by simp_all
  have "held s1 (wi_workspace_id w) = Some w \<and> ca_workspace c = w"
    using performs_step [OF t1(1) last] by (auto elim: candidateE)
  then show ?thesis using port_trace_live [OF t1(2)] by (auto simp: ran_def)
qed

end

section \<open>The adapter\<close>

definition held_workspaces :: "'h workspace_host_ext git_host_ext process_host_scheme \<Rightarrow> registry" where
  "held_workspaces h = (\<lambda>wid. map_option wr_identity (wh_records h wid))"

definition replying :: "('a \<Rightarrow> workspace_reply) \<Rightarrow> ('a res \<times> 's) option \<Rightarrow> (workspace_reply \<times> 's) option" where
  "replying f = map_option (\<lambda>(r, h'). (case r of Inl e \<Rightarrow> Failed e | Inr x \<Rightarrow> f x, h'))"

text \<open>A call of the adapter; \<open>v\<close> is what the id generator returns.\<close>

fun adapter_call :: "local_git_workspace \<Rightarrow> str res \<Rightarrow> workspace_call \<Rightarrow>
    'h workspace_host_ext git_host_ext process_host_scheme \<Rightarrow>
    (workspace_reply \<times> 'h workspace_host_ext git_host_ext process_host_scheme) option" where
  "adapter_call a v (Prepare i) h = replying Prepared (ws_prepare a (sum_bind v new_WorkspaceId) i h)"
| "adapter_call a v (Load wid) h = replying Loaded (ws_load a wid h)"
| "adapter_call a v (Snapshot w) h = replying Candidate (ws_snapshot a w h)"
| "adapter_call a v (Release w) h = replying (\<lambda>_. Released) (ws_release a w h)"

text \<open>Between the calls anything may happen that leaves the adapter's attributes alone.\<close>

definition adapter_performs :: "local_git_workspace \<Rightarrow> workspace_call \<Rightarrow> 'h workspace_host_ext git_host_ext process_host_scheme \<Rightarrow>
    workspace_reply \<Rightarrow> 'h workspace_host_ext git_host_ext process_host_scheme \<Rightarrow> bool" where
  "adapter_performs a c h r h' \<longleftrightarrow> (\<exists>v h0. same_records h h0 \<and> adapter_call a v c h0 = Some (r, h'))"

lemma replying_Some: "replying f x = Some (r, h') \<longleftrightarrow>
    (\<exists>e. x = Some (Inl e, h') \<and> r = Failed e) \<or> (\<exists>y. x = Some (Inr y, h') \<and> r = f y)"
  by (cases x) (auto simp: replying_def split: sum.splits prod.splits)

lemma held_same: "same_records h h' \<Longrightarrow> held_workspaces h' = held_workspaces h"
  by (simp add: same_records_def held_workspaces_def)

lemma held_released: "released w h h' \<Longrightarrow> held_workspaces h' = (held_workspaces h)(wi_workspace_id w := None)"
  by (auto simp: released_def held_workspaces_def)

lemma load_outcome: "wlp (ws_load a wid) (\<lambda>x h'. same_records h h' \<and> (\<forall>y. x = Inr y \<longrightarrow> y = held_workspaces h wid)) h"
proof (cases "wh_records h wid")
  case None
  then show ?thesis by (simp add: wlp_def ws_load_def io_return_def held_workspaces_def)
next
  case (Some r)
  have "wlp (ws_load a wid) (\<lambda>x h'. \<forall>y. x = Inr y \<longrightarrow> y = held_workspaces h wid) h"
    using Some by (auto simp: wlp_def ws_load_def io_bind_def io_return_def held_workspaces_def split: option.splits prod.splits sum.splits)
  with frame_load [OF framed_same_records same_records_refl] show ?thesis by (rule wlp_conj)
qed

lemma snapshot_outcome:
  "wlp (ws_snapshot a w) (\<lambda>x h'. same_records h h' \<and>
     (\<forall>c. x = Inr c \<longrightarrow> held_workspaces h (wi_workspace_id w) = Some w \<and> ca_workspace c = w)) h"
proof -
  have "wlp (ws_snapshot a w) (\<lambda>x h'. \<forall>c. x = Inr c \<longrightarrow> held_workspaces h (wi_workspace_id w) = Some w \<and> ca_workspace c = w) h"
    by (auto simp: wlp_def ws_snapshot_def io_bind_def io_return_def io_lift_def io_raise_def require_record_def ws_error_def
        bind_candidate_def held_workspaces_def split: option.splits prod.splits sum.splits if_splits)
  with frame_ws_snapshot [OF framed_same_records same_records_refl] show ?thesis by (rule wlp_conj)
qed

lemma release_other:
  "wh_records h (wi_workspace_id w) = Some r \<Longrightarrow> wr_identity r \<noteq> w \<Longrightarrow>
   ws_release a w h = Some (Inl (WorkspaceError WS_CONFLICT), h)"
  by (simp add: ws_release_def ws_error_def io_raise_def)

lemma release_step:
  assumes "ws_release a w h = Some (u, h')"
  shows "port_step (Release w) (held_workspaces h) (case u of Inl e \<Rightarrow> Failed e | Inr _ \<Rightarrow> Released) (held_workspaces h')"
proof (cases "wh_records h (wi_workspace_id w)")
  case None
  then have "u = Inr ()" "h' = h" using assms by (simp_all add: ws_release_def io_return_def)
  moreover have "(held_workspaces h)(wi_workspace_id w := None) = held_workspaces h"
    using None by (auto simp: held_workspaces_def)
  ultimately show ?thesis using step_release [of "held_workspaces h" w] None by (simp add: held_workspaces_def)
next
  case (Some r)
  show ?thesis
  proof (cases "wr_identity r = w")
    case False
    then show ?thesis using assms release_other [OF Some] by (auto intro: step_failed)
  next
    case True
    then have own: "held_workspaces h (wi_workspace_id w) = Some w" using Some by (simp add: held_workspaces_def)
    have out: "case u of Inl e \<Rightarrow> release_failed w h e h' | Inr _ \<Rightarrow> released w h h'"
      using wlpD [OF ws_release_outcome assms] Some by (simp split: sum.splits)
    show ?thesis
    proof (cases u)
      case (Inl e)
      then have "same_records h h' \<or> released w h h' \<and> e = WorkspaceError WS_ISOLATION_FAILURE"
        using out by (simp add: release_failed_def)
      then show ?thesis using Inl own by (auto simp: held_same held_released intro: step_failed step_release_broken)
    next
      case (Inr x)
      then show ?thesis using out own by (auto simp: held_released intro: step_release)
    qed
  qed
qed

lemma prepare_step:
  assumes "coherent a h" and "ws_prepare a nid i h = Some (r, h')"
  shows "port_step (Prepare i) (held_workspaces h) (case r of Inl e \<Rightarrow> Failed e | Inr w \<Rightarrow> Prepared w) (held_workspaces h')"
proof (cases r)
  case (Inl e)
  then show ?thesis using wlpD [OF ws_prepare_outcome assms(2)] by (simp add: held_same step_failed)
next
  case (Inr w)
  then have "published a nid i w h h'" using wlpD [OF ws_prepare_outcome assms(2)] by simp
  then obtain wid p digest where fresh: "wh_records h wid = None" "wh_run_index h (ri_run_id i) = None"
    and w: "w = \<lparr>wi_workspace_id = wid, wi_run_id = ri_run_id i, wi_baseline_sha = ri_baseline_sha i\<rparr>"
    and h': "wh_records h' = (wh_records h)(wid \<mapsto> \<lparr>wr_identity = w, wr_path = p, wr_config_digest = digest\<rparr>)"
    unfolding published_def by blast
  have "wi_run_id v \<noteq> ri_run_id i" if "v \<in> ran (held_workspaces h)" for v
    using that coherent_record(4) [OF assms(1)] fresh(2) by (fastforce simp: held_workspaces_def ran_def)
  moreover have "held_workspaces h' = (held_workspaces h)(wi_workspace_id w \<mapsto> w)"
    using h' w by (auto simp: held_workspaces_def)
  ultimately show ?thesis
    using step_prepare [of "held_workspaces h" w i] fresh(1) w Inr by (simp add: held_workspaces_def)
qed

interpretation git_workspace: workspace_port held_workspaces "ws_reachable a" "adapter_performs a" for a
proof
  fix s s' :: "'h workspace_host_ext git_host_ext process_host_scheme" and c r
  assume reach: "ws_reachable a s" and "adapter_performs a c s r s'"
  then obtain v h where h: "same_records s h" and call: "adapter_call a v c h = Some (r, s')"
    unfolding adapter_performs_def by blast
  have here: "ws_reachable a h" by (rule ws_reachable.elsewhere [OF reach h])
  note coh = ws_reachable_coherent [OF here]
  show "ws_reachable a s'"
    using call here by (cases c) (auto simp: replying_Some intro: ws_reachable.intros)
  have "port_step c (held_workspaces h) r (held_workspaces s')"
  proof (cases c)
    case (Prepare i)
    then show ?thesis using call prepare_step [OF coh] by (fastforce simp: replying_Some)
  next
    case (Load wid)
    then show ?thesis using call wlpD [OF load_outcome]
      by (fastforce simp: replying_Some held_same intro: step_failed step_load)
  next
    case (Snapshot w)
    then show ?thesis using call wlpD [OF snapshot_outcome]
      by (fastforce simp: replying_Some held_same intro: step_failed step_snapshot)
  next
    case (Release w)
    then show ?thesis using call release_step by (fastforce simp: replying_Some)
  qed
  then show "port_step c (held_workspaces s) r (held_workspaces s')" by (simp add: held_same [OF h])
qed

lemma made_empty: "new_LocalGitWorkspace source base protected g h = Some (Inr a, h') \<Longrightarrow> held_workspaces h' = Map.empty"
  by (auto simp: new_LocalGitWorkspace_def io_bind_def io_raise_def held_workspaces_def split: option.splits sum.splits if_splits)

end
