(* ===== verification/WorkspacePortProperties.thy ===== *)
theory WorkspacePortProperties
  imports WorkspacePort ExecutorProperties
begin

text \<open>
  The adapter's calls as a trace of the workspace port: the properties, and a concrete trace in
  which a workspace is prepared and a candidate taken of it.
\<close>

lemma ex_candidate: "new_CandidateSha (replicate 40 99) = Inr (CandidateSha (replicate 40 99))"
  by (simp add: new_CandidateSha_Inr CANDIDATE_SHA_PATTERN_def match_hex_def is_lower_hex_def is_digit_def)

lemma ex_snapshot:
  "\<exists>started'. snapshot_candidate ex_git (wr_path (ex_record (lit ''a'') ex_identity)) (ex_lease 261 started) =
     Some (Inr (CandidateSha (replicate 40 99)), ex_lease 309 started')"
  unfolding ex_lease_def
  by (simp add: ex_simps ex_candidate ex_record_def ex_prepared_def ex_identity_def cong: run_lazy)

lemma ex_revalidated:
  "\<exists>started'. validate_record ex_adapter (ex_record (lit ''a'') ex_identity) (ex_lease 309 started) = Some (Inr (), ex_lease 358 started')"
  unfolding ex_lease_def
  by (simp add: ex_simps ex_record_def ex_prepared_def ex_identity_def cong: run_lazy)

lemma ex_snapped:
  "\<exists>started. ws_snapshot ex_adapter (ex_prepared (lit ''a'') ex_identity) (ex_lease 212 []) =
     Some (Inr \<lparr>ca_workspace = ex_prepared (lit ''a'') ex_identity, ca_candidate_sha = CandidateSha (replicate 40 99)\<rparr>, ex_lease 358 started)"
proof -
  let ?r = "ex_record (lit ''a'') ex_identity"
  have held: "require_record (ex_prepared (lit ''a'') ex_identity) (ex_lease n st) = io_return ?r (ex_lease n st)" for n st
    by (simp add: require_record_def ex_lease_def ex_prepared_def ex_record_def)
  obtain s1 where s1: "validate_record ex_adapter ?r (ex_lease 212 []) = Some (Inr (), ex_lease 261 s1)"
    using ex_validated(1) by blast
  obtain s2 where s2: "snapshot_candidate ex_git (wr_path ?r) (ex_lease 261 s1) =
      Some (Inr (CandidateSha (replicate 40 99)), ex_lease 309 s2)"
    using ex_snapshot by blast
  obtain s3 where s3: "validate_record ex_adapter ?r (ex_lease 309 s2) = Some (Inr (), ex_lease 358 s3)"
    using ex_revalidated by blast
  have "gw_git ex_adapter = ex_git" "wr_identity ?r = ex_prepared (lit ''a'') ex_identity"
    by (simp_all add: ex_adapter_def ex_record_def)
  then show ?thesis
    by (intro exI [of _ s3]) (simp add: ws_snapshot_def io_bind_def held io_return_def s1 s2 s3 translating_git_def io_except_def
        io_lift_def bind_candidate_def del: lit_simps)
qed

definition ex_workspace_calls :: "(workspace_call \<times> workspace_reply) list" where
  "ex_workspace_calls = [(Prepare ex_identity, Prepared (ex_prepared (lit ''a'') ex_identity))]"

definition ex_candidate_identity :: candidate_identity where
  "ex_candidate_identity = \<lparr>ca_workspace = ex_prepared (lit ''a'') ex_identity, ca_candidate_sha = CandidateSha (replicate 40 99)\<rparr>"

lemma ex_calls_made:
  "\<exists>h. call_trace (adapter_performs ex_adapter) (ex_world 16 ex_files [] [] (\<lambda>_. None) (\<lambda>_. None) :: workspace_host)
     (ex_workspace_calls @ [(Snapshot (ex_prepared (lit ''a'') ex_identity), Candidate ex_candidate_identity)]) h"
proof -
  let ?w = "ex_prepared (lit ''a'') ex_identity" and ?h = "ex_world 16 ex_files [] [] (\<lambda>_. None) (\<lambda>_. None) :: workspace_host"
  obtain h1 :: workspace_host where p: "ws_prepare ex_adapter (Inr (WorkspaceId (lit ''a''))) ex_identity ?h = Some (Inr ?w, h1)"
    and h1: "wh_records h1 = [WorkspaceId (lit ''a'') \<mapsto> ex_record (lit ''a'') ex_identity]"
      "wh_run_index h1 = [ri_run_id ex_identity \<mapsto> WorkspaceId (lit ''a'')]"
    using ex_prepared_a by (fastforce simp del: lit_simps)
  have "adapter_call ex_adapter (Inr (lit ''a'')) (Prepare ex_identity) ?h = Some (Prepared ?w, h1)"
    using p unfolding adapter_call.simps ex_ids(1) by (simp add: replying_def del: lit_simps)
  then have first: "adapter_performs ex_adapter (Prepare ex_identity) ?h (Prepared ?w) h1"
    unfolding adapter_performs_def using same_records_refl by blast
  have "same_records h1 (ex_lease 212 [])" using h1 by (simp add: same_records_def ex_lease_def)
  moreover obtain h2 where "adapter_call ex_adapter (Inr (lit ''a'')) (Snapshot ?w) (ex_lease 212 []) = Some (Candidate ex_candidate_identity, h2)"
    using ex_snapped unfolding adapter_call.simps ex_candidate_identity_def by (fastforce simp: replying_def simp del: lit_simps)
  ultimately have second: "adapter_performs ex_adapter (Snapshot ?w) h1 (Candidate ex_candidate_identity) h2"
    unfolding adapter_performs_def by blast
  have "call_trace (adapter_performs ex_adapter) ?h ex_workspace_calls h1"
    using trace_call [where performs = "adapter_performs ex_adapter", OF trace_start, where r = "Prepared ?w", OF first]
    by (simp add: ex_workspace_calls_def)
  from trace_call [where performs = "adapter_performs ex_adapter", OF this, where r = "Candidate ex_candidate_identity", OF second]
  show ?thesis by blast
qed

section \<open>Properties\<close>

text \<open>C6. The adapter refines the workspace port: from its construction on, whatever its calls meet on the host
  and whatever happens between them, the calls with their replies are a trace of the abstract
  machine, which ends in the handles the adapter holds; and those name themselves, for one run each.\<close>

theorem adapter_refines_workspace_port:
  assumes "new_LocalGitWorkspace source base protected g h0 = Some (Inr a, h)"
    and "call_trace (adapter_performs a) h t h'"
  shows "call_trace port_step Map.empty t (held_workspaces h') \<and> proper (held_workspaces h')"
  using git_workspace.simulates [OF assms(2) ws_reachable.made [OF assms(1)]] made_empty [OF assms(1)] port_trace_live
  by force

theorem adapter_refines_workspace_port_witness:
  "\<exists>m. call_trace port_step Map.empty
     (ex_workspace_calls @ [(Snapshot (ex_prepared (lit ''a'') ex_identity), Candidate ex_candidate_identity)]) m"
  using ex_calls_made adapter_refines_workspace_port [OF ex_adapter_made] by blast

text \<open>C7. A candidate is taken only of a workspace in use: before the call that returned it there is a preparation
  that returned this very workspace, for its run and its baseline, and no release of it has returned in
  between.\<close>

theorem candidates_of_workspaces_in_use:
  assumes "new_LocalGitWorkspace source base protected g h0 = Some (Inr a, h)"
    and "call_trace (adapter_performs a) h (t @ [(Snapshot w, Candidate c)]) h'"
  shows "ca_workspace c = w \<and> (\<exists>before i after. t = before @ (Prepare i, Prepared w) # after \<and>
     wi_run_id w = ri_run_id i \<and> wi_baseline_sha w = ri_baseline_sha i \<and> (Release w, Released) \<notin> set after)"
  using git_workspace.candidate_of_live [OF assms(2) ws_reachable.made [OF assms(1)] made_empty [OF assms(1)]]
  unfolding live_since_def .

theorem candidates_of_workspaces_in_use_witness:
  "\<exists>before i after. ex_workspace_calls = before @ (Prepare i, Prepared (ex_prepared (lit ''a'') ex_identity)) # after"
  using ex_calls_made candidates_of_workspaces_in_use [OF ex_adapter_made] by blast

end
