(* ===== verification/GitLiveness.thy ===== *)
theory GitLiveness
  imports GitCli
begin

text \<open>
  The deadline of a Git operation and the wait after its capture: like the sandbox, the primitive
  waits without a deadline once both streams are closed.
\<close>

lemma closed_streams_block_git:
  assumes calm: "\<And>n. hs_event h n = Calm" and ready: "\<And>n. pr_ready p n = [STDOUT, STDERR]"
    and closed: "\<And>n s. pr_read p n s = Chunk []" and never: "\<And>n. pr_wait p n = None"
    and in_time: "hs_clock h (hs_tick h + 2) < hs_clock h (hs_tick h) + gc_timeout g"
  shows "capture_bounded g p h = None"
proof -
  have d: "\<not> denied (after f h')" "\<not> denied h" if "hs_event h' = hs_event h" for f and h' :: "'a process_host_scheme"
    using that calm by (simp_all add: denied_def)
  show ?thesis
    using in_time
    by (simp add: capture_bounded_def io_bind_def sys_def d io_return_def io_loop.simps git_round_def monotonic_def
        observe_def Let_def select_def ready os_read_def closed wait_def never)
qed

end
