(* ===== verification/QualityGate.thy ===== *)
theory QualityGate
  imports PyText
begin

text \<open>
  \<open>scripts/quality_gate.py\<close>: the fixed checks and the loop over those selected. The search for an
  executable (\<open>shutil.which\<close>) and the run of a command (\<open>subprocess.run\<close>) act on a world: the
  first answers a path or nothing, the second an exit status or \<open>OSError\<close>. The selection is
  the list of names that \<open>argparse\<close> hands over, each of them a choice; what is printed is the
  list of lines.
\<close>

record check =
  ck_name :: str
  ck_argv :: "str list"

definition fixed_check :: "string \<Rightarrow> string list \<Rightarrow> check" where
  "fixed_check name argv = \<lparr>ck_name = lit name, ck_argv = map lit argv\<rparr>"

definition CHECKS :: "check list" where
  "CHECKS =
    [fixed_check ''lock'' [''uv'', ''lock'', ''--check''],
     fixed_check ''lint'' [''uv'', ''run'', ''--frozen'', ''ruff'', ''check'', ''.''],
     fixed_check ''format'' [''uv'', ''run'', ''--frozen'', ''ruff'', ''format'', ''--check'', ''.''],
     fixed_check ''typing'' [''uv'', ''run'', ''--frozen'', ''pyright''],
     fixed_check ''tests'' [''uv'', ''run'', ''--frozen'', ''pytest''],
     fixed_check ''security'' [''uv'', ''run'', ''--frozen'', ''bandit'', ''-q'', ''-r'', ''src'', ''-ll''],
     fixed_check ''dependencies'' [''uv'', ''run'', ''--frozen'', ''pip-audit'', ''--cache-dir'', ''build/pip-audit-cache''],
     fixed_check ''architecture'' [''uv'', ''run'', ''--frozen'', ''pytest'', ''-q'', ''-o'', ''addopts='', ''tests/test_architecture.py'']]"

type_synonym 'w which = "str \<Rightarrow> 'w \<Rightarrow> str option \<times> 'w"
type_synonym 'w runner = "str list \<Rightarrow> 'w \<Rightarrow> int res \<times> 'w"

definition resolve_argv :: "'w which \<Rightarrow> str list \<Rightarrow> 'w \<Rightarrow> str list option \<times> 'w" where
  "resolve_argv which argv w = (case which (hd argv) w of
      (None, w') \<Rightarrow> (None, w')
    | (Some executable, w') \<Rightarrow> (Some (executable # tl argv), w'))"

definition selected_checks :: "str list \<Rightarrow> check list" where
  "selected_checks selected = filter (\<lambda>c. selected = [] \<or> ck_name c \<in> set selected) CHECKS"

text \<open>One check: whether it failed, and the lines printed.\<close>

definition run_check :: "'w which \<Rightarrow> 'w runner \<Rightarrow> check \<Rightarrow> 'w \<Rightarrow> (bool \<times> str list) res \<times> 'w" where
  "run_check which run c w =
    (let start = lit ''==> '' @ ck_name c in
     case resolve_argv which (ck_argv c) w of
       (None, w1) \<Rightarrow> (Inr (True, [start, lit ''FAIL '' @ ck_name c @ lit '': required executable is unavailable: '' @ hd (ck_argv c)]), w1)
     | (Some argv, w1) \<Rightarrow> (case run argv w1 of
         (Inl e, w2) \<Rightarrow> (Inl e, w2)
       | (Inr status, w2) \<Rightarrow>
           if status \<noteq> 0 then (Inr (True, [start, lit ''FAIL '' @ ck_name c @ lit '': exit '' @ int_repr status]), w2)
           else (Inr (False, [start]), w2)))"

fun run_checks :: "'w which \<Rightarrow> 'w runner \<Rightarrow> check list \<Rightarrow> 'w \<Rightarrow> (str list \<times> str list) res \<times> 'w" where
  "run_checks which run [] w = (Inr ([], []), w)"
| "run_checks which run (c # cs) w = (case run_check which run c w of
      (Inl e, w1) \<Rightarrow> (Inl e, w1)
    | (Inr (failed, printed), w1) \<Rightarrow> (case run_checks which run cs w1 of
        (Inl e, w2) \<Rightarrow> (Inl e, w2)
      | (Inr (failures, rest), w2) \<Rightarrow> (Inr ((if failed then [ck_name c] else []) @ failures, printed @ rest), w2)))"

fun join_names :: "str list \<Rightarrow> str" where
  "join_names [] = []"
| "join_names [x] = x"
| "join_names (x # y # zs) = x @ lit '', '' @ join_names (y # zs)"

definition gate_main :: "'w which \<Rightarrow> 'w runner \<Rightarrow> str list \<Rightarrow> 'w \<Rightarrow> (int \<times> str list) res \<times> 'w" where
  "gate_main which run selected w = (case run_checks which run (selected_checks selected) w of
      (Inl e, w') \<Rightarrow> (Inl e, w')
    | (Inr (failures, printed), w') \<Rightarrow>
        if failures \<noteq> [] then (Inr (1, printed @ [lit ''Quality gate failed: '' @ join_names failures]), w')
        else (Inr (0, printed @ [lit ''Quality gate passed.'']), w'))"

section \<open>What the status means\<close>

text \<open>Every check in turn was found and exited with status zero.\<close>

fun all_pass :: "'w which \<Rightarrow> 'w runner \<Rightarrow> check list \<Rightarrow> 'w \<Rightarrow> bool" where
  "all_pass which run [] w \<longleftrightarrow> True"
| "all_pass which run (c # cs) w \<longleftrightarrow> (case which (hd (ck_argv c)) w of
      (None, w1) \<Rightarrow> False
    | (Some executable, w1) \<Rightarrow> (case run (executable # tl (ck_argv c)) w1 of
        (Inl e, w2) \<Rightarrow> False
      | (Inr status, w2) \<Rightarrow> status = 0 \<and> all_pass which run cs w2))"

lemma run_checks_pass:
  "all_pass which run cs w \<longleftrightarrow> (\<exists>printed w'. run_checks which run cs w = (Inr ([], printed), w'))"
proof (induction cs arbitrary: w)
  case (Cons c cs)
  then show ?case
    by (auto simp: run_check_def resolve_argv_def Let_def split: option.split sum.split prod.split)
qed simp

lemma gate_passes:
  "(\<exists>printed w'. gate_main which run selected w = (Inr (0, printed), w')) \<longleftrightarrow>
    all_pass which run (selected_checks selected) w"
  unfolding run_checks_pass gate_main_def by (auto split: sum.splits prod.splits if_splits)

text \<open>No selection selects every check, in the fixed order.\<close>

lemma selected_all [simp]: "selected_checks [] = CHECKS"
  by (simp add: selected_checks_def)

end
