(* ===== verification/Spec2Isabelle.thy ===== *)
theory Spec2Isabelle
  imports Resume StoreGrowth StoreConstruction CommandPipeline WorkspacePortProperties GitLiveness QualityGate
begin

text \<open>
  Verification of \<open>alicerce\<close>, the orchestration core that binds a contract to a run, moves the run
  through a fixed lifecycle, keeps its state durable, and executes commands for it under a
  trusted policy. The sources are the Python packages below \<open>src/src/alicerce\<close>.

  Conventions. A call that may raise is a value of \<open>'a res = exn + 'a\<close>: \<open>Inl\<close> the exception,
  with its stable cause and without the human-readable detail, and \<open>Inr\<close> the value returned.
  A text is the list of its code points (\<open>str\<close>), a Python integer an \<open>int\<close>, a byte an \<open>8 word\<close>. A
  frozen dataclass is a record or a one-constructor datatype, its \<open>__post_init__\<close> the function
  \<open>new_<Class>\<close>. In the component theories the arguments have the declared types; the
  \<open>isinstance\<close> guards are branches in \<open>DynamicValues\<close>, over objects of any class. \<open>TypedCalls\<close> proves
  that the two readings agree on objects of the declared types, and \<open>TypeSafety\<close> that the objects
  which any sequence of calls can build are exactly the well-formed ones. Where a value of
  untrusted type reaches the adapters (decoded JSON, SQLite columns, evidence) it is a datatype
  and the guards are branches there too.

  The language and its library. \<open>PyText\<close> holds characters, \<open>str.strip\<close>, decimal numbers and
  the shapes of the regular expressions; \<open>Utf8\<close> the strict UTF-8 codec; \<open>PyDatetime\<close> instants,
  their order, \<open>strftime\<close> and \<open>strptime\<close> for the one format in use; \<open>PyJson\<close> the decoder
  \<open>json.loads\<close> with its hooks and the encoder \<open>json.dumps\<close>; \<open>PosixPath\<close> the parsing of
  \<open>PurePosixPath\<close>; \<open>Sha256\<close> the digest. \<open>JsonRoundtrip\<close> proves that decoding inverts encoding
  and that the decoder's fuel, twice the length of its input, is never exhausted. Decoder and
  encoder raise \<open>RecursionError\<close> where containers nest beyond the levels of the interpreter, the
  record \<open>interpreter\<close> that the definitions take as the parameter \<open>py\<close>: sixteen levels, which is
  more than any canonical document has and far less than any interpreter in use admits, and any
  number beyond them. \<open>DecoderLimits\<close> says which texts meet this limit and the one on the digits of
  an integer.

  The domain. \<open>RunIdentity\<close> (\<open>domain/run_identity.py\<close>), \<open>Lifecycle\<close> (\<open>domain/lifecycle.py\<close>:
  states, the transition policy \<open>ALLOWED_NEXT\<close>, \<open>start_lifecycle\<close> and \<open>advance_lifecycle\<close>),
  \<open>RunState\<close> (\<open>domain/state.py\<close>: checkpoints and updates), \<open>ContractBinding\<close>
  (\<open>domain/contract_binding.py\<close>), \<open>Workspace\<close> (\<open>domain/workspace.py\<close>), \<open>Command\<close>
  (\<open>domain/command.py\<close>) and \<open>CommandPolicy\<close> (\<open>domain/command_policy.py\<close>). The application
  layer is \<open>Resume\<close> (\<open>application/resume.py\<close>, \<open>application/run_identity.py\<close>) and
  \<open>CommandExecution\<close> (\<open>application/command_execution.py\<close>).

  Durable state. \<open>StateSerialization\<close> is \<open>adapters/local/state_serialization.py\<close>; \<open>StateCodec\<close>
  proves each codec a bijection between well-formed values and canonical bytes and says when a
  value serializes; \<open>StateErrors\<close> says which exceptions leave the decoders. \<open>SqliteEngine\<close> is
  what \<open>adapters/local/sqlite_state_store.py\<close> uses of SQLite: two tables, statements that may
  fail or find that another connection committed before them (the list of events handed to
  \<open>perform\<close>, any events once it is empty being \<open>Quiet\<close>), and deferred or immediate
  transactions. \<open>SqliteStateStore\<close> has the store's operations over it. \<open>StoreTransactions\<close>
  relates a write under arbitrary events to its effect on one database; \<open>StoreHistory\<close> and
  \<open>StoreSchema\<close> say what the effects do to the runs a database holds; the locale
  \<open>state_store\<close> of \<open>StateStorePort\<close> is the contract of \<open>ports/state_store.py\<close>, which
  \<open>StoreRefinement\<close> interprets on the SQLite store; \<open>StoreReachability\<close> treats databases grown
  by initializations and prepared updates under failures and concurrent writers, a load overtaken
  by an append, and an update that was never checked against the policy; \<open>StoreGrowth\<close> what any
  writes of the store, checked or not, leave of the rows they found. \<open>StoreConstruction\<close> has the constructor of
  the store with the checks of its arguments.

  The host. \<open>HostSystem\<close> is the file system with directories, files and symbolic links that
  \<open>pathlib\<close>, \<open>os\<close> and \<open>shutil\<close> act on, and computations over it that raise or never return;
  \<open>HostProcess\<close> adds child processes, pipes and clocks. Each system call takes one tick, and what
  happens at a tick (nothing, a failure, a change made by other processes) is part of the host, so
  a theorem over all hosts holds under every interleaving. What a child does is also the host's.
  \<open>wlp\<close> is the weakest precondition of a computation for the outcomes it has; whether it has one
  is a theorem of its own (\<open>ends\<close>). Clock readings are exact rationals where the source has floats.

  The local adapters. \<open>PinnedFile\<close> has the executables pinned by path and digest; \<open>LinuxSandbox\<close>
  is \<open>adapters/local/linux_process_sandbox.py\<close> with the values of \<open>process_sandbox.py\<close>,
  \<open>SandboxBounds\<close> what an execution guarantees on every host, \<open>SandboxLiveness\<close> when it ends.
  \<open>GitCli\<close> is \<open>adapters/local/git_cli.py\<close>, \<open>GitWorkspace\<close> \<open>adapters/local/git_workspace.py\<close>;
  \<open>GitLiveness\<close> shows that a capture does not end with its deadline when both streams are closed early.
  \<open>WorkspaceRecords\<close> says what the operations leave alone and what a preparation publishes,
  \<open>WorkspaceIsolation\<close> what holds of every state the adapter reaches, \<open>WorkspaceConfinement\<close> which
  entries of the file system a release may remove. \<open>CommandExecutor\<close> is
  \<open>adapters/local/command_executor.py\<close>, over any sandbox backend; the locale \<open>process_sandbox\<close> of
  \<open>ExecutorProperties\<close> is the contract a backend has to keep for the executor's safety, and
  \<open>LinuxSandbox\<close> is shown to keep it. \<open>HostExamples\<close> is a concrete host on which workspaces are
  prepared and a command runs; \<open>SandboxProperties\<close>, \<open>WorkspaceProperties\<close> and \<open>ExecutorProperties\<close>
  state the properties of the local adapters and run them on that host.

  \<open>WorkspacePort\<close> is the contract of \<open>ports/workspace.py\<close> as an abstract machine over the handles in use
  (\<open>port_step\<close>) and what it gives a client; its locale \<open>workspace_port\<close> is interpreted on the Git
  workspace adapter, and \<open>WorkspacePortProperties\<close> states the refinement for whole sequences of calls.

  Evidence. \<open>EvidenceSerialization\<close> is \<open>adapters/local/evidence_serialization.py\<close>: the values of the
  schemas package are dynamically typed there, so its guards are branches over the datatype \<open>obj\<close>.
  \<open>PyFloat\<close> has the doubles its durations are computed in and their \<open>repr\<close>. \<open>EvidenceCodec\<close> says which
  exceptions leave the serializer, \<open>EvidenceProperties\<close> what a command result is and what its bytes and
  those of an environment determine. \<open>CommandPipeline\<close> composes the use case of command execution with
  the executor in its port and the command result: what the evidence of a run attests.

  \<open>QualityGate\<close> is \<open>scripts/quality_gate.py\<close>: its fixed checks and when it succeeds.

  The properties of the domain and of the store stand below, with those that span them: that a run
  resumes exactly when its bindings match, and that every run can be completed, once and for all.

  Not modelled. The re-exporting facades and package initializers and the declarations of the protocols;
  subclasses of the program's classes, and objects changed behind their constructors with
  \<open>object.__setattr__\<close>; the \<open>isinstance\<close> guards at the entry of the adapters' methods;
  the human-readable details of exceptions; the lock of the workspace adapter,
  whose operations are taken one at a time; floating-point rounding of clock readings; the
  grammar of \<open>datetime.fromisoformat\<close>, which differs between the interpreters the package admits
  and is a parameter of the evidence serializer; the parsing of command-line options. A child
  process, Git and bubblewrap among them, may do anything to the file system between two calls, so
  nothing is concluded from what they are meant to do. Path semantics are those of \<open>pathlib\<close> and
  \<open>os.path.realpath\<close> on Linux. The year of a timestamp is rendered with four digits, as the C
  library does from the year 1000 on and the interpreters since the repair of \<open>strftime\<close> do for every
  year; older patch releases of 3.12 with glibc write the years before 1000 with fewer digits. The
  exceptions that starting a child can raise beyond \<open>OSError\<close> (\<open>ValueError\<close> for a null character in an
  argument, \<open>UnicodeEncodeError\<close> for a lone surrogate) and the \<open>OverflowError\<close> of waiting with an
  enormous timeout are not modelled; they concern executions that do not return a result. The
  interpreter's recursion limit is a parameter where untrusted text is decoded and encoded again,
  the same for every call, and is not modelled for other calls.
\<close>

section \<open>The durable state store\<close>

text \<open>C1. A load fails closed: on any database, with any statements failing and any other
  connection committing in between, a checkpoint that is returned is well formed, belongs to
  the run that was asked for, and is where some accepted history from the initial state of its
  identity ends.\<close>

theorem load_fail_closed:
  assumes "perform (store_load py FS rid) evs db = (Inr (Some cp), db')"
  shows "\<exists>es. valid_run FS cp es \<and> ri_run_id (cp_identity cp) = rid"
proof -
  obtain w db1 db2 where w: "run_view py FS rid db1 db2 = Inr w" and "Some cp = map_option fst w"
    using store_load_Inr [OF assms] by blast
  then obtain es where "w = Some (cp, es)" by (cases w) auto
  with w run_view_valid(1,2) show ?thesis by blast
qed

theorem load_fail_closed_witness:
  "\<exists>es. valid_run ex_final_states ex_checkpoint es \<and> ri_run_id (cp_identity ex_checkpoint) = checkpoint_run ex_checkpoint"
proof (rule load_fail_closed)
  show "perform (store_load ex_interpreter ex_final_states (checkpoint_run ex_checkpoint)) [] ex_stored =
      (Inr (Some ex_checkpoint), ex_stored)"
    using sqlite.load [OF ex_stored_facts(2)] by (simp add: ex_stored_facts(3))
qed

text \<open>C2. Compare-and-append is atomic under any failing statements: whatever happens, the
  operation worked on one database it found under the write lock. If it raises, the database is
  the one it found. If it returns a checkpoint, the database it found held the expected checkpoint
  under a valid history, and the database it leaves has the rows of the update: the new
  checkpoint in the row of the run, one more transition with the event of the update, and nothing
  else changed (\<open>appended\<close>); every other run reads as before, and the run itself reads as the
  new checkpoint with its history extended by the event, if the lifecycle policy allows the
  update, and as corrupt if it does not.\<close>

theorem append_all_or_nothing:
  assumes "perform (store_compare_and_append py FS u) evs db = (r, db')"
  shows "\<exists>found \<in> worlds evs db. (case r of
      Inr nx \<Rightarrow> next_checkpoint u = Inr nx \<and> appended u nx found db' \<and>
        (\<exists>es. run_of py FS found (checkpoint_run (up_expected u)) = Inr (Some (up_expected u, es)) \<and>
          (wf_update FS u \<longrightarrow> run_of py FS db' (checkpoint_run (up_expected u)) =
             (if policy_allows FS u then Inr (Some (nx, es @ [adv_transition (up_advance u)]))
              else Inl (StateStoreError SS_CORRUPT)))) \<and>
        (\<forall>rid. rid \<noteq> checkpoint_run (up_expected u) \<longrightarrow> run_of py FS db' rid = run_of py FS found rid)
    | Inl e \<Rightarrow> db' = found)"
proof -
  obtain found where found: "found \<in> worlds evs db" "atomic_outcome evs (append_effect py FS u) r found db'"
    using append_atomic [OF assms] by blast
  show ?thesis
  proof (cases r)
    case (Inl e)
    with found show ?thesis by (auto simp: atomic_outcome_def)
  next
    case (Inr nx)
    with found(2) have eff: "append_effect py FS u found = Inr (nx, db')" by (simp add: atomic_outcome_def)
    obtain es where es: "run_of py FS found (checkpoint_run (up_expected u)) = Inr (Some (up_expected u, es))"
      and nx: "next_checkpoint u = Inr nx"
      by (rule append_effect_Inr [OF eff])
    have "run_of py FS db' rid = run_of py FS found rid" if "rid \<noteq> checkpoint_run (up_expected u)" for rid
      using append_effect_others [OF eff] that run_id_value_inject by blast
    then show ?thesis
      using found(1) es nx append_effect_appended [OF eff] append_effect_same [OF eff _ es]
      unfolding Inr by (intro bexI [of _ found]) (auto simp: policy_allows_def)
  qed
qed

theorem append_all_or_nothing_witness:
  "\<exists>nx. appended (ex_update_to WORKSPACE_PREPARED) nx ex_stored ex_appended \<and>
     run_of ex_interpreter ex_final_states ex_appended (checkpoint_run ex_checkpoint) =
       Inr (Some (nx, [adv_transition (up_advance (ex_update_to WORKSPACE_PREPARED))]))"
proof -
  let ?u = "ex_update_to WORKSPACE_PREPARED"
  have u: "wf_update ex_final_states ?u" "policy_allows ex_final_states ?u" "up_expected ?u = ex_checkpoint"
    using prepared_update_facts [OF ex_update_prepared] by (simp_all add: policy_allows_def ex_update_to_def)
  have "run_of ex_interpreter ex_final_states ex_stored (checkpoint_run ex_checkpoint) = Inr (Some (ex_checkpoint, []))"
    using sound_held [OF ex_stored_facts(2)] by (simp add: ex_stored_facts(3))
  then show ?thesis
    using append_all_or_nothing [OF ex_appended_facts(1)] u by auto
qed

text \<open>C3. Refinement: on a sound database, undisturbed, for an update the program prepared,
  compare-and-append does to the database what a map from runs to checkpoint and journal says: it extends the
  journal of a run whose current checkpoint is the expected one, and otherwise changes nothing
  and reports a conflict or a missing run.\<close>

theorem append_refines_map:
  assumes "sound_database py FS db" and "prepared_update FS u"
    and "perform (store_compare_and_append py FS u) [] db = (r, db')"
  shows "sound_database py FS db' \<and> (case held_runs py FS db (checkpoint_run (up_expected u)) of
      None \<Rightarrow> r = Inl (StateStoreError SS_NOT_FOUND) \<and> db' = db
    | Some (cp, es) \<Rightarrow>
        if cp = up_expected u
        then \<exists>nx. r = Inr nx \<and> next_checkpoint u = Inr nx \<and>
          held_runs py FS db' = (held_runs py FS db)(checkpoint_run nx \<mapsto> (nx, es @ [adv_transition (up_advance u)]))
        else r = Inl (StateStoreError SS_CONFLICT) \<and> db' = db)"
  using assms by (rule sqlite.append_cases) (simp_all add: assms(1))

theorem append_refines_map_witness:
  "sound_database ex_interpreter ex_final_states ex_appended \<and>
   held_runs ex_interpreter ex_final_states ex_appended (checkpoint_run ex_checkpoint) \<noteq> None"
  using append_refines_map [OF ex_stored_facts(2) ex_update_prepared ex_appended_facts(1)]
  by (simp add: ex_appended_facts(3))

text \<open>C8. Of two writers that prepared updates of the same checkpoint, the second one is refused
  with a conflict and changes nothing.\<close>

theorem second_writer_conflicts:
  assumes "sound_database py FS db" and "prepared_update FS u" and "prepared_update FS v"
    and "up_expected v = up_expected u"
    and "perform (store_compare_and_append py FS u) [] db = (Inr nx, db')"
  shows "perform (store_compare_and_append py FS v) [] db' = (Inl (StateStoreError SS_CONFLICT), db')"
  using assms by (rule sqlite.one_winner)

theorem second_writer_conflicts_witness:
  "perform (store_compare_and_append ex_interpreter ex_final_states (ex_update_to WORKSPACE_PREPARED)) [] ex_appended =
     (Inl (StateStoreError SS_CONFLICT), ex_appended)"
  by (rule second_writer_conflicts [OF ex_stored_facts(2) ex_update_prepared ex_update_prepared refl ex_appended_facts(1)])

text \<open>C9. The journal is append-only: whatever the store's operations write to a database, of any
  checkpoints and any updates (those the lifecycle policy never saw included), with any statements
  failing and among other connections that write through the store as well, the transitions it
  held are still there, unchanged and in their place, and whenever the history of a run can be
  read before and after, the later one begins with the earlier one.\<close>

theorem history_append_only:
  assumes "written py FS db db'"
  shows "(\<exists>more. journal db' = journal db @ more) \<and>
    (\<forall>rid es es'. perform (store_history py FS rid) [] db = (Inr es, db) \<longrightarrow>
       perform (store_history py FS rid) [] db' = (Inr es', db') \<longrightarrow> (\<exists>more. es' = es @ more))"
proof (intro conjI allI impI)
  have ext: "extends_journal db db'" by (rule written_extends [OF assms])
  then show "\<exists>more. journal db' = journal db @ more" by (simp add: extends_journal_def)
  fix rid es es'
  assume "perform (store_history py FS rid) [] db = (Inr es, db)"
    and "perform (store_history py FS rid) [] db' = (Inr es', db')"
  from this [THEN history_quiet_Inr] show "\<exists>more. es' = es @ more"
    using histories_continue [OF ext] by blast
qed

theorem history_append_only_witness:
  "(\<exists>more. journal ex_appended = journal ex_stored @ more) \<and>
   (\<exists>es es' more.
     perform (store_history ex_interpreter ex_final_states (checkpoint_run ex_checkpoint)) [] ex_stored = (Inr es, ex_stored) \<and>
     perform (store_history ex_interpreter ex_final_states (checkpoint_run ex_checkpoint)) [] ex_appended = (Inr es', ex_appended) \<and>
     es' = es @ more)"
proof -
  let ?rid = "checkpoint_run ex_checkpoint"
  have w: "written ex_interpreter ex_final_states ex_stored ex_appended"
    by (rule written_appended [OF written_refl _ ex_appended_facts(1)]) simp
  obtain es where es: "perform (store_history ex_interpreter ex_final_states ?rid) [] ex_stored = (Inr es, ex_stored)"
    using sqlite.history [OF ex_stored_facts(2)] by (simp add: ex_stored_facts(3))
  obtain es' where es': "perform (store_history ex_interpreter ex_final_states ?rid) [] ex_appended = (Inr es', ex_appended)"
    using sqlite.history [OF ex_appended_facts(2)] by (simp add: ex_appended_facts(3))
  show ?thesis using history_append_only [OF w] es es' by blast
qed

text \<open>Undisturbed, initializations and prepared appends of a sound database always leave the history
  of a run readable, extended by what was appended.\<close>

theorem prepared_writes_extend_history:
  assumes "list_all (command_ok (initial_checkpoint FS) (prepared_update FS)) cs" and "sound_database py FS db"
    and "perform (store_history py FS rid) [] db = (Inr es, db)"
  shows "\<exists>es' db'. db' = run_commands (\<lambda>cp. perform (store_initialize FS cp) [])
      (\<lambda>u. perform (store_compare_and_append py FS u) []) cs db \<and>
    perform (store_history py FS rid) [] db' = (Inr (es @ es'), db')"
proof -
  obtain cp where held: "held_runs py FS db rid = Some (cp, es)"
    using assms(3) sqlite.history [OF assms(2)] by (auto split: option.splits)
  then show ?thesis
    using sqlite.commands_keep [OF assms(1,2) held] sqlite.history by fastforce
qed

text \<open>C10. A database that grew from an empty file through initializations and through appends of
  updates that the lifecycle policy prepared, with failing statements and concurrent writers of the
  same kind, never holds a run that fails validation: an undisturbed load answers for every run.
  For an update that was not prepared this is false (\<open>unchecked_update_poisons_run\<close>).\<close>

theorem reachable_loads:
  assumes "store_reachable py FS db"
  shows "\<exists>answer. perform (store_load py FS rid) [] db = (Inr answer, db)"
  using sqlite.load [OF reachable_sound [OF assms]] by blast

theorem reachable_loads_witness:
  "\<exists>answer. perform (store_load ex_interpreter ex_final_states (checkpoint_run ex_checkpoint)) [] ex_stored = (Inr answer, ex_stored)"
proof (rule reachable_loads)
  show "store_reachable ex_interpreter ex_final_states ex_stored"
    by (rule reach_initialized [OF reach_created [OF ex_created_schema] _ ex_initial ex_stored_facts(1)]) simp
qed


text \<open>C11. A load is not a snapshot: its two queries run in autocommit mode, and when an append
  commits between them (the fourth statement of the load is overtaken) the load of a healthy
  run reports it corrupt.\<close>

theorem overtaken_load_reports_corruption:
  assumes "sound_database py FS db1" and "prepared_update FS u"
    and "perform (store_compare_and_append py FS u) [] db1 = (Inr nx, db2)"
  shows "perform (store_load py FS (checkpoint_run nx)) [Quiet, Quiet, Quiet, Overtaken db2] db1 =
    (Inl (StateStoreError SS_CORRUPT), db2)"
proof -
  have eff: "append_effect py FS u db1 = Inr (nx, db2)"
    using assms(3) by (simp add: append_quiet split: sum.splits prod.splits)
  from assms(1,2) eff obtain es where
    old: "held_runs py FS db1 (checkpoint_run (up_expected u)) = Some (up_expected u, es)"
    and nx: "next_checkpoint u = Inr nx" and run: "checkpoint_run nx = checkpoint_run (up_expected u)"
    and sound: "sound_database py FS db2"
    and upd: "held_runs py FS db2 = (held_runs py FS db1)(checkpoint_run nx \<mapsto> (nx, es @ [adv_transition (up_advance u)]))"
    by (rule sound_append)
  have "nx \<noteq> up_expected u" using sqlite.update_moves [OF assms(2) nx] by simp
  moreover have "cp_identity nx = cp_identity (up_expected u)"
    using next_checkpoint_wf(1) [OF prepared_update_facts(1) [OF assms(2)]] nx by auto
  ultimately show ?thesis
    using sound_held [OF assms(1), of "checkpoint_run nx"] sound_held [OF sound, of "checkpoint_run nx"] old upd
    by (intro torn_load [where ?cp1.0 = "up_expected u" and ?cp2.0 = nx]) (simp_all add: run)
qed

theorem overtaken_load_witness:
  "perform (store_load ex_interpreter ex_final_states (RunId (lit ''run-policy'')))
     [Quiet, Quiet, Quiet, Overtaken ex_appended] ex_stored = (Inl (StateStoreError SS_CORRUPT), ex_appended)"
  using overtaken_load_reports_corruption [OF ex_stored_facts(2) ex_update_prepared ex_appended_facts(1)]
  by (simp add: ex_identity_def del: lit_simps)

text \<open>C12. The constructor of an update checks less than the lifecycle policy: an update of the
  current checkpoint that it accepts, although the policy refuses the transition, is committed
  by compare-and-append, and the run can never be loaded again.\<close>

theorem unchecked_update_poisons_run:
  assumes "sound_database py FS db" and "wf_update FS u" and "list_all encodable FS"
    and "perform (store_load py FS (checkpoint_run (up_expected u))) [] db = (Inr (Some (up_expected u)), db)"
    and "advance_lifecycle FS (cp_lifecycle (up_expected u)) (lc_state (adv_lifecycle (up_advance u)))
      (lc_updated_at (adv_lifecycle (up_advance u))) (ev_actor (adv_transition (up_advance u)))
      (lc_final_state (adv_lifecycle (up_advance u))) = Inl e"
  shows "\<exists>nx db'. perform (store_compare_and_append py FS u) [] db = (Inr nx, db') \<and>
    perform (store_load py FS (checkpoint_run (up_expected u))) [] db' = (Inl (StateStoreError SS_CORRUPT), db')"
proof -
  obtain es where "held_runs py FS db (checkpoint_run (up_expected u)) = Some (up_expected u, es)"
    using assms(4) sqlite.load [OF assms(1)] by (auto simp: map_option_case split: option.splits)
  then show ?thesis
    using poisoned_run [OF assms(1-3)] assms(5) by simp
qed

theorem unchecked_update_witness:
  "\<exists>nx db'. perform (store_compare_and_append ex_interpreter ex_final_states (ex_update_to VERIFYING)) [] ex_stored = (Inr nx, db') \<and>
    perform (store_load ex_interpreter ex_final_states (checkpoint_run (up_expected (ex_update_to VERIFYING)))) [] db' =
      (Inl (StateStoreError SS_CORRUPT), db')"
proof (rule unchecked_update_poisons_run [OF ex_stored_facts(2) ex_skipping_wf ex_final_states_encodable])
  have up: "up_expected (ex_update_to VERIFYING) = ex_checkpoint"
    by (simp add: ex_update_to_def)
  show "perform (store_load ex_interpreter ex_final_states (checkpoint_run (up_expected (ex_update_to VERIFYING)))) [] ex_stored =
      (Inr (Some (up_expected (ex_update_to VERIFYING))), ex_stored)"
    using sqlite.load [OF ex_stored_facts(2)] by (simp add: up ex_stored_facts(3))
  show "advance_lifecycle ex_final_states (cp_lifecycle (up_expected (ex_update_to VERIFYING)))
      (lc_state (adv_lifecycle (up_advance (ex_update_to VERIFYING))))
      (lc_updated_at (adv_lifecycle (up_advance (ex_update_to VERIFYING))))
      (ev_actor (adv_transition (up_advance (ex_update_to VERIFYING))))
      (lc_final_state (adv_lifecycle (up_advance (ex_update_to VERIFYING)))) =
      Inl (LifecycleError LC_INVALID_TRANSITION)"
    using ex_skipping_refused
    by (simp add: ex_update_to_def ex_checkpoint_def next_lifecycle_def next_transition_def)
qed

text \<open>Initialization is atomic and exclusive: it stores the initial checkpoint of a new run
  with an empty journal, refuses a run that is already there and changes nothing then.\<close>

theorem initialize_exclusive:
  assumes "sound_database py FS db" and "initial_checkpoint FS cp"
    and "perform (store_initialize FS cp) [] db = (r, db')"
  shows "(case held_runs py FS db (checkpoint_run cp) of
      None \<Rightarrow> r = Inr () \<and> held_runs py FS db' = (held_runs py FS db)(checkpoint_run cp \<mapsto> (cp, []))
    | Some run \<Rightarrow> r = Inl (StateStoreError SS_ALREADY_EXISTS) \<and> db' = db)"
  using sqlite.initialize_new [OF assms(1,2)] sqlite.initialize_old [OF assms(1,2)] assms(3)
  by (auto split: option.splits)

theorem initialize_exclusive_witness:
  "held_runs ex_interpreter ex_final_states ex_stored =
     (held_runs ex_interpreter ex_final_states ex_created)(checkpoint_run ex_checkpoint \<mapsto> (ex_checkpoint, []))"
  using initialize_exclusive [OF ex_created_sound ex_initial ex_stored_facts(1), of ex_interpreter] by (simp add: ex_created_held)

section \<open>The state codec\<close>

text \<open>C13. The codec of run identities is a bijection between the well-formed identities that
  serialize and the byte strings that are accepted: bytes decode to an identity exactly when
  the identity is well formed and serializes to these bytes.\<close>

theorem identity_codec_exact:
  "deserialize_run_identity py b = Inr i \<longleftrightarrow> wf_run_identity i \<and> serialize_run_identity i = Inr b"
  by (rule identity_codec)

text \<open>C14. The same for checkpoints, whose lifecycle must fit the identity.\<close>

theorem checkpoint_codec_exact:
  "deserialize_checkpoint py FS b = Inr cp \<longleftrightarrow> wf_checkpoint FS cp \<and> serialize_checkpoint cp = Inr b"
  by (rule checkpoint_codec)

text \<open>The same for the transitions of the journal.\<close>

theorem transition_codec_exact:
  "deserialize_transition py FS b = Inr ev \<longleftrightarrow> wf_transition FS ev \<and> serialize_transition ev = Inr b"
  by (rule transition_codec)

text \<open>A well-formed checkpoint serializes unless one of the strings that is not ASCII by its
  format (contract id and version, final state) has a lone surrogate or its revision is beyond
  the digit limit.\<close>

theorem checkpoint_serializes:
  assumes "wf_checkpoint FS cp"
  shows "(\<exists>b. serialize_checkpoint cp = Inr b) \<longleftrightarrow>
    encodable (contract_id_value (ri_contract_id (cp_identity cp))) \<and>
    encodable (contract_version_value (ri_contract_version (cp_identity cp))) \<and>
    int_ok (lc_revision (cp_lifecycle cp)) \<and>
    (\<forall>f. lc_final_state (cp_lifecycle cp) = Some f \<longrightarrow> encodable f)"
  using serialize_checkpoint_total [OF assms] by (simp add: encodable_identity_def)

theorem checkpoint_serializes_witness:
  "\<exists>b. serialize_checkpoint ex_checkpoint = Inr b"
  by (subst checkpoint_serializes [OF ex_checkpoint_wf [of ex_final_states]])
    (simp add: ex_checkpoint_def ex_identity_def ex_lifecycle_def int_ok_small del: lit_simps)

text \<open>C15. Whatever the bytes, decoding a checkpoint raises nothing but the typed serialization
  error, a bare \<open>ValueError\<close>, or a \<open>RecursionError\<close>, the last only on text with more opening
  brackets than the interpreter admits levels of nesting; the fuel of the model is never the reason.\<close>

theorem checkpoint_decoding_errors:
  "case deserialize_checkpoint py FS b of
     Inr cp \<Rightarrow> True
   | Inl e \<Rightarrow> e = StateSerializationError \<or> e = ValueError \<or>
       e = RecursionError \<and> nested_beyond (min (decoder_levels py) (encoder_levels py)) b"
  using deserialize_raises(2) [of py b FS]
  by (auto simp: raises_only_def codec_error_def codec_levels_def split: sum.splits)




section \<open>The lifecycle policy\<close>

text \<open>C17. Advancing a snapshot succeeds exactly for a UTC time that does not go back, a state the
  policy allows next, and a final state exactly when that state is \<open>COMPLETED\<close>; the result is
  the next revision and the event that records it.\<close>

theorem advance_exact:
  assumes "wf_lifecycle FS lc"
  shows "advance_lifecycle FS lc to_st occurred actor fin = Inr a \<longleftrightarrow>
    dt_tz occurred = UTC \<and> dt_le (lc_updated_at lc) occurred \<and> to_st \<in> ALLOWED_NEXT (lc_state lc) \<and>
    (case fin of None \<Rightarrow> to_st \<noteq> COMPLETED | Some f \<Rightarrow> to_st = COMPLETED \<and> f \<in> set FS) \<and>
    a = \<lparr>adv_lifecycle = \<lparr>lc_run_id = lc_run_id lc, lc_state = to_st, lc_revision = lc_revision lc + 1,
           lc_updated_at = occurred, lc_final_state = fin\<rparr>,
         adv_transition = \<lparr>ev_run_id = lc_run_id lc, ev_revision = lc_revision lc + 1,
           ev_from_state = lc_state lc, ev_to_state = to_st, ev_occurred_at = occurred, ev_actor = actor,
           ev_final_state = fin\<rparr>\<rparr>"
proof -
  have "0 \<le> lc_revision lc" using assms by (simp add: wf_defs)
  then show ?thesis
    unfolding advance_lifecycle_Inr [OF \<open>0 \<le> lc_revision lc\<close>]
    by (auto simp: may_advance_def next_lifecycle_def next_transition_def wf_final_def)
qed

theorem advance_exact_witness:
  "\<exists>a. advance_lifecycle ex_final_states ex_lifecycle COMPLETED ex_now ex_actor (Some (lit ''NO_OP'')) = Inr a"
  unfolding advance_exact [OF ex_lifecycle_wf]
  by (simp add: ex_lifecycle_def ex_final_states_def del: lit_simps)

text \<open>C18. Every history from the initial snapshot ends after at most six events: revisions count
  the events, each event starts in the state the previous one reached, times never go back, and
  the snapshot is the one the last event reached.\<close>

theorem histories_bounded:
  assumes "start_lifecycle FS i = Inr lc0" and "wf_run_identity i" and "lifecycle_path FS lc0 es lc"
  shows "length es \<le> 6 \<and> lc_revision lc = int (length es) \<and>
    map ev_revision es = map (\<lambda>k. int k + 1) [0..<length es] \<and>
    map ev_from_state es @ [lc_state lc] = CONTRACT_BOUND # map ev_to_state es \<and>
    sorted_wrt dt_le (ri_created_at i # map ev_occurred_at es)"
proof -
  have wf: "wf_lifecycle FS lc0" using assms(1,2) start_wf by blast
  have lc0: "lc_revision lc0 = 0" "lc_state lc0 = CONTRACT_BOUND" "lc_updated_at lc0 = ri_created_at i"
    using assms(1,2) by (auto simp: wf_start)
  show ?thesis
    using path_bounded [OF assms(3) wf] path_shape [OF assms(3) wf]
    by (simp add: journal_shape_def lc0 add.commute)
qed

theorem histories_bounded_witness:
  "lc_revision (next_lifecycle ex_lifecycle WORKSPACE_PREPARED ex_now None) = 1"
proof -
  let ?a = "\<lparr>adv_lifecycle = next_lifecycle ex_lifecycle WORKSPACE_PREPARED ex_now None,
    adv_transition = next_transition ex_lifecycle WORKSPACE_PREPARED ex_now ex_actor None\<rparr>"
  have "advance_lifecycle ex_final_states ex_lifecycle WORKSPACE_PREPARED ex_now ex_actor None = Inr ?a"
    by (subst advance_lifecycle_Inr) (simp_all add: ex_lifecycle_def may_advance_def wf_final_def)
  from path_step [OF path_start ex_actor_wf ex_now_wf(1) this]
  have "lifecycle_path ex_final_states ex_lifecycle [adv_transition ?a] (adv_lifecycle ?a)" by simp
  from histories_bounded [OF ex_lifecycle_started ex_identity_wf this] show ?thesis by simp
qed

text \<open>A completed run is terminal: no operation of the lifecycle advances it, whatever its
  arguments, and with a UTC time and a working target the error is the typed terminal one.\<close>

theorem completed_is_terminal:
  assumes "lc_state lc = COMPLETED"
  shows "\<exists>e. advance_lifecycle FS lc to_st occurred actor fin = Inl e \<and>
    (dt_tz occurred = UTC \<longrightarrow> e = LifecycleError LC_TERMINAL_STATE)"
  using assms by (simp add: advance_lifecycle_def require_utc_def Let_def)

theorem completed_is_terminal_witness:
  "\<exists>e. advance_lifecycle ex_final_states (ex_lifecycle\<lparr>lc_state := COMPLETED\<rparr>) BUILDING ex_now ex_actor None = Inl e \<and>
    (dt_tz ex_now = UTC \<longrightarrow> e = LifecycleError LC_TERMINAL_STATE)"
  by (rule completed_is_terminal) simp

text \<open>An update is prepared exactly when the policy allows the advance, and then passes every
  check of its constructor: the expected checkpoint, the next snapshot and its event belong
  together, and the next checkpoint can be formed.\<close>

theorem prepared_updates_pass:
  assumes "wf_checkpoint FS cp" and "wf_actor actor" and "valid_datetime occurred"
  shows "((\<exists>u. prepare_state_update FS cp to_st occurred actor fin = Inr u) \<longleftrightarrow>
      (\<exists>a. advance_lifecycle FS (cp_lifecycle cp) to_st occurred actor fin = Inr a)) \<and>
    (\<forall>u. prepare_state_update FS cp to_st occurred actor fin = Inr u \<longrightarrow> up_expected u = cp \<and>
      (\<exists>nx. next_checkpoint u = Inr nx \<and> wf_checkpoint FS nx \<and> cp_lifecycle nx = adv_lifecycle (up_advance u)))"
proof -
  have "0 \<le> lc_revision (cp_lifecycle cp)" using assms(1) by (simp add: wf_defs)
  then have "(\<exists>u. prepare_state_update FS cp to_st occurred actor fin = Inr u) \<longleftrightarrow>
      (\<exists>a. advance_lifecycle FS (cp_lifecycle cp) to_st occurred actor fin = Inr a)"
    by (simp add: prepare_state_update_Inr [OF assms(1)] advance_lifecycle_Inr)
  moreover have "up_expected u = cp \<and> (\<exists>nx. next_checkpoint u = Inr nx \<and> wf_checkpoint FS nx \<and>
      cp_lifecycle nx = adv_lifecycle (up_advance u))"
    if "prepare_state_update FS cp to_st occurred actor fin = Inr u" for u
    using prepared_update_wf(2) [OF assms that] next_checkpoint_wf [OF prepared_update_wf(1) [OF assms that]]
    by simp
  ultimately show ?thesis by blast
qed

theorem prepared_updates_pass_witness:
  "\<exists>nx. next_checkpoint (ex_update_to WORKSPACE_PREPARED) = Inr nx \<and> wf_checkpoint ex_final_states nx"
  using prepared_updates_pass [OF ex_checkpoint_wf ex_actor_wf ex_now_wf(1), of ex_final_states WORKSPACE_PREPARED None]
    ex_prepared by blast

section \<open>Identities\<close>

text \<open>An accepted run identifier is safe as a path component: one to 128 characters, none of
  them a separator, a backslash or NUL, and neither of the two dot names.\<close>

theorem run_id_path_safe:
  assumes "new_RunId v = Inr r"
  shows "r = RunId v \<and> 0 < length v \<and> length v \<le> 128 \<and> 47 \<notin> set v \<and> 92 \<notin> set v \<and> 0 \<notin> set v \<and>
    v \<noteq> lit ''.'' \<and> v \<noteq> lit ''..''"
proof -
  have m: "match_head_tail is_alnum is_handle_char 127 v" and r: "r = RunId v"
    using assms by (simp_all add: new_RunId_Inr RUN_ID_PATTERN_def)
  have chars: "list_all is_handle_char v" by (rule match_handle_chars [OF m])
  obtain c cs where v: "v = c # cs" "is_alnum c" "length cs \<le> 127"
    using m by (auto simp: match_head_tail_def split: list.splits)
  then have "c \<noteq> 46" by (auto simp: is_alnum_def is_lower_def is_upper_def is_digit_def)
  moreover have "47 \<notin> set v" "92 \<notin> set v" "0 \<notin> set v"
    using chars by (auto simp: list_all_iff is_handle_char_def is_alnum_def is_lower_def is_upper_def is_digit_def)
  ultimately show ?thesis using v r by auto
qed

theorem run_id_path_safe_witness: "length (lit ''run-policy'') \<le> 128"
proof -
  have "new_RunId (lit ''run-policy'') = Inr (RunId (lit ''run-policy''))"
    using ex_run_id_wf by (simp only: wf_run_id_new run_id.sel)
  from run_id_path_safe [OF this] show ?thesis by simp
qed

section \<open>Contract binding and resuming\<close>

text \<open>C19. A bound contract cannot be forged: its constructor accepts a contract, a hash and bytes
  exactly when binding the bytes gives this contract and hash; then the hash is the SHA-256
  digest of the bytes, which are UTF-8 text of one JSON object without repeated keys that the
  contract validator finds no error in.\<close>

theorem bound_contracts_exact:
  "(new_BoundContract py pkg c h source = Inr b \<longleftrightarrow> bind_contract py pkg source = Inr b \<and> bc_contract b = c \<and> bc_hash b = h) \<and>
   (bind_contract py pkg source = Inr b \<longleftrightarrow>
     (\<exists>t kvs. utf8_decode source = Inr t \<and> json_loads (contract_reader py) t = Inr (JObj kvs) \<and>
        keys_distinct (JObj kvs) \<and> pkg_validate pkg (JObj kvs) = Inr [] \<and>
        pkg_from_dict pkg (JObj kvs) = Inr (bc_contract b)) \<and>
     bc_hash b = ContractHash (sha256_hexdigest source) \<and> bc_source b = source)"
proof -
  have "bind_contract py pkg source = Inr b \<longleftrightarrow> parse_contract py pkg source = Inr (bc_contract b) \<and>
      bc_hash b = ContractHash (sha256_hexdigest source) \<and> bc_source b = source" for b
    by (cases b) (auto simp: bind_contract_exact)
  moreover have "parse_contract py pkg source = Inr c \<longleftrightarrow>
      (\<exists>t kvs. utf8_decode source = Inr t \<and> json_loads (contract_reader py) t = Inr (JObj kvs) \<and>
        keys_distinct (JObj kvs) \<and> pkg_validate pkg (JObj kvs) = Inr [] \<and> pkg_from_dict pkg (JObj kvs) = Inr c)" for c
    using parse_contract_distinct [of source _ py] unfolding parse_contract_Inr by blast
  ultimately show ?thesis by (cases b) (auto simp: new_BoundContract_Inr)
qed

text \<open>C20. Whatever the bytes, binding raises nothing but the typed contract error, a
  \<open>RecursionError\<close> on text with more opening brackets than the interpreter admits levels of nesting,
  or an exception of the schemas package that is not among the three its caller catches.\<close>

theorem binding_errors_typed:
  "case bind_contract py pkg source of
     Inr b \<Rightarrow> True
   | Inl e \<Rightarrow> (\<exists>c. e = ContractBindingError c) \<or>
       e = RecursionError \<and> nested_beyond (decoder_levels py) source \<or>
       e \<noteq> KeyError \<and> e \<noteq> TypeError \<and> \<not> is_ValueError e \<and>
         (\<exists>v. pkg_validate pkg v = Inl e \<or> pkg_from_dict pkg v = Inl e)"
  using parse_contract_Inl [of py pkg source]
  by (cases "parse_contract py pkg source")
    (auto simp: bind_contract_exact is_binding_error_def package_raises_def is_document_error_def
      is_type_or_value_error_def)



text \<open>C21. Resuming is exact: on a sound database the checkpoint of a run is handed back for
  continuation exactly when the run is held, its identity carries the given contract, hash,
  baseline and policy, and it has not completed; the database is never changed.\<close>

theorem resumes_exactly:
  assumes "sound_database py FS db"
  shows "load_run_for_resume (\<lambda>rid. perform (store_load py FS rid) []) pkg rid bound base pol db = (Inr cp, db') \<longleftrightarrow>
    db' = db \<and> (\<exists>es. held_runs py FS db rid = Some (cp, es)) \<and> bound_to pkg bound base pol (cp_identity cp) \<and>
    lc_state (cp_lifecycle cp) \<noteq> COMPLETED"
  by (rule sqlite.resume_exact [OF assms]) (auto dest: held_valid(3) [OF assms] simp: wf_checkpoint_new)

theorem resumes_exactly_witness:
  "load_run_for_resume (\<lambda>rid. perform (store_load ex_interpreter ex_final_states rid) [])
     \<lparr>pkg_validate = (\<lambda>v. Inr []), pkg_from_dict = (\<lambda>v. Inr ()), pkg_id = (\<lambda>c. lit ''quality-loop''),
       pkg_version = (\<lambda>c. lit ''0.1.2'')\<rparr> (checkpoint_run ex_checkpoint)
     \<lparr>bc_contract = (), bc_hash = ri_contract_hash ex_identity, bc_source = []\<rparr>
     (ri_baseline_sha ex_identity) (ri_policy_hash ex_identity) ex_stored = (Inr ex_checkpoint, ex_stored)"
  unfolding resumes_exactly [OF ex_stored_facts(2)]
  by (simp add: ex_stored_facts(3) bound_to_def del: lit_simps)
    (simp add: ex_checkpoint_def ex_identity_def ex_lifecycle_def del: lit_simps)

text \<open>C22. No run is stuck, and completion is final: a run that is held and has not completed can be
  completed at any later time with any canonical final state. The update is prepared and appended,
  the database stays sound and the other runs are as they were; from then on no update of the
  run can be prepared and it never resumes, whatever it is resumed with.\<close>

theorem runs_can_complete:
  assumes "sound_database py FS db" and "list_all encodable FS" and "held_runs py FS db rid = Some (cp, es)"
    and "lc_state (cp_lifecycle cp) \<noteq> COMPLETED" and "f \<in> set FS"
    and "wf_actor actor" and "wf_instant t" and "dt_le (lc_updated_at (cp_lifecycle cp)) t"
  shows "\<exists>u nx db'. prepare_state_update FS cp COMPLETED t actor (Some f) = Inr u \<and>
    perform (store_compare_and_append py FS u) [] db = (Inr nx, db') \<and> sound_database py FS db' \<and>
    held_runs py FS db' = (held_runs py FS db)(rid \<mapsto> (nx, es @ [adv_transition (up_advance u)])) \<and>
    lc_state (cp_lifecycle nx) = COMPLETED \<and> lc_final_state (cp_lifecycle nx) = Some f \<and>
    (\<forall>to_st t actor fin. isl (prepare_state_update FS nx to_st t actor fin)) \<and>
    (\<forall>pkg bound base pol. isl (fst (load_run_for_resume (\<lambda>rid. perform (store_load py FS rid) []) pkg rid bound base pol db')))"
proof -
  note held = held_valid [OF assms(1,3)]
  have "may_advance FS (cp_lifecycle cp) COMPLETED t (Some f)"
    using assms allowed_to_completed by (simp add: may_advance_def wf_instant_def wf_final_def)
  then obtain u where u: "prepare_state_update FS cp COMPLETED t actor (Some f) = Inr u"
    using held(3) by (simp add: prepare_state_update_Inr)
  then have fields: "up_expected u = cp"
    "adv_lifecycle (up_advance u) = next_lifecycle (cp_lifecycle cp) COMPLETED t (Some f)"
    using held(3) by (simp_all add: prepare_state_update_Inr)
  have "prepared_update FS u"
    using assms(2,6,7) held(3) u unfolding prepared_update_def wf_instant_def by blast
  then obtain nx db' where nx: "next_checkpoint u = Inr nx" "perform (store_compare_and_append py FS u) [] db = (Inr nx, db')"
    "sound_database py FS db'" "held_runs py FS db' = (held_runs py FS db)(checkpoint_run nx \<mapsto> (nx, es @ [adv_transition (up_advance u)]))"
    using sqlite.append_current [OF assms(1), of u es] fields(1) held(2) assms(3) by auto
  have lc: "cp_lifecycle nx = next_lifecycle (cp_lifecycle cp) COMPLETED t (Some f)" and "checkpoint_run nx = rid"
    using nx(1) fields held(2) by (auto simp: next_checkpoint_def new_RunCheckpoint_Inr)
  then have done_: "lc_state (cp_lifecycle nx) = COMPLETED" "lc_final_state (cp_lifecycle nx) = Some f"
    "held_runs py FS db' rid = Some (nx, es @ [adv_transition (up_advance u)])"
    "held_runs py FS db' = (held_runs py FS db)(rid \<mapsto> (nx, es @ [adv_transition (up_advance u)]))"
    using nx(4) by (simp_all add: next_lifecycle_def)
  have "isl (fst (load_run_for_resume (\<lambda>rid. perform (store_load py FS rid) []) pkg rid bound base pol db'))" for pkg bound base pol
  proof (cases "load_run_for_resume (\<lambda>rid. perform (store_load py FS rid) []) pkg rid bound base pol db'")
    case (Pair r db'')
    have "r \<noteq> Inr cp'" for cp'
      using Pair sqlite.resume_exact [OF nx(3), of rid pkg bound base pol cp' db''] done_(1,3) held_valid(3) [OF nx(3)]
      by (auto simp: wf_checkpoint_new)
    then show ?thesis using Pair by (cases r) auto
  qed
  with u nx(2,3) done_ completed_prepares_nothing show ?thesis by blast
qed

theorem runs_can_complete_witness:
  "\<exists>db' nx es. held_runs ex_interpreter ex_final_states db' (checkpoint_run ex_checkpoint) = Some (nx, es) \<and>
     lc_state (cp_lifecycle nx) = COMPLETED"
proof -
  have "lc_state (cp_lifecycle ex_checkpoint) \<noteq> COMPLETED" "dt_le (lc_updated_at (cp_lifecycle ex_checkpoint)) ex_now"
    "hd ex_final_states \<in> set ex_final_states"
    by (simp_all add: ex_checkpoint_def ex_lifecycle_def ex_final_states_def)
  from runs_can_complete [OF ex_stored_facts(2) ex_final_states_encodable ex_stored_facts(3) this(1,3) ex_actor_wf ex_now_wf(3) this(2)]
  obtain nx db' es where "held_runs ex_interpreter ex_final_states db' =
      (held_runs ex_interpreter ex_final_states ex_stored)(checkpoint_run ex_checkpoint \<mapsto> (nx, es))"
    "lc_state (cp_lifecycle nx) = COMPLETED"
    by blast
  then show ?thesis by (intro exI [of _ db'] exI [of _ nx] exI [of _ es]) simp
qed

section \<open>Commands and their policy\<close>

text \<open>C23. The working directories that are accepted are \<open>.\<close> and the paths whose components,
  separated by single slashes, are neither empty nor a dot name, without NUL and backslash.\<close>

theorem working_directory_exact:
  "new_WorkingDirectory v = Inr d \<longleftrightarrow> d = WorkingDirectory v \<and>
     (v = lit ''.'' \<or> 0 \<notin> set v \<and> 92 \<notin> set v \<and>
        (\<forall>p \<in> set (split_slash v). p \<noteq> [] \<and> p \<noteq> lit ''.'' \<and> p \<noteq> lit ''..''))"
  by (simp add: new_WorkingDirectory_Inr)

theorem working_directory_witness:
  "new_WorkingDirectory (lit ''src/app'') = Inr (WorkingDirectory (lit ''src/app''))"
  unfolding working_directory_exact by simp

text \<open>C24. Authorization is first match: a request is authorized exactly when its run carries the
  hash of the policy, its action is allowed and not denied, and some rule permits it; the rule
  it is bound to is the first of the policy that does.\<close>

theorem authorization_first_match:
  "authorize_command rq p = Inr a \<longleftrightarrow>
     action_open rq p \<and> List.find (permits rq) (po_rules p) = Some (au_rule a) \<and>
     au_request a = rq \<and> au_policy a = p"
  by (cases a) (auto simp: authorize_command_Inr matching_rule_Inr)

text \<open>C25. A denial names the test that failed: for a run of the policy and an open action, the cause
  is that of the first test that no rule passes among those that passed all tests before it.\<close>

theorem denial_names_failed_test:
  assumes "action_open rq p" and "po_rules p \<noteq> []"
  shows "authorize_command rq p = Inl (CommandAuthorizationError c) \<longleftrightarrow>
    (\<exists>before t after. rule_tests rq = before @ (c, t) # after \<and>
      (\<exists>r \<in> set (po_rules p). \<forall>ct \<in> set before. snd ct r) \<and>
      (\<forall>r \<in> set (po_rules p). (\<forall>ct \<in> set before. snd ct r) \<longrightarrow> \<not> t r))"
  using matching_rule_blamed [OF assms(1), of c] blamed_iff [of "\<lambda>_. True" "po_rules p" "rule_tests rq" c] assms(2)
  by (simp add: authorize_command_Inl blames_def)

theorem denial_names_failed_test_witness:
  "authorize_command (ex_request\<lparr>rq_arguments := []\<rparr>) ex_policy = Inl (CommandAuthorizationError CA_ARGUMENTS_DENIED)"
proof (subst denial_names_failed_test)
  show "action_open (ex_request\<lparr>rq_arguments := []\<rparr>) ex_policy" "po_rules ex_policy \<noteq> []"
    by (simp_all add: action_open_def ex_request_def ex_policy_def)
  let ?rq = "ex_request\<lparr>rq_arguments := []\<rparr>"
  have "rule_tests ?rq = take 2 (rule_tests ?rq) @ (CA_ARGUMENTS_DENIED, \<lambda>r. ru_arguments r = []) # drop 3 (rule_tests ?rq)"
    by (simp add: rule_tests_def)
  moreover have "\<exists>r \<in> set (po_rules ex_policy). \<forall>ct \<in> set (take 2 (rule_tests ?rq)). snd ct r"
    "\<forall>r \<in> set (po_rules ex_policy). ru_arguments r \<noteq> []"
    by (simp_all add: rule_tests_def ex_policy_def ex_rule_def ex_request_def del: lit_simps)
  ultimately show "\<exists>before t after. rule_tests ?rq = before @ (CA_ARGUMENTS_DENIED, t) # after \<and>
      (\<exists>r \<in> set (po_rules ex_policy). \<forall>ct \<in> set before. snd ct r) \<and>
      (\<forall>r \<in> set (po_rules ex_policy). (\<forall>ct \<in> set before. snd ct r) \<longrightarrow> \<not> t r)"
    by blast
qed

text \<open>Asking for less never needs more authority: a request that is authorized stays authorized
  with lower ceilings and any environment over a subset of its names.\<close>

theorem less_authority_passes:
  assumes "authorize_command rq p = Inr a" and "limits_within l (rq_limits rq)"
    and "env_name ` set env \<subseteq> env_name ` set (rq_environment rq)"
  shows "\<exists>a'. authorize_command (rq\<lparr>rq_limits := l, rq_environment := env\<rparr>) p = Inr a'"
  using matching_rule_weaken [OF _ assms(2,3)] assms(1) by (fastforce simp: authorize_command_Inr)

theorem less_authority_passes_witness:
  "\<exists>a'. authorize_command (ex_request\<lparr>rq_limits := ex_limits\<lparr>timeout_ms := 1\<rparr>, rq_environment := []\<rparr>) ex_policy = Inr a'"
proof (rule less_authority_passes)
  show "authorize_command ex_request ex_policy = Inr \<lparr>au_request = ex_request, au_policy = ex_policy, au_rule = ex_rule\<rparr>"
    by (simp add: authorize_command_Inr ex_permitted)
  show "limits_within (ex_limits\<lparr>timeout_ms := 1\<rparr>) (rq_limits ex_request)"
    by (simp add: limits_within_def ex_request_def ex_limits_def del: lit_simps)
qed simp

text \<open>An authorized command cannot be forged: its constructor accepts a request, a policy and a
  rule exactly when authorizing the request under the policy gives this rule.\<close>

theorem authorized_commands_exact:
  "new_AuthorizedCommand a = Inr a' \<longleftrightarrow> a' = a \<and> authorize_command (au_request a) (au_policy a) = Inr a"
  by (rule new_AuthorizedCommand_Inr)

text \<open>C26. A policy has one form: two policies that their constructor accepts and that have the same
  hash, actions and set of rules are equal, and every rule is for an allowed action.\<close>

theorem policies_canonical:
  assumes "new_CommandPolicy p = Inr p'" and "new_CommandPolicy q = Inr q'"
    and "po_policy_hash p = po_policy_hash q" and "po_actions p = po_actions q"
    and "set (po_rules p) = set (po_rules q)"
  shows "p = q \<and> (\<forall>r \<in> set (po_rules p). action_value (ru_action r) \<in> set (act_allowed (po_actions p)) \<and>
    action_value (ru_action r) \<notin> set (act_denied (po_actions p)))"
proof -
  have "po_rules p = po_rules q"
    by (rule strict_sorted_map_unique [of rule_key])
      (use assms in \<open>simp_all add: new_CommandPolicy_Inr inj_def rule_key_inject\<close>)
  then show ?thesis using assms by (cases p; cases q) (simp add: new_CommandPolicy_Inr)
qed

theorem policies_canonical_witness:
  "list_all (\<lambda>r. action_value (ru_action r) \<in> set (act_allowed (po_actions ex_policy))) (po_rules ex_policy)"
  using policies_canonical [OF ex_policy_valid ex_policy_valid refl refl refl] by (simp add: list_all_iff)

text \<open>C27. No executor sees an unauthorized request: the use case hands the executor exactly the
  command of the first permitting rule, and without one it raises the typed denial and leaves
  the world as it was.\<close>

theorem executor_sees_authorized_only:
  "execute_authorized_command execute rq p w =
     (if action_open rq p \<and> List.find (permits rq) (po_rules p) \<noteq> None
      then execute \<lparr>au_request = rq, au_policy = p, au_rule = the (List.find (permits rq) (po_rules p))\<rparr> w
      else (Inl (projl (matching_rule rq p)), w)) \<and>
   (matching_rule rq p = Inl e \<longrightarrow> (\<exists>c. e = CommandAuthorizationError c))"
proof (cases "matching_rule rq p")
  case (Inl e')
  then have "\<not> (action_open rq p \<and> List.find (permits rq) (po_rules p) \<noteq> None)"
    using matching_rule_Inr [of rq p] by fastforce
  with Inl show ?thesis using execute_authorized_denied matching_rule_Inl by fastforce
next
  case (Inr r)
  then show ?thesis
    using execute_authorized_permitted [OF Inr] matching_rule_Inr [of rq p r] by simp
qed

theorem executor_sees_authorized_only_witness:
  "execute_authorized_command (\<lambda>a n. (Inr ex_result, Suc n)) ex_request ex_policy 0 = (Inr ex_result, 1)"
  using executor_sees_authorized_only [of "\<lambda>a n. (Inr ex_result, Suc n)" ex_request ex_policy 0] ex_permitted
  by (simp add: matching_rule_Inr)

text \<open>A result of an execution is within bounds: its constructor accepts it exactly when it has
  an exit code just for a normal exit, both captures are within the ceilings of its request,
  and it finished, in UTC, no earlier than it started.\<close>

theorem execution_result_exact:
  "new_ExecutionResult r = Inr r' \<longleftrightarrow> r' = r \<and>
     (er_termination r = EXITED \<longleftrightarrow> er_exit_code r \<noteq> None) \<and>
     int (length (er_stdout r)) \<le> stdout_max_bytes (rq_limits (er_request r)) \<and>
     int (length (er_stderr r)) \<le> stderr_max_bytes (rq_limits (er_request r)) \<and>
     dt_tz (er_started_at r) = UTC \<and> dt_tz (er_finished_at r) = UTC \<and>
     dt_le (er_started_at r) (er_finished_at r)"
  by (rule new_ExecutionResult_Inr)

end
